theory Spec2Isabelle
  imports Complex_Main "HOL-Library.Word"
begin

section \<open>JavaScript values\<close>

text \<open>
  A JavaScript string is a sequence of UTF-16 code units: \<open>slice\<close>, \<open>length\<close>, \<open>padEnd\<close>
  and \<open>includes\<close> all count code units. \<open>js\<close> embeds an ASCII literal; characters
  beyond ASCII are written as their code units.
\<close>

type_synonym jsstring = "16 word list"

definition js :: "string \<Rightarrow> jsstring" where
  "js s = map of_char s"

text \<open>
  A number is a double, given by its exact value, or one of the three numbers that are
  not finite. The two zeros are one number here: they are equal, both are falsy, and
  \<open>JSON.stringify\<close> writes both as \<open>0\<close>.
\<close>

datatype number = Finite rat | NaN | PosInfinity | NegInfinity

text \<open>
  The values that \<open>JSON.parse\<close> produces. An object is the list of its members; a member
  overrides an earlier one of the same name, as in \<open>JSON.parse\<close>. A parsed object lists
  its members as the object enumerates them (see \<open>JSON_parse\<close> below). In the objects that
  the program builds by spread and assignment it only looks properties up by name: there
  the members are listed in the order they were defined, also those that a real object
  would enumerate first. \<open>undefined\<close> is \<open>None\<close> in \<open>json option\<close>.
\<close>

datatype json =
    JNull
  | JBool bool
  | JNum number
  | JStr jsstring
  | JArr "json list"
  | JObj "(jsstring \<times> json) list"

datatype error =
    Error jsstring
  | TypeError
  | URIError
  | SqliteError
  | SyntaxError
  | PayloadTooLargeError

fun truthy :: "json \<Rightarrow> bool" where
  "truthy JNull = False"
| "truthy (JBool b) = b"
| "truthy (JNum x) = (x \<noteq> Finite 0 \<and> x \<noteq> NaN)"
| "truthy (JStr s) = (s \<noteq> [])"
| "truthy (JArr xs) = True"
| "truthy (JObj kvs) = True"

fun truthyU :: "json option \<Rightarrow> bool" where
  "truthyU None = False"
| "truthyU (Some v) = truthy v"

text \<open>
  \<open>o.k\<close> for the property names the program reads (none of them is \<open>length\<close>, an index or
  a name inherited from a prototype). Reading a property of \<open>null\<close> or \<open>undefined\<close> throws.
\<close>

fun Get :: "json option \<Rightarrow> jsstring \<Rightarrow> error + json option" where
  "Get None k = Inl TypeError"
| "Get (Some JNull) k = Inl TypeError"
| "Get (Some (JObj kvs)) k = Inr (map_of (rev kvs) k)"
| "Get (Some v) k = Inr None"

text \<open>The same read where a truthiness test has already excluded \<open>null\<close> and \<open>undefined\<close>.\<close>

fun getProp :: "json option \<Rightarrow> jsstring \<Rightarrow> json option" where
  "getProp (Some (JObj kvs)) k = map_of (rev kvs) k"
| "getProp v k = None"

fun digits :: "nat \<Rightarrow> jsstring" where
  "digits n = (if n < 10 then [48 + of_nat n] else digits (n div 10) @ [48 + of_nat (n mod 10)])"

declare digits.simps [simp del]

fun join :: "jsstring \<Rightarrow> jsstring list \<Rightarrow> jsstring" where
  "join sep [] = []"
| "join sep [x] = x"
| "join sep (x # y # ys) = x @ sep @ join sep (y # ys)"

fun sequence :: "(error + 'a) list \<Rightarrow> error + 'a list" where
  "sequence [] = Inr []"
| "sequence (Inl e # rs) = Inl e"
| "sequence (Inr x # rs) = (case sequence rs of Inl e \<Rightarrow> Inl e | Inr xs \<Rightarrow> Inr (x # xs))"

text \<open>
  \<open>ToString\<close> of a parsed JSON value, as string concatenation and template literals apply
  it. An array joins its elements with commas (\<open>null\<close> prints as nothing); a plain object
  prints as \<open>[object Object]\<close>, unless an own property shadows \<open>toString\<close>, which a parsed
  value can only do with something that is not callable: then the conversion throws.
  The runtime's formatting of a finite number is the parameter \<open>nts\<close>.
\<close>

fun NumberToString :: "(rat \<Rightarrow> jsstring) \<Rightarrow> number \<Rightarrow> jsstring" where
  "NumberToString nts (Finite r) = nts r"
| "NumberToString nts NaN = js ''NaN''"
| "NumberToString nts PosInfinity = js ''Infinity''"
| "NumberToString nts NegInfinity = js ''-Infinity''"

fun ToString :: "(rat \<Rightarrow> jsstring) \<Rightarrow> json \<Rightarrow> error + jsstring" where
  "ToString nts JNull = Inr (js ''null'')"
| "ToString nts (JBool b) = Inr (if b then js ''true'' else js ''false'')"
| "ToString nts (JNum x) = Inr (NumberToString nts x)"
| "ToString nts (JStr s) = Inr s"
| "ToString nts (JArr xs) =
     (case sequence (map (\<lambda>x. if x = JNull then Inr [] else ToString nts x) xs) of
        Inl e \<Rightarrow> Inl e
      | Inr ss \<Rightarrow> Inr (join (js '','') ss))"
| "ToString nts (JObj kvs) =
     (if map_of (rev kvs) (js ''toString'') = None then Inr (js ''[object Object]'') else Inl TypeError)"

fun ToStringU :: "(rat \<Rightarrow> jsstring) \<Rightarrow> json option \<Rightarrow> error + jsstring" where
  "ToStringU nts None = Inr (js ''undefined'')"
| "ToStringU nts (Some v) = ToString nts v"


section \<open>email.js: provider dispatch\<close>

text \<open>
  A network call is one use of a transport: \<open>fetch\<close> for the three HTTP providers,
  nodemailer's \<open>sendMail\<close> for SMTP. It is recorded with the transport and the arguments
  the call is built from; the wire format (URL, headers, body encoding) is not modelled.
  The network answers a call with a response (status and body text) or fails.
  Every function returns its result together with the calls it attempted, in order.
\<close>

datatype transport = Mailgun | SendGrid | Resend | Smtp

datatype request = Request transport json "json option" jsstring jsstring jsstring

datatype netresult = Response nat jsstring | Failed error

type_synonym network = "request \<Rightarrow> netresult"

definition post :: "network \<Rightarrow> request \<Rightarrow> (error + jsstring) \<times> request list" where
  "post net rq =
     (case net rq of
        Failed e \<Rightarrow> (Inl e, [rq])
      | Response status text \<Rightarrow>
          if \<not> (200 \<le> status \<and> status \<le> 299)
          then (Inl (Error (js ''HTTP '' @ digits status @ js '': '' @ text)), [rq])
          else (Inr text, [rq]))"

definition postForm :: "network \<Rightarrow> request \<Rightarrow> (error + jsstring) \<times> request list" where
  "postForm net rq =
     (case net rq of
        Failed e \<Rightarrow> (Inl e, [rq])
      | Response status text \<Rightarrow>
          if \<not> (200 \<le> status \<and> status \<le> 299)
          then (Inl (Error (js ''HTTP '' @ digits status @ js '': '' @ text)), [rq])
          else (Inr text, [rq]))"

definition sendViaMailgun ::
  "network \<Rightarrow> json \<Rightarrow> json option \<Rightarrow> jsstring \<Rightarrow> jsstring \<Rightarrow> jsstring \<Rightarrow> (error + unit) \<times> request list" where
  "sendViaMailgun net cfg to subject html text =
     (case postForm net (Request Mailgun cfg to subject html text) of
        (Inl e, calls) \<Rightarrow> (Inl e, calls)
      | (Inr r, calls) \<Rightarrow> (Inr (), calls))"

definition sendViaSendGrid ::
  "network \<Rightarrow> json \<Rightarrow> json option \<Rightarrow> jsstring \<Rightarrow> jsstring \<Rightarrow> jsstring \<Rightarrow> (error + unit) \<times> request list" where
  "sendViaSendGrid net cfg to subject html text =
     (case post net (Request SendGrid cfg to subject html text) of
        (Inl e, calls) \<Rightarrow> (Inl e, calls)
      | (Inr r, calls) \<Rightarrow> (Inr (), calls))"

definition sendViaResend ::
  "network \<Rightarrow> json \<Rightarrow> json option \<Rightarrow> jsstring \<Rightarrow> jsstring \<Rightarrow> jsstring \<Rightarrow> (error + unit) \<times> request list" where
  "sendViaResend net cfg to subject html text =
     (case post net (Request Resend cfg to subject html text) of
        (Inl e, calls) \<Rightarrow> (Inl e, calls)
      | (Inr r, calls) \<Rightarrow> (Inr (), calls))"

definition sendViaSmtp ::
  "network \<Rightarrow> json \<Rightarrow> json option \<Rightarrow> jsstring \<Rightarrow> jsstring \<Rightarrow> jsstring \<Rightarrow> (error + unit) \<times> request list" where
  "sendViaSmtp net cfg to subject html text =
     (case net (Request Smtp cfg to subject html text) of
        Failed e \<Rightarrow> (Inl e, [Request Smtp cfg to subject html text])
      | Response status info \<Rightarrow> (Inr (), [Request Smtp cfg to subject html text]))"

definition providers :: "jsstring list" where
  "providers = [js ''mailgun'', js ''sendgrid'', js ''resend'', js ''smtp'']"

definition sendEmail ::
  "(rat \<Rightarrow> jsstring) \<Rightarrow> network \<Rightarrow> json option \<Rightarrow> json option \<Rightarrow> jsstring \<Rightarrow> jsstring \<Rightarrow> jsstring
     \<Rightarrow> (error + unit) \<times> request list" where
  "sendEmail nts net cfg to subject html text =
     (if \<not> truthyU cfg \<or> \<not> truthyU (getProp cfg (js ''provider''))
        then (Inl (Error (js ''No email provider configured'')), [])
      else if \<not> truthyU (getProp cfg (js ''fromEmail''))
        then (Inl (Error (js ''No sender email configured'')), [])
      else if \<not> truthyU to
        then (Inl (Error (js ''No recipient email address'')), [])
      else if getProp cfg (js ''provider'') = Some (JStr (js ''mailgun''))
        then sendViaMailgun net (the cfg) to subject html text
      else if getProp cfg (js ''provider'') = Some (JStr (js ''sendgrid''))
        then sendViaSendGrid net (the cfg) to subject html text
      else if getProp cfg (js ''provider'') = Some (JStr (js ''resend''))
        then sendViaResend net (the cfg) to subject html text
      else if getProp cfg (js ''provider'') = Some (JStr (js ''smtp''))
        then sendViaSmtp net (the cfg) to subject html text
      else (case ToStringU nts (getProp cfg (js ''provider'')) of
              Inl e \<Rightarrow> (Inl e, [])
            | Inr p \<Rightarrow> (Inl (Error (js ''Unknown provider: '' @ p)), [])))"


section \<open>email.js: masking the secrets of a configuration\<close>

type_synonym props = "(jsstring \<times> json) list"

text \<open>\<open>o[k] = v\<close>: an existing property keeps its place, a new one goes last.\<close>

fun setProp :: "jsstring \<Rightarrow> json \<Rightarrow> props \<Rightarrow> props" where
  "setProp k v [] = [(k, v)]"
| "setProp k v ((k', v') # kvs) =
     (if k' = k then (k, v) # kvs else (k', v') # setProp k v kvs)"

definition indexKeys :: "nat \<Rightarrow> jsstring list" where
  "indexKeys n = map digits [0..<n]"

text \<open>
  The own enumerable properties of a value, as object spread and \<open>Object.entries\<close> see
  them: an array and a string have one property per index.
\<close>

fun ownProps :: "json \<Rightarrow> props" where
  "ownProps (JObj kvs) = kvs"
| "ownProps (JArr xs) = zip (indexKeys (length xs)) xs"
| "ownProps (JStr s) = zip (indexKeys (length s)) (map (\<lambda>c. JStr [c]) s)"
| "ownProps v = []"

text \<open>\<open>{ ...target, ...src }\<close>, with \<open>target\<close> already spread.\<close>

definition spread :: "props \<Rightarrow> json \<Rightarrow> props" where
  "spread target src = fold (\<lambda>(k, v). setProp k v) (ownProps src) target"

fun forEachE :: "('a \<Rightarrow> 's \<Rightarrow> error + 's) \<Rightarrow> 'a list \<Rightarrow> 's \<Rightarrow> error + 's" where
  "forEachE f [] s = Inr s"
| "forEachE f (x # xs) s = (case f x s of Inl e \<Rightarrow> Inl e | Inr s' \<Rightarrow> forEachE f xs s')"

definition secretFields :: "jsstring list" where
  "secretFields = [js ''mailgunApiKey'', js ''sendgridApiKey'', js ''resendApiKey'', js ''smtpPass'']"

text \<open>The redaction marker of \<open>maskConfig\<close>: twelve bullets (U+2022).\<close>

definition redactionMarker :: jsstring where
  "redactionMarker =
     [0x2022, 0x2022, 0x2022, 0x2022, 0x2022, 0x2022, 0x2022, 0x2022, 0x2022, 0x2022, 0x2022, 0x2022]"

text \<open>
  \<open>v.slice(0, 4) + marker\<close> for a truthy \<open>v\<close>: strings and arrays have \<open>slice\<close> (the sliced
  array is then converted to a string by \<open>+\<close>); for a number, \<open>true\<close> or an object the call
  throws.
\<close>

fun sliceAndMark :: "(rat \<Rightarrow> jsstring) \<Rightarrow> json \<Rightarrow> error + jsstring" where
  "sliceAndMark nts (JStr s) = Inr (take 4 s @ redactionMarker)"
| "sliceAndMark nts (JArr xs) =
     (case ToString nts (JArr (take 4 xs)) of
        Inl e \<Rightarrow> Inl e
      | Inr t \<Rightarrow> Inr (t @ redactionMarker))"
| "sliceAndMark nts v = Inl TypeError"

definition maskField :: "(rat \<Rightarrow> jsstring) \<Rightarrow> jsstring \<Rightarrow> props \<Rightarrow> error + props" where
  "maskField nts f masked =
     (if truthyU (map_of masked f)
      then (case sliceAndMark nts (the (map_of masked f)) of
              Inl e \<Rightarrow> Inl e
            | Inr s \<Rightarrow> Inr (setProp f (JStr s) masked))
      else Inr masked)"

definition maskConfig :: "(rat \<Rightarrow> jsstring) \<Rightarrow> json \<Rightarrow> error + json" where
  "maskConfig nts cfg =
     (if \<not> truthy cfg then Inr JNull
      else (case forEachE (maskField nts) secretFields (spread [] cfg) of
              Inl e \<Rightarrow> Inl e
            | Inr masked \<Rightarrow> Inr (JObj masked)))"


section \<open>server.js: the store\<close>

text \<open>
  A \<open>TEXT\<close> column holds either JSON text, given by the value that \<open>JSON.parse\<close> makes of
  it, or text that \<open>JSON.parse\<close> rejects, given verbatim.

  \<open>JSON.stringify\<close> writes a number that is not finite as \<open>null\<close>; every other number, and
  every string, it writes as text that parses back to it. \<open>stringified v\<close> is the value
  that the text \<open>JSON.stringify(v)\<close> parses to.
\<close>

datatype cell = Json json | Raw jsstring

fun stringified :: "json \<Rightarrow> json" where
  "stringified (JNum x) = (case x of Finite r \<Rightarrow> JNum x | _ \<Rightarrow> JNull)"
| "stringified (JArr xs) = JArr (map stringified xs)"
| "stringified (JObj kvs) = JObj (map (\<lambda>(k, v). (k, stringified v)) kvs)"
| "stringified v = v"

text \<open>The values in which every number is finite: those that \<open>JSON.stringify\<close> writes back unchanged.\<close>

fun finiteNumbers :: "json \<Rightarrow> bool" where
  "finiteNumbers (JNum x) = (case x of Finite r \<Rightarrow> True | _ \<Rightarrow> False)"
| "finiteNumbers (JArr xs) = list_all finiteNumbers xs"
| "finiteNumbers (JObj kvs) = list_all (\<lambda>(k, v). finiteNumbers v) kvs"
| "finiteNumbers v = True"

definition JSON_stringify :: "json \<Rightarrow> cell" where
  "JSON_stringify v = Json (stringified v)"

text \<open>\<open>try { onValue(JSON.parse(c)) } catch { onError(c) }\<close>\<close>

fun tryParse :: "cell \<Rightarrow> (json \<Rightarrow> 'a) \<Rightarrow> (jsstring \<Rightarrow> 'a) \<Rightarrow> 'a" where
  "tryParse (Json v) onValue onError = onValue v"
| "tryParse (Raw s) onValue onError = onError s"

text \<open>
  Each table is a map from its primary key to its payload column (\<open>updated_at\<close> is never
  read).
\<close>

type_synonym userId = jsstring

record db =
  user_state :: "userId \<times> jsstring \<rightharpoonup> cell"
  email_config :: "userId \<rightharpoonup> cell"
  monthly_data :: "userId \<times> jsstring \<rightharpoonup> cell"

definition emptyDb :: db where
  "emptyDb = \<lparr>user_state = Map.empty, email_config = Map.empty, monthly_data = Map.empty\<rparr>"

text \<open>
  Code that talks to the engine runs on the store and may throw; what it has written
  before it throws stays written. A write statement can fail in the engine. The failures
  of one request are a schedule: the next statement run raises iff the head of the list
  is \<open>True\<close>; past the end of the list nothing fails. A failed statement changes nothing.
\<close>

type_synonym 'a sql = "db \<Rightarrow> bool list \<Rightarrow> (error + 'a) \<times> db \<times> bool list"

fun run :: "(db \<Rightarrow> db) \<Rightarrow> unit sql" where
  "run write d [] = (Inr (), write d, [])"
| "run write d (True # fs) = (Inl SqliteError, d, fs)"
| "run write d (False # fs) = (Inr (), write d, fs)"

definition setState_run :: "userId \<Rightarrow> jsstring \<Rightarrow> cell \<Rightarrow> unit sql" where
  "setState_run uid key val = run (\<lambda>d. d\<lparr>user_state := (user_state d)((uid, key) \<mapsto> val)\<rparr>)"

definition setMonth_run :: "userId \<Rightarrow> jsstring \<Rightarrow> cell \<Rightarrow> unit sql" where
  "setMonth_run uid key val = run (\<lambda>d. d\<lparr>monthly_data := (monthly_data d)((uid, key) \<mapsto> val)\<rparr>)"

definition deleteMonth_run :: "userId \<Rightarrow> jsstring \<Rightarrow> unit sql" where
  "deleteMonth_run uid key = run (\<lambda>d. d\<lparr>monthly_data := (monthly_data d)((uid, key) := None)\<rparr>)"

definition setEmailCfg_run :: "userId \<Rightarrow> cell \<Rightarrow> unit sql" where
  "setEmailCfg_run uid val = run (\<lambda>d. d\<lparr>email_config := (email_config d)(uid \<mapsto> val)\<rparr>)"

text \<open>
  \<open>db.transaction(body)\<close>: the body runs between \<open>BEGIN\<close> and \<open>COMMIT\<close>; if it throws,
  the transaction is rolled back, which restores the store, and the exception is passed
  on.
\<close>

definition transaction :: "'a sql \<Rightarrow> 'a sql" where
  "transaction body d fs =
     (case body d fs of
        (Inl e, d', fs') \<Rightarrow> (Inl e, d, fs')
      | (Inr x, d', fs') \<Rightarrow> (Inr x, d', fs'))"

text \<open>\<open>for (const [k, v] of entries) stmt.run(userId, k, JSON.stringify(v))\<close>\<close>

fun forEntries :: "(jsstring \<Rightarrow> cell \<Rightarrow> unit sql) \<Rightarrow> props \<Rightarrow> unit sql" where
  "forEntries stmt [] d fs = (Inr (), d, fs)"
| "forEntries stmt ((k, v) # es) d fs =
     (case stmt k (JSON_stringify v) d fs of
        (Inl e, d', fs') \<Rightarrow> (Inl e, d', fs')
      | (Inr u, d', fs') \<Rightarrow> forEntries stmt es d' fs')"


section \<open>server.js: the handlers\<close>

text \<open>
  A handler answers with a status and a JSON body. An exception that no handler catches
  reaches the framework, which answers for it with the status that the exception carries
  (400 for the \<open>SyntaxError\<close> and 413 for the \<open>PayloadTooLargeError\<close> of the JSON
  middleware) and with 500 otherwise. A handler that writes takes the failure schedule of
  its statements and returns the store it leaves. A handler is given \<open>req.body\<close>, the body
  as the middleware has parsed it; a request reaches its handler through \<open>receive\<close> below,
  unless the middleware refuses its body.

  \<open>res.json(v)\<close> sends the text \<open>JSON.stringify(v)\<close>: the body of an answer is given by the
  value that this text parses to. The limits of the runtime (its memory, the depth of its
  call stack) are not modelled.
\<close>

datatype response = Resp nat json | Uncaught error

definition res_json :: "json \<Rightarrow> json" where
  "res_json v = stringified v"

definition ok :: response where
  "ok = Resp 200 (JObj [(js ''ok'', JBool True)])"

definition badRequest :: "string \<Rightarrow> response" where
  "badRequest msg = Resp 400 (JObj [(js ''error'', JStr (js msg))])"

subsection \<open>The JSON middleware\<close>

text \<open>
  \<open>app.use(express.json({ limit: '2mb' }))\<close> runs before every handler. The body of a
  request is JSON text, sent as \<open>application/json\<close>; it is given by its length in bytes
  and by the value it denotes, every numeral by its exact value.

  \<open>JSON.parse\<close> reads a numeral as the double nearest to it, the one with the even
  significand where two are equally near, and as an infinity when that double would be
  \<open>2\<^sup>1\<^sup>0\<^sup>2\<^sup>4\<close> or more. The doubles around \<open>a > 0\<close> are the multiples of \<open>2\<^sup>e\<close>, where \<open>e\<close> is
  \<open>\<lfloor>log\<^sub>2 a\<rfloor> - 52\<close>, and \<open>-1074\<close> at least; \<open>binade a\<close> is \<open>\<lfloor>log\<^sub>2 a\<rfloor>\<close>.
\<close>

function halvings :: "rat \<Rightarrow> int" where
  "halvings a = (if 2 \<le> a then halvings (a / 2) + 1 else 0)"
  by pat_completeness auto
termination
proof (relation "measure (\<lambda>a. nat \<lfloor>a\<rfloor>)")
  show "wf (measure (\<lambda>a. nat \<lfloor>a\<rfloor>))" by simp
next
  fix a :: rat
  assume a: "2 \<le> a"
  then have "a / 2 \<le> a - 1" by simp
  from floor_mono [OF this] have "\<lfloor>a / 2\<rfloor> \<le> \<lfloor>a\<rfloor> - 1" by simp
  moreover from a have "2 \<le> \<lfloor>a\<rfloor>" by (simp add: le_floor_iff)
  ultimately show "(a / 2, a) \<in> measure (\<lambda>a. nat \<lfloor>a\<rfloor>)" by simp
qed

function doublings :: "rat \<Rightarrow> int" where
  "doublings a = (if 0 < a \<and> a < 1 then doublings (a * 2) + 1 else 0)"
  by pat_completeness auto
termination
proof (relation "measure (\<lambda>a. nat \<lceil>1 / a\<rceil>)")
  show "wf (measure (\<lambda>a. nat \<lceil>1 / a\<rceil>))" by simp
next
  fix a :: rat
  assume a: "0 < a \<and> a < 1"
  then have y: "1 < 1 / a" by simp
  then have c: "2 \<le> \<lceil>1 / a\<rceil>" by linarith
  have "1 / (a * 2) = (1 / a) / 2" by simp
  also have "\<dots> \<le> of_int \<lceil>1 / a\<rceil> / 2" by (simp add: divide_right_mono)
  also from c have "\<dots> \<le> of_int (\<lceil>1 / a\<rceil> - 1)" by simp
  finally have "\<lceil>1 / (a * 2)\<rceil> \<le> \<lceil>1 / a\<rceil> - 1" by (simp only: ceiling_le_iff)
  with a c show "(a * 2, a) \<in> measure (\<lambda>a. nat \<lceil>1 / a\<rceil>)" by simp
qed

declare halvings.simps [simp del] doublings.simps [simp del]

definition binade :: "rat \<Rightarrow> int" where
  "binade a = (if 1 \<le> a then halvings a else - doublings a)"

definition roundHalfEven :: "rat \<Rightarrow> int" where
  "roundHalfEven q =
     (if q - of_int \<lfloor>q\<rfloor> < 1 / 2 then \<lfloor>q\<rfloor>
      else if 1 / 2 < q - of_int \<lfloor>q\<rfloor> then \<lfloor>q\<rfloor> + 1
      else if even \<lfloor>q\<rfloor> then \<lfloor>q\<rfloor> else \<lfloor>q\<rfloor> + 1)"

definition toDouble :: "rat \<Rightarrow> number" where
  "toDouble x =
     (if x = 0 then Finite 0
      else
        let e = max (binade \<bar>x\<bar> - 52) (- 1074);
            v = of_int (roundHalfEven (\<bar>x\<bar> / power_int 2 e)) * power_int 2 e
        in if 2 ^ 1024 \<le> v then (if 0 < x then PosInfinity else NegInfinity)
           else Finite (if 0 < x then v else - v))"

text \<open>
  An object enumerates first the properties whose name is an array index (a decimal
  numeral without a leading zero, below \<open>2\<^sup>3\<^sup>2 - 1\<close>), by ascending index, and then the others
  in the order of their definition.
\<close>

definition decimal :: "jsstring \<Rightarrow> nat" where
  "decimal k = foldl (\<lambda>n c. 10 * n + (unat c - 48)) 0 k"

definition isArrayIndex :: "jsstring \<Rightarrow> bool" where
  "isArrayIndex k =
     (k \<noteq> [] \<and> list_all (\<lambda>c. 0x30 \<le> c \<and> c \<le> 0x39) k \<and> (k = [0x30] \<or> hd k \<noteq> 0x30)
      \<and> decimal k < 2 ^ 32 - 1)"

definition enumerated :: "props \<Rightarrow> props" where
  "enumerated kvs =
     sort_key (\<lambda>(k, v). decimal k) (filter (\<lambda>(k, v). isArrayIndex k) kvs)
     @ filter (\<lambda>(k, v). \<not> isArrayIndex k) kvs"

text \<open>
  \<open>JSON.parse\<close> of the text, on the value the text denotes: a numeral becomes a double,
  and a member defines a property, so that a repeated name takes its last value.
\<close>

fun JSON_parse :: "json \<Rightarrow> json" where
  "JSON_parse (JNum x) = (case x of Finite r \<Rightarrow> JNum (toDouble r) | _ \<Rightarrow> JNum x)"
| "JSON_parse (JArr xs) = JArr (map JSON_parse xs)"
| "JSON_parse (JObj kvs) = JObj (enumerated (fold (\<lambda>(k, v). setProp k (JSON_parse v)) kvs []))"
| "JSON_parse v = v"

text \<open>
  The middleware refuses a body of more than 2 MB, and, being strict, a body that is not
  an object or an array; text that is no JSON text, such as text with the tokens \<open>NaN\<close> or
  \<open>Infinity\<close>, it refuses in the same way. Otherwise the handler finds the parsed body in
  \<open>req.body\<close>. (The one handler below whose request has no body, the deletion of a month,
  does not read \<open>req.body\<close>: such a request is given with the body \<open>{}\<close>.)
\<close>

definition express_json :: "nat \<Rightarrow> json \<Rightarrow> error + json" where
  "express_json n w =
     (if 2 * 1024 * 1024 < n then Inl PayloadTooLargeError
      else if \<not> (case w of JObj kvs \<Rightarrow> True | JArr xs \<Rightarrow> True | _ \<Rightarrow> False) then Inl SyntaxError
      else if \<not> finiteNumbers w then Inl SyntaxError
      else Inr (JSON_parse w))"

subsection \<open>State\<close>

text \<open>
  \<open>GET /api/state\<close>: the properties of the object sent. \<open>state[k] = v\<close> defines the
  property \<open>k\<close>, except for the key \<open>__proto__\<close>: that assignment reaches the setter
  inherited from \<open>Object.prototype\<close>, which defines no property (it replaces the prototype
  of \<open>state\<close> when \<open>v\<close> is an object or \<open>null\<close>), and \<open>JSON.stringify\<close> writes own properties
  only.
\<close>

definition get_state :: "db \<Rightarrow> userId \<Rightarrow> (jsstring \<rightharpoonup> json)" where
  "get_state d uid key =
     (if key = js ''__proto__'' then None
      else case user_state d (uid, key) of
             None \<Rightarrow> None
           | Some val \<Rightarrow> tryParse val (\<lambda>v. Some (res_json v)) (\<lambda>raw. Some (res_json (JStr raw))))"

definition saveMany :: "userId \<Rightarrow> json \<Rightarrow> unit sql" where
  "saveMany uid data = forEntries (setState_run uid) (ownProps data)"

definition put_state :: "bool list \<Rightarrow> userId \<Rightarrow> json \<Rightarrow> db \<Rightarrow> response \<times> db" where
  "put_state fs uid body d =
     (if \<not> truthy body \<or> \<not> (case body of JObj kvs \<Rightarrow> True | JArr xs \<Rightarrow> True | _ \<Rightarrow> False)
      then (badRequest ''Invalid body'', d)
      else (case transaction (saveMany uid body) d fs of
              (Inl e, d', fs') \<Rightarrow> (Uncaught e, d')
            | (Inr u, d', fs') \<Rightarrow> (ok, d')))"

definition patch_state :: "bool list \<Rightarrow> userId \<Rightarrow> jsstring \<Rightarrow> json \<Rightarrow> db \<Rightarrow> response \<times> db" where
  "patch_state fs uid key body d =
     (case setState_run uid key (JSON_stringify body) d fs of
        (Inl e, d', fs') \<Rightarrow> (Uncaught e, d')
      | (Inr u, d', fs') \<Rightarrow> (ok, d'))"

subsection \<open>Monthly data\<close>

text \<open>\<open>/^\d{4}-\d{2}$/\<close>: without the \<open>m\<close> flag, \<open>$\<close> matches at the end of the input only.\<close>

definition isDigit :: "16 word \<Rightarrow> bool" where
  "isDigit c = (0x30 \<le> c \<and> c \<le> 0x39)"

fun validMonthKey :: "jsstring \<Rightarrow> bool" where
  "validMonthKey [y1, y2, y3, y4, dash, m1, m2] =
     (isDigit y1 \<and> isDigit y2 \<and> isDigit y3 \<and> isDigit y4 \<and> dash = 0x2D \<and> isDigit m1 \<and> isDigit m2)"
| "validMonthKey key = False"

text \<open>
  \<open>GET /api/months\<close>: the properties of the object sent, defined by \<open>months[k] = v\<close> as
  those of \<open>state\<close> above.
\<close>

definition get_months :: "db \<Rightarrow> userId \<Rightarrow> (jsstring \<rightharpoonup> json)" where
  "get_months d uid key =
     (if key = js ''__proto__'' then None
      else case monthly_data d (uid, key) of
             None \<Rightarrow> None
           | Some val \<Rightarrow> tryParse val (\<lambda>v. Some (res_json v)) (\<lambda>raw. None))"

definition get_month :: "db \<Rightarrow> userId \<Rightarrow> jsstring \<Rightarrow> json" where
  "get_month d uid key =
     (case monthly_data d (uid, key) of
        None \<Rightarrow> res_json (JObj [])
      | Some val \<Rightarrow> tryParse val (\<lambda>v. res_json v) (\<lambda>raw. res_json (JObj [])))"

definition put_month :: "bool list \<Rightarrow> userId \<Rightarrow> jsstring \<Rightarrow> json \<Rightarrow> db \<Rightarrow> response \<times> db" where
  "put_month fs uid key body d =
     (if \<not> validMonthKey key then (badRequest ''Invalid month key (expected YYYY-MM)'', d)
      else (case setMonth_run uid key (JSON_stringify body) d fs of
              (Inl e, d', fs') \<Rightarrow> (Uncaught e, d')
            | (Inr u, d', fs') \<Rightarrow> (ok, d')))"

definition delete_month :: "bool list \<Rightarrow> userId \<Rightarrow> jsstring \<Rightarrow> db \<Rightarrow> response \<times> db" where
  "delete_month fs uid key d =
     (case deleteMonth_run uid key d fs of
        (Inl e, d', fs') \<Rightarrow> (Uncaught e, d')
      | (Inr u, d', fs') \<Rightarrow> (ok, d'))"

subsection \<open>Import\<close>

definition importAll :: "userId \<Rightarrow> json option \<Rightarrow> json option \<Rightarrow> unit sql" where
  "importAll uid s m d fs =
     (case (if truthyU s then forEntries (setState_run uid) (ownProps (the s)) d fs else (Inr (), d, fs)) of
        (Inl e, d', fs') \<Rightarrow> (Inl e, d', fs')
      | (Inr u, d', fs') \<Rightarrow>
          if truthyU m then forEntries (setMonth_run uid) (ownProps (the m)) d' fs' else (Inr (), d', fs'))"

text \<open>Destructuring \<open>null\<close> throws; any other body has, or lacks, the two properties.\<close>

definition post_import :: "bool list \<Rightarrow> userId \<Rightarrow> json \<Rightarrow> db \<Rightarrow> response \<times> db" where
  "post_import fs uid body d =
     (if body = JNull then (Uncaught TypeError, d)
      else (case transaction (importAll uid (getProp (Some body) (js ''state''))
                                            (getProp (Some body) (js ''monthly''))) d fs of
              (Inl e, d', fs') \<Rightarrow> (Uncaught e, d')
            | (Inr u, d', fs') \<Rightarrow> (ok, d')))"

subsection \<open>Email configuration\<close>

definition get_email_config :: "(rat \<Rightarrow> jsstring) \<Rightarrow> db \<Rightarrow> userId \<Rightarrow> json" where
  "get_email_config nts d uid =
     (case email_config d uid of
        None \<Rightarrow> res_json JNull
      | Some row \<Rightarrow>
          tryParse row
            (\<lambda>cfg. case maskConfig nts cfg of Inl e \<Rightarrow> res_json JNull | Inr masked \<Rightarrow> res_json masked)
            (\<lambda>raw. res_json JNull))"

text \<open>\<open>s.includes(p)\<close> on strings.\<close>

fun str_includes :: "jsstring \<Rightarrow> jsstring \<Rightarrow> bool" where
  "str_includes [] p = (p = [])"
| "str_includes (c # cs) p = (take (length p) (c # cs) = p \<or> str_includes cs p)"

text \<open>
  \<open>v.includes('\<bullet>\<bullet>\<bullet>\<bullet>')\<close> for a truthy \<open>v\<close>: a substring test on a string, a membership
  test on an array; anything else has no such method.
\<close>

definition maskedLook :: jsstring where
  "maskedLook = [0x2022, 0x2022, 0x2022, 0x2022]"

fun looksMasked :: "json \<Rightarrow> error + bool" where
  "looksMasked (JStr s) = Inr (str_includes s maskedLook)"
| "looksMasked (JArr xs) = Inr (JStr maskedLook \<in> set xs)"
| "looksMasked v = Inl TypeError"

text \<open>
  One round of the \<open>secretFields.forEach\<close> of the save. Where \<open>existing[f]\<close> is
  \<open>undefined\<close> the assignment leaves a property that \<open>JSON.stringify\<close> then omits: it is
  removed here.
\<close>

definition delProp :: "jsstring \<Rightarrow> props \<Rightarrow> props" where
  "delProp k kvs = filter (\<lambda>(k', v). k' \<noteq> k) kvs"

definition keepSecret :: "json \<Rightarrow> json \<Rightarrow> jsstring \<Rightarrow> props \<Rightarrow> error + props" where
  "keepSecret existing body f merged =
     (if truthyU (getProp (Some body) f)
      then (case looksMasked (the (getProp (Some body) f)) of
              Inl e \<Rightarrow> Inl e
            | Inr False \<Rightarrow> Inr merged
            | Inr True \<Rightarrow>
                (case Get (Some existing) f of
                   Inl e \<Rightarrow> Inl e
                 | Inr None \<Rightarrow> Inr (delProp f merged)
                 | Inr (Some v) \<Rightarrow> Inr (setProp f v merged)))
      else Inr merged)"

text \<open>
  The stored configuration the save merges into: \<open>{}\<close> when there is no row or the row
  does not parse.
\<close>

definition existingOf :: "db \<Rightarrow> userId \<Rightarrow> json" where
  "existingOf d uid =
     (case email_config d uid of
        None \<Rightarrow> JObj []
      | Some row \<Rightarrow> tryParse row (\<lambda>v. v) (\<lambda>raw. JObj []))"

definition put_email_config :: "bool list \<Rightarrow> userId \<Rightarrow> json \<Rightarrow> db \<Rightarrow> response \<times> db" where
  "put_email_config fs uid body d =
     (if \<not> truthy body \<or> \<not> truthyU (getProp (Some body) (js ''provider''))
      then (badRequest ''provider required'', d)
      else
        (case forEachE (keepSecret (existingOf d uid) body) secretFields
                (spread (spread [] (existingOf d uid)) body) of
           Inl e \<Rightarrow> (Uncaught e, d)
         | Inr merged \<Rightarrow>
             (case setEmailCfg_run uid (JSON_stringify (JObj merged)) d fs of
                (Inl e, d', fs') \<Rightarrow> (Uncaught e, d')
              | (Inr u, d', fs') \<Rightarrow> (ok, d'))))"

subsection \<open>The requests that write, and the stores they can reach\<close>

text \<open>A call of a handler, with the parameters of the path and \<open>req.body\<close>.\<close>

datatype call =
    PutState json
  | PatchState jsstring json
  | PutMonth jsstring json
  | DeleteMonth jsstring
  | Import json
  | PutEmailConfig json

fun serve :: "bool list \<Rightarrow> userId \<Rightarrow> call \<Rightarrow> db \<Rightarrow> response \<times> db" where
  "serve fs uid (PutState body) d = put_state fs uid body d"
| "serve fs uid (PatchState key body) d = patch_state fs uid key body d"
| "serve fs uid (PutMonth key body) d = put_month fs uid key body d"
| "serve fs uid (DeleteMonth key) d = delete_month fs uid key d"
| "serve fs uid (Import body) d = post_import fs uid body d"
| "serve fs uid (PutEmailConfig body) d = put_email_config fs uid body d"

text \<open>
  A request names a route and carries a body, which passes the middleware before the
  handler of the route is called.
\<close>

datatype route =
    PUT_state
  | PATCH_state jsstring
  | PUT_month jsstring
  | DELETE_month jsstring
  | POST_import
  | PUT_email_config

fun call_of :: "route \<Rightarrow> json \<Rightarrow> call" where
  "call_of PUT_state body = PutState body"
| "call_of (PATCH_state key) body = PatchState key body"
| "call_of (PUT_month key) body = PutMonth key body"
| "call_of (DELETE_month key) body = DeleteMonth key"
| "call_of POST_import body = Import body"
| "call_of PUT_email_config body = PutEmailConfig body"

definition receive :: "bool list \<Rightarrow> userId \<Rightarrow> route \<Rightarrow> nat \<Rightarrow> json \<Rightarrow> db \<Rightarrow> response \<times> db" where
  "receive fs uid r n w d =
     (case express_json n w of
        Inl e \<Rightarrow> (Uncaught e, d)
      | Inr body \<Rightarrow> serve fs uid (call_of r body) d)"

inductive reachable :: "db \<Rightarrow> bool" where
  start: "reachable emptyDb"
| step: "reachable d \<Longrightarrow> reachable (snd (receive fs uid r n w d))"



section \<open>emailTemplate.js\<close>

subsection \<open>Numbers and their fixed notation\<close>

text \<open>
  \<open>x.toFixed(f)\<close> is defined on the exact value of \<open>x\<close>: the integer \<open>n\<close> nearest to
  \<open>x \<times> 10\<^sup>f\<close> (the larger one on a tie) is written in decimal, padded with zeros to
  \<open>f + 1\<close> digits, and split before its last \<open>f\<close> digits. From \<open>10\<^sup>2\<^sup>1\<close> on the result is
  the general number formatting of the runtime, the parameter \<open>nts\<close>.
\<close>

definition toFixed :: "(rat \<Rightarrow> jsstring) \<Rightarrow> nat \<Rightarrow> number \<Rightarrow> jsstring" where
  "toFixed nts f x =
     (case x of
        NaN \<Rightarrow> js ''NaN''
      | PosInfinity \<Rightarrow> js ''Infinity''
      | NegInfinity \<Rightarrow> js ''-Infinity''
      | Finite r \<Rightarrow>
          (let s = (if r < 0 then js ''-'' else []);
               a = \<bar>r\<bar>
           in if 10 ^ 21 \<le> a then s @ nts a
              else
                let n = nat \<lfloor>a * 10 ^ f + 1 / 2\<rfloor>;
                    m = digits n;
                    m' = (if f \<noteq> 0 \<and> length m \<le> f then replicate (f + 1 - length m) 0x30 @ m else m)
                in if f \<noteq> 0
                   then s @ take (length m' - f) m' @ js ''.'' @ drop (length m' - f) m'
                   else s @ m'))"

subsection \<open>Strings\<close>

text \<open>A string or \<open>undefined\<close>: its truthiness, and its conversion in a template literal.\<close>

fun truthyS :: "jsstring option \<Rightarrow> bool" where
  "truthyS None = False"
| "truthyS (Some s) = (s \<noteq> [])"

fun ToStr :: "jsstring option \<Rightarrow> jsstring" where
  "ToStr None = js ''undefined''"
| "ToStr (Some s) = s"

definition padEnd :: "nat \<Rightarrow> jsstring \<Rightarrow> jsstring" where
  "padEnd n s = s @ replicate (n - length s) 0x20"

text \<open>\<open>payId.replace('@', '')\<close>: a string pattern replaces its first occurrence only.\<close>

definition venmoHandle :: "jsstring \<Rightarrow> jsstring" where
  "venmoHandle payId = remove1 0x40 payId"

subsection \<open>\<open>encodeURIComponent\<close>\<close>

definition isHighSurrogate :: "16 word \<Rightarrow> bool" where
  "isHighSurrogate c = (0xD800 \<le> c \<and> c \<le> 0xDBFF)"

definition isLowSurrogate :: "16 word \<Rightarrow> bool" where
  "isLowSurrogate c = (0xDC00 \<le> c \<and> c \<le> 0xDFFF)"

definition codePoint :: "16 word \<Rightarrow> 16 word \<Rightarrow> nat" where
  "codePoint hi lo = (unat hi - 0xD800) * 0x400 + (unat lo - 0xDC00) + 0x10000"

definition utf8 :: "nat \<Rightarrow> nat list" where
  "utf8 cp =
     (if cp < 0x80 then [cp]
      else if cp < 0x800 then [0xC0 + cp div 0x40, 0x80 + cp mod 0x40]
      else if cp < 0x10000 then [0xE0 + cp div 0x1000, 0x80 + cp div 0x40 mod 0x40, 0x80 + cp mod 0x40]
      else [0xF0 + cp div 0x40000, 0x80 + cp div 0x1000 mod 0x40, 0x80 + cp div 0x40 mod 0x40,
            0x80 + cp mod 0x40])"

definition hexUpper :: "nat \<Rightarrow> 16 word" where
  "hexUpper n = js ''0123456789ABCDEF'' ! (n mod 16)"

definition percent :: "nat list \<Rightarrow> jsstring" where
  "percent octets = concat (map (\<lambda>b. [0x25, hexUpper (b div 16), hexUpper (b mod 16)]) octets)"

definition uriUnescaped :: "16 word \<Rightarrow> bool" where
  "uriUnescaped c =
     ((0x41 \<le> c \<and> c \<le> 0x5A) \<or> (0x61 \<le> c \<and> c \<le> 0x7A) \<or> (0x30 \<le> c \<and> c \<le> 0x39)
      \<or> c \<in> set (js ''-_.!~*()'') \<or> c = 0x27)"

fun prepend :: "jsstring \<Rightarrow> error + jsstring \<Rightarrow> error + jsstring" where
  "prepend s (Inl e) = Inl e"
| "prepend s (Inr t) = Inr (s @ t)"

text \<open>A surrogate that is not half of a pair makes the call throw.\<close>

fun encodeURIComponent :: "jsstring \<Rightarrow> error + jsstring" where
  "encodeURIComponent [] = Inr []"
| "encodeURIComponent (c # cs) =
     (if uriUnescaped c then prepend [c] (encodeURIComponent cs)
      else if isLowSurrogate c then Inl URIError
      else if isHighSurrogate c then
        (case cs of
           [] \<Rightarrow> Inl URIError
         | d # ds \<Rightarrow>
             if isLowSurrogate d then prepend (percent (utf8 (codePoint c d))) (encodeURIComponent ds)
             else Inl URIError)
      else prepend (percent (utf8 (unat c))) (encodeURIComponent cs))"

subsection \<open>\<open>JSON.stringify\<close> of an object of strings\<close>

definition hexLower :: "nat \<Rightarrow> 16 word" where
  "hexLower n = js ''0123456789abcdef'' ! (n mod 16)"

definition unicodeEscape :: "16 word \<Rightarrow> jsstring" where
  "unicodeEscape c =
     [0x5C, 0x75, hexLower (unat c div 0x1000), hexLower (unat c div 0x100 mod 0x10),
      hexLower (unat c div 0x10 mod 0x10), hexLower (unat c mod 0x10)]"

text \<open>
  The body of a quoted string: the two-character escapes, \<open>\u\<close> escapes for the other
  control characters and for a surrogate that is not half of a pair, everything else as
  it is.
\<close>

fun quoteChars :: "jsstring \<Rightarrow> jsstring" where
  "quoteChars [] = []"
| "quoteChars (c # cs) =
     (if c = 0x08 then [0x5C, 0x62] @ quoteChars cs
      else if c = 0x09 then [0x5C, 0x74] @ quoteChars cs
      else if c = 0x0A then [0x5C, 0x6E] @ quoteChars cs
      else if c = 0x0C then [0x5C, 0x66] @ quoteChars cs
      else if c = 0x0D then [0x5C, 0x72] @ quoteChars cs
      else if c = 0x22 then [0x5C, 0x22] @ quoteChars cs
      else if c = 0x5C then [0x5C, 0x5C] @ quoteChars cs
      else if c < 0x20 then unicodeEscape c @ quoteChars cs
      else if isLowSurrogate c then unicodeEscape c @ quoteChars cs
      else if isHighSurrogate c then
        (case cs of
           [] \<Rightarrow> unicodeEscape c
         | d # ds \<Rightarrow>
             if isLowSurrogate d then c # d # quoteChars ds
             else unicodeEscape c @ quoteChars (d # ds))
      else c # quoteChars cs)"

definition JSON_quote :: "jsstring \<Rightarrow> jsstring" where
  "JSON_quote s = [0x22] @ quoteChars s @ [0x22]"

text \<open>
  \<open>JSON.stringify\<close> of an object literal whose properties are strings: a property that is
  \<open>undefined\<close> is left out.
\<close>

definition stringifyStrings :: "(jsstring \<times> jsstring option) list \<Rightarrow> jsstring" where
  "stringifyStrings kvs =
     js ''{''
     @ join (js '','')
         (concat (map (\<lambda>(k, v). case v of None \<Rightarrow> [] | Some s \<Rightarrow> [JSON_quote k @ js '':'' @ JSON_quote s]) kvs))
     @ js ''}''"

subsection \<open>The templates\<close>

record bill =
  name :: jsstring
  amount :: number

record opts =
  greeting :: "jsstring option"
  personName :: "jsstring option"
  accentColor :: "jsstring option"
  monthLabel :: "jsstring option"
  bills :: "bill list"
  total :: number
  payMethod :: "jsstring option"
  payId :: "jsstring option"
  fromName :: "jsstring option"

definition zelleUrlOf :: "jsstring \<Rightarrow> jsstring" where
  \<open>zelleUrlOf zelleData =
     concat
     [js ''https://enroll.zellepay.com/qr-codes?data='', zelleData]\<close>

definition zelleButton :: "jsstring \<Rightarrow> jsstring \<Rightarrow> jsstring \<Rightarrow> jsstring \<Rightarrow> jsstring" where
  \<open>zelleButton zelleUrl accent amt payee =
     concat
     [js ''\<newline>'',
      js ''      <tr><td align="center" style="padding:28px 0 8px;">\<newline>'',
      js ''        <a href="'', zelleUrl, js ''"\<newline>'',
      js ''           style="display:inline-block;background:'', accent,
      js '';color:#0c0d0f;text-decoration:none;\<newline>'',
      js ''                  font-family:Arial,sans-serif;font-weight:700;font-size:15px;\<newline>'',
      js ''                  padding:14px 36px;border-radius:8px;letter-spacing:.02em;">\<newline>'',
      js ''          '', [0xD83D, 0xDCB0], js '' Pay via Zelle '', [0x2014], js '' $'', amt,
      js ''\<newline>'',
      js ''        </a>\<newline>'',
      js ''      </td></tr>\<newline>'',
      js ''      <tr><td align="center" style="padding:0 0 8px;">\<newline>'',
      js ''        <span style="font-size:11px;color:#6b7280;font-family:Arial,sans-serif;">\<newline>'',
      js ''          Zelle to '', payee, js ''\<newline>'',
      js ''        </span>\<newline>'',
      js ''      </td></tr>'']\<close>

definition venmoUrlOf :: "jsstring \<Rightarrow> jsstring \<Rightarrow> jsstring \<Rightarrow> jsstring" where
  \<open>venmoUrlOf handle amt note =
     concat
     [js ''https://venmo.com/'', handle, js ''?txn=charge&amount='', amt, js ''&note='', note]\<close>

definition venmoButton :: "jsstring \<Rightarrow> jsstring \<Rightarrow> jsstring \<Rightarrow> jsstring \<Rightarrow> jsstring" where
  \<open>venmoButton venmoUrl accent amt handle =
     concat
     [js ''\<newline>'',
      js ''      <tr><td align="center" style="padding:28px 0 8px;">\<newline>'',
      js ''        <a href="'', venmoUrl, js ''"\<newline>'',
      js ''           style="display:inline-block;background:'', accent,
      js '';color:#0c0d0f;text-decoration:none;\<newline>'',
      js ''                  font-family:Arial,sans-serif;font-weight:700;font-size:15px;\<newline>'',
      js ''                  padding:14px 36px;border-radius:8px;letter-spacing:.02em;">\<newline>'',
      js ''          '', [0xD83D, 0xDCB8], js '' Pay via Venmo '', [0x2014], js '' $'', amt,
      js ''\<newline>'',
      js ''        </a>\<newline>'',
      js ''      </td></tr>\<newline>'',
      js ''      <tr><td align="center" style="padding:0 0 8px;">\<newline>'',
      js ''        <span style="font-size:11px;color:#6b7280;font-family:Arial,sans-serif;">\<newline>'',
      js ''          Venmo @'', handle, js ''\<newline>'',
      js ''        </span>\<newline>'',
      js ''      </td></tr>'']\<close>

definition totalDue :: "jsstring \<Rightarrow> jsstring \<Rightarrow> jsstring \<Rightarrow> jsstring \<Rightarrow> jsstring" where
  \<open>totalDue accentBg accentBorder accent amt =
     concat
     [js ''\<newline>'',
      js ''      <tr><td align="center" style="padding:28px 0 8px;">\<newline>'',
      js ''        <div style="display:inline-block;background:'', accentBg,
      js '';border:1px solid '', accentBorder, js '';\<newline>'',
      js ''                    color:'', accent,
      js '';font-family:Arial,sans-serif;font-weight:700;font-size:15px;\<newline>'',
      js ''                    padding:14px 36px;border-radius:8px;letter-spacing:.02em;">\<newline>'',
      js ''          Total Due: $'', amt, js ''\<newline>'',
      js ''        </div>\<newline>'',
      js ''      </td></tr>'']\<close>

definition billRow :: "(rat \<Rightarrow> jsstring) \<Rightarrow> jsstring \<Rightarrow> bill \<Rightarrow> jsstring" where
  \<open>billRow nts accent b =
     concat
     [js ''\<newline>'',
      js ''    <tr>\<newline>'',
      js ''      <td style="padding:10px 16px;font-family:Arial,sans-serif;font-size:13px;\<newline>'',
      js ''                 color:#d1d5db;border-bottom:1px solid #2a2d31;">'', name b,
      js ''</td>\<newline>'',
      js ''      <td style="padding:10px 16px;font-family:Arial,sans-serif;font-size:13px;\<newline>'',
      js ''                 color:'', accent,
      js '';font-weight:600;text-align:right;\<newline>'',
      js ''                 border-bottom:1px solid #2a2d31;">$'', toFixed nts 2 (amount b),
      js ''</td>\<newline>'',
      js ''    </tr>'']\<close>

definition htmlDocument ::
  "jsstring option \<Rightarrow> jsstring \<Rightarrow> jsstring \<Rightarrow> jsstring \<Rightarrow> jsstring \<Rightarrow> jsstring \<Rightarrow> jsstring \<Rightarrow> jsstring" where
  \<open>htmlDocument month accent hello billRowsHtml amt payButtonHtml sender =
     concat
     [js ''<!DOCTYPE html>\<newline>'',
      js ''<html lang="en">\<newline>'',
      js ''<head><meta charset="UTF-8"><meta name="viewport" content="width=device-width,initial-scale=1.0">\<newline>'',
      js ''<title>Bills for '', ToStr month, js ''</title></head>\<newline>'',
      js ''<body style="margin:0;padding:0;background-color:#0c0d0f;font-family:Arial,sans-serif;">\<newline>'',
      js ''\<newline>'',
      js ''<table width="100%" cellpadding="0" cellspacing="0" style="background:#0c0d0f;padding:32px 16px;">\<newline>'',
      js ''<tr><td align="center">\<newline>'',
      js ''<table width="560" cellpadding="0" cellspacing="0" style="max-width:560px;width:100%;">\<newline>'',
      js ''\<newline>'',
      js ''  <!-- Header / Logo -->\<newline>'',
      js ''  <tr>\<newline>'',
      js ''    <td style="padding:0 0 24px;">\<newline>'',
      js ''      <table cellpadding="0" cellspacing="0">\<newline>'',
      js ''        <tr>\<newline>'',
      js ''          <td style="background:'', accent,
      js '';width:36px;height:36px;border-radius:8px;\<newline>'',
      js ''                     text-align:center;vertical-align:middle;">\<newline>'',
      js ''            <span style="font-size:16px;line-height:36px;">'', [0xD83C, 0xDFE0],
      js ''</span>\<newline>'',
      js ''          </td>\<newline>'',
      js ''          <td style="padding-left:10px;">\<newline>'',
      js ''            <span style="font-family:Arial,sans-serif;font-weight:900;font-size:20px;color:#f9fafb;">Bill</span><span style="font-family:Arial,sans-serif;font-weight:900;font-size:20px;color:'',
      accent, js '';">Flow</span>\<newline>'',
      js ''            <div style="font-size:10px;color:#6b7280;letter-spacing:.12em;text-transform:uppercase;margin-top:1px;">household manager</div>\<newline>'',
      js ''          </td>\<newline>'',
      js ''        </tr>\<newline>'',
      js ''      </table>\<newline>'',
      js ''    </td>\<newline>'',
      js ''  </tr>\<newline>'',
      js ''\<newline>'',
      js ''  <!-- Card -->\<newline>'',
      js ''  <tr>\<newline>'',
      js ''    <td style="background:#16181c;border:1px solid #2a2d31;border-radius:12px;overflow:hidden;">\<newline>'',
      js ''      <table width="100%" cellpadding="0" cellspacing="0">\<newline>'',
      js ''\<newline>'',
      js ''        <!-- Card header accent bar -->\<newline>'',
      js ''        <tr>\<newline>'',
      js ''          <td style="background:'', accent,
      js '';height:4px;font-size:0;line-height:0;">&nbsp;</td>\<newline>'',
      js ''        </tr>\<newline>'',
      js ''\<newline>'',
      js ''        <!-- Greeting -->\<newline>'',
      js ''        <tr>\<newline>'',
      js ''          <td colspan="2" style="padding:28px 28px 8px;">\<newline>'',
      js ''            <div style="font-size:22px;font-weight:700;color:#f9fafb;font-family:Arial,sans-serif;">\<newline>'',
      js ''              '', hello, js ''\<newline>'',
      js ''            </div>\<newline>'',
      js ''            <div style="font-size:14px;color:#9ca3af;margin-top:6px;font-family:Arial,sans-serif;">\<newline>'',
      js ''              Here'', [0x0027],
      js ''s your share of the household bills for <strong style="color:#f9fafb;">'',
      ToStr month, js ''</strong>.\<newline>'',
      js ''            </div>\<newline>'',
      js ''          </td>\<newline>'',
      js ''        </tr>\<newline>'',
      js ''\<newline>'',
      js ''        <!-- Bill table -->\<newline>'',
      js ''        <tr>\<newline>'',
      js ''          <td colspan="2" style="padding:20px 28px 0;">\<newline>'',
      js ''            <table width="100%" cellpadding="0" cellspacing="0"\<newline>'',
      js ''                   style="border:1px solid #2a2d31;border-radius:8px;overflow:hidden;border-collapse:separate;border-spacing:0;">\<newline>'',
      js ''              <thead>\<newline>'',
      js ''                <tr style="background:#1e2024;">\<newline>'',
      js ''                  <th style="padding:10px 16px;font-family:Arial,sans-serif;font-size:11px;\<newline>'',
      js ''                             font-weight:600;color:#6b7280;text-align:left;text-transform:uppercase;\<newline>'',
      js ''                             letter-spacing:.08em;">Bill</th>\<newline>'',
      js ''                  <th style="padding:10px 16px;font-family:Arial,sans-serif;font-size:11px;\<newline>'',
      js ''                             font-weight:600;color:#6b7280;text-align:right;text-transform:uppercase;\<newline>'',
      js ''                             letter-spacing:.08em;">Your Share</th>\<newline>'',
      js ''                </tr>\<newline>'',
      js ''              </thead>\<newline>'',
      js ''              <tbody>\<newline>'',
      js ''                '', billRowsHtml, js ''\<newline>'',
      js ''              </tbody>\<newline>'',
      js ''              <tfoot>\<newline>'',
      js ''                <tr style="background:#1e2024;">\<newline>'',
      js ''                  <td style="padding:12px 16px;font-family:Arial,sans-serif;font-size:13px;\<newline>'',
      js ''                             font-weight:700;color:#f9fafb;">Total</td>\<newline>'',
      js ''                  <td style="padding:12px 16px;font-family:Arial,sans-serif;font-size:16px;\<newline>'',
      js ''                             font-weight:900;color:'', accent,
      js '';text-align:right;">\<newline>'',
      js ''                    $'', amt, js ''\<newline>'',
      js ''                  </td>\<newline>'',
      js ''                </tr>\<newline>'',
      js ''              </tfoot>\<newline>'',
      js ''            </table>\<newline>'',
      js ''          </td>\<newline>'',
      js ''        </tr>\<newline>'',
      js ''\<newline>'',
      js ''        <!-- Payment button -->\<newline>'',
      js ''        <table width="100%" cellpadding="0" cellspacing="0">\<newline>'',
      js ''          '', payButtonHtml, js ''\<newline>'',
      js ''        </table>\<newline>'',
      js ''\<newline>'',
      js ''        <!-- Footer -->\<newline>'',
      js ''        <tr>\<newline>'',
      js ''          <td colspan="2" style="padding:24px 28px;border-top:1px solid #2a2d31;">\<newline>'',
      js ''            <div style="font-size:12px;color:#6b7280;font-family:Arial,sans-serif;">\<newline>'',
      js ''              Sent by '', sender, js '' via BillFlow &nbsp;'', [0x00B7],
      js ''&nbsp;\<newline>'',
      js ''              <span style="color:#4b5563;">Reply to this email if you have any questions.</span>\<newline>'',
      js ''            </div>\<newline>'',
      js ''          </td>\<newline>'',
      js ''        </tr>\<newline>'',
      js ''\<newline>'',
      js ''      </table>\<newline>'',
      js ''    </td>\<newline>'',
      js ''  </tr>\<newline>'',
      js ''\<newline>'',
      js ''  <!-- Footer -->\<newline>'',
      js ''  <tr>\<newline>'',
      js ''    <td style="padding:20px 0 0;text-align:center;">\<newline>'',
      js ''      <span style="font-size:11px;color:#374151;font-family:Arial,sans-serif;">\<newline>'',
      js ''        BillFlow '', [0x00B7], js '' Household Bill Manager\<newline>'',
      js ''      </span>\<newline>'',
      js ''    </td>\<newline>'',
      js ''  </tr>\<newline>'',
      js ''\<newline>'',
      js ''</table>\<newline>'',
      js ''</td></tr>\<newline>'',
      js ''</table>\<newline>'',
      js ''</body>\<newline>'',
      js ''</html>'']\<close>

definition billLine :: "(rat \<Rightarrow> jsstring) \<Rightarrow> bill \<Rightarrow> jsstring" where
  \<open>billLine nts b =
     concat
     [js ''  '', padEnd 24 (name b), js '' $'', toFixed nts 2 (amount b)]\<close>

text \<open>The payment button: the only part that can throw, through \<open>encodeURIComponent\<close>.\<close>

definition payButton :: "(rat \<Rightarrow> jsstring) \<Rightarrow> opts \<Rightarrow> jsstring \<Rightarrow> jsstring \<Rightarrow> error + jsstring" where
  \<open>payButton nts opts accent amt =
     (if payMethod opts = Some (js ''zelle'') \<and> truthyS (payId opts) then
        (case encodeURIComponent
                (stringifyStrings [(js ''name'', personName opts), (js ''token'', payId opts),
                                   (js ''amount'', Some amt)]) of
           Inl e \<Rightarrow> Inl e
         | Inr zelleData \<Rightarrow> Inr (zelleButton (zelleUrlOf zelleData) accent amt (the (payId opts))))
      else if payMethod opts = Some (js ''venmo'') \<and> truthyS (payId opts) then
        (case encodeURIComponent (concat
                [js ''Bills '', ToStr (monthLabel opts)]) of
           Inl e \<Rightarrow> Inl e
         | Inr note \<Rightarrow>
             Inr (venmoButton (venmoUrlOf (venmoHandle (the (payId opts))) amt note) accent amt
                    (venmoHandle (the (payId opts)))))
      else Inr (totalDue (accent @ js ''22'') (accent @ js ''55'') accent amt))\<close>

definition textLines :: "(rat \<Rightarrow> jsstring) \<Rightarrow> opts \<Rightarrow> jsstring \<Rightarrow> jsstring \<Rightarrow> jsstring \<Rightarrow> jsstring list" where
  \<open>textLines nts opts hello amt sender =
     [hello,
      [],
      concat
      [js ''Here'', [0x0027], js ''s your share of the bills for '', ToStr (monthLabel opts), js '':''],
      []]
     @ map (billLine nts) (bills opts)
     @ [[],
        js ''  '' @ replicate 30 0x2500,
        concat
        [js ''  Total you owe:         $'', amt],
        [],
        (if payMethod opts = Some (js ''zelle'') \<and> truthyS (payId opts) then
           concat
           [js ''Please pay via Zelle to '', (the (payId opts)), js ''.'']
         else if payMethod opts = Some (js ''venmo'') \<and> truthyS (payId opts) then
           concat
           [js ''Please pay via Venmo @'', venmoHandle (the (payId opts)), js ''.'']
         else js ''Please send your share when you get a chance.''),
        [],
        concat
        [js ''Thanks, '', sender]]\<close>

definition buildEmailHtml :: "(rat \<Rightarrow> jsstring) \<Rightarrow> opts \<Rightarrow> error + jsstring \<times> jsstring" where
  \<open>buildEmailHtml nts opts =
     (let accent = (case accentColor opts of None \<Rightarrow> js ''#a8e063'' | Some c \<Rightarrow> c);
          sender = (case fromName opts of None \<Rightarrow> js ''BillFlow'' | Some n \<Rightarrow> n);
          amt = toFixed nts 2 (total opts);
          hello = (if truthyS (greeting opts) then the (greeting opts)
                   else js ''Hi '' @ ToStr (personName opts) @ js '','')
      in case payButton nts opts accent amt of
           Inl e \<Rightarrow> Inl e
         | Inr payButtonHtml \<Rightarrow>
             Inr (htmlDocument (monthLabel opts) accent hello
                    (concat (map (billRow nts accent) (bills opts))) amt payButtonHtml sender,
                  join (js ''\<newline>'') (textLines nts opts hello amt sender)))\<close>


section \<open>Notions used in the statements\<close>

text \<open>The value a tenant's stored configuration has for a field, if the row parses.\<close>

definition storedField :: "db \<Rightarrow> userId \<Rightarrow> jsstring \<Rightarrow> json option" where
  "storedField d uid f =
     (case email_config d uid of
        None \<Rightarrow> None
      | Some row \<Rightarrow> tryParse row (\<lambda>cfg. getProp (Some cfg) f) (\<lambda>raw. None))"

text \<open>
  The shape that \<open>email.js\<close> documents for a configuration: a secret field that is set
  is a string. (A field that is absent or falsy is not set.)
\<close>

fun isString :: "json \<Rightarrow> bool" where
  "isString (JStr s) = True"
| "isString v = False"

definition secretsAreStrings :: "json \<Rightarrow> bool" where
  "secretsAreStrings cfg =
     list_all (\<lambda>f. case getProp (Some cfg) f of
                      None \<Rightarrow> True
                    | Some v \<Rightarrow> \<not> truthy v \<or> isString v) secretFields"

text \<open>
  What the save maintains for every row of \<open>email_config\<close>: the row is an object with
  each property once, no string under a secret field looks masked, and every number is
  finite.
\<close>

definition cleanSecret :: "json option \<Rightarrow> bool" where
  "cleanSecret v = (case v of Some (JStr s) \<Rightarrow> \<not> str_includes s maskedLook | _ \<Rightarrow> True)"

definition cleanRow :: "cell \<Rightarrow> bool" where
  "cleanRow row =
     (case row of
        Json (JObj kvs) \<Rightarrow>
          distinct (map fst kvs) \<and> list_all (\<lambda>f. cleanSecret (map_of kvs f)) secretFields
          \<and> finiteNumbers (JObj kvs)
      | _ \<Rightarrow> False)"

definition cleanConfigs :: "db \<Rightarrow> bool" where
  "cleanConfigs d = (\<forall>uid row. email_config d uid = Some row \<longrightarrow> cleanRow row)"


text \<open>
  A string that \<open>encodeURIComponent\<close> accepts wherever it stands: what follows it is
  encoded as if it stood alone.
\<close>

definition encodes :: "jsstring \<Rightarrow> bool" where
  "encodes xs = (\<exists>r. \<forall>t. encodeURIComponent (xs @ t) = prepend r (encodeURIComponent t))"

text \<open>The parts of the result of the template builder, and what they contain.\<close>

definition htmlContains :: "error + jsstring \<times> jsstring \<Rightarrow> jsstring \<Rightarrow> bool" where
  "htmlContains r s = (case r of Inl e \<Rightarrow> False | Inr (html, text) \<Rightarrow> str_includes html s)"

definition textContains :: "error + jsstring \<times> jsstring \<Rightarrow> jsstring \<Rightarrow> bool" where
  "textContains r s = (case r of Inl e \<Rightarrow> False | Inr (html, text) \<Rightarrow> str_includes text s)"

text \<open>
  In the words of the specification: a payment identifier with only a leading \<open>@\<close>
  stripped, and an amount in two-decimal fixed notation (the sign, the integer part, a
  point, and two digits, for the hundredth nearest to the amount).
\<close>

fun stripLeadingAt :: "jsstring \<Rightarrow> jsstring" where
  "stripLeadingAt (c # cs) = (if c = 0x40 then cs else c # cs)"
| "stripLeadingAt [] = []"

definition twoDecimals :: "rat \<Rightarrow> jsstring" where
  "twoDecimals r =
     (let n = nat \<lfloor>\<bar>r\<bar> * 100 + 1 / 2\<rfloor>
      in (if r < 0 then js ''-'' else [])
         @ digits (n div 100) @ js ''.'' @ [0x30 + of_nat (n div 10 mod 10), 0x30 + of_nat (n mod 10)])"

text \<open>The number that the literal \<open>144.99\<close> denotes: the nearest double.\<close>

definition num_144_99 :: rat where
  "num_144_99 = 637672763644969 / 4398046511104"

text \<open>
  Sample data for the instances below: a runtime that formats numbers by their integer
  part, and a network that accepts every call.
\<close>

definition sampleNumberToString :: "rat \<Rightarrow> jsstring" where
  "sampleNumberToString x = digits (nat \<lfloor>\<bar>x\<bar>\<rfloor>)"

definition sampleNetwork :: network where
  "sampleNetwork rq = Response 200 []"

definition sampleState :: props where
  "sampleState = [(js ''people'', JArr [])]"

definition sampleMonthly :: props where
  "sampleMonthly = [(js ''2024-01'', JObj [])]"

definition sampleBackup :: json where
  "sampleBackup = JObj [(js ''state'', JObj sampleState), (js ''monthly'', JObj sampleMonthly)]"

definition sampleOpts :: opts where
  "sampleOpts =
     \<lparr>greeting = None, personName = Some (js ''Sam''), accentColor = None,
      monthLabel = Some (js ''March''), bills = [\<lparr>name = js ''Electric'', amount = Finite 10\<rparr>],
      total = Finite 10, payMethod = Some (js ''venmo''), payId = Some (js ''pay@me''),
      fromName = None\<rparr>"


definition sampleConfig :: json where
  "sampleConfig =
     JObj [(js ''provider'', JStr (js ''smtp'')), (js ''fromEmail'', JStr (js ''me@example.org'')),
           (js ''smtpPass'', JStr (js ''hunter22''))]"

definition sampleStore :: db where
  "sampleStore = snd (serve [] (js ''local'') (PutEmailConfig sampleConfig) emptyDb)"

text \<open>
  A configuration with a secret that is a string and one that is not,
  \<open>{"provider":"mailgun","mailgunApiKey":"key-abcdef","smtpPass":[{"toString":1}]}\<close>, and
  the store after the request that saves it.
\<close>

definition oddConfig :: json where
  "oddConfig =
     JObj [(js ''provider'', JStr (js ''mailgun'')), (js ''mailgunApiKey'', JStr (js ''key-abcdef'')),
           (js ''smtpPass'', JArr [JObj [(js ''toString'', JNum (Finite 1))]])]"

definition oddStore :: db where
  "oddStore = snd (receive [] (js ''local'') PUT_email_config 79 oddConfig emptyDb)"


section \<open>Properties\<close>

subsection \<open>The dispatcher validates before it sends\<close>

text \<open>
  C7. \<open>sendEmail\<close> fails, and attempts no network call, when the configuration is absent
  or has no provider, when it has no sender address, and when the recipient is empty;
  and it fails, again without a call, when the provider is none of the four known names.
\<close>

theorem sendEmail_rejects:
  "(\<not> truthyU cfg \<or> \<not> truthyU (getProp cfg (js ''provider''))
      \<or> \<not> truthyU (getProp cfg (js ''fromEmail'')) \<or> \<not> truthyU to
      \<longrightarrow> (\<exists>e. sendEmail nts net cfg to subject html text = (Inl e, [])))
   \<and> (getProp cfg (js ''provider'') \<notin> Some ` JStr ` set providers
      \<longrightarrow> (\<exists>e. sendEmail nts net cfg to subject html text = (Inl e, [])))"
  by (auto simp: sendEmail_def providers_def split: sum.splits)

theorem sendEmail_rejects_witness:
  "\<not> truthyU None
   \<and> (\<exists>e. sendEmail sampleNumberToString sampleNetwork None (Some (JStr (js ''a@b.c''))) [] [] [] = (Inl e, []))
   \<and> getProp (Some (JObj [(js ''provider'', JStr (js ''pigeon'')), (js ''fromEmail'', JStr (js ''a@b.c''))])) (js ''provider'')
        \<notin> Some ` JStr ` set providers
   \<and> (\<exists>e. sendEmail sampleNumberToString sampleNetwork
          (Some (JObj [(js ''provider'', JStr (js ''pigeon'')), (js ''fromEmail'', JStr (js ''a@b.c''))]))
          (Some (JStr (js ''a@b.c''))) [] [] [] = (Inl e, []))"
  using sendEmail_rejects [of None "Some (JStr (js ''a@b.c''))" sampleNumberToString sampleNetwork "[]" "[]" "[]"]
        sendEmail_rejects [of "Some (JObj [(js ''provider'', JStr (js ''pigeon'')), (js ''fromEmail'', JStr (js ''a@b.c''))])"
           "Some (JStr (js ''a@b.c''))" sampleNumberToString sampleNetwork "[]" "[]" "[]"]
  by (simp add: providers_def js_def)


subsection \<open>Objects and strings\<close>

lemma map_of_setProp: "map_of (setProp k v kvs) = (map_of kvs)(k \<mapsto> v)"
  by (induction kvs) (auto simp: fun_eq_iff)

lemma keys_setProp: "fst ` set (setProp k v kvs) = insert k (fst ` set kvs)"
  by (induction kvs) force+

lemma distinct_setProp: "distinct (map fst kvs) \<Longrightarrow> distinct (map fst (setProp k v kvs))"
proof (induction kvs)
  case Nil
  then show ?case by simp
next
  case (Cons e kvs)
  obtain k' v' where e: "e = (k', v')" by (cases e)
  with Cons keys_setProp [of k v kvs] show ?case by auto
qed


lemma map_of_delProp: "map_of (delProp k kvs) = (map_of kvs)(k := None)"
  by (induction kvs) (auto simp: delProp_def fun_eq_iff)

lemma distinct_delProp: "distinct (map fst kvs) \<Longrightarrow> distinct (map fst (delProp k kvs))"
  by (simp add: delProp_def distinct_map_filter)

lemma map_of_fold_setProp:
  "map_of (fold (\<lambda>(k, v). setProp k v) es t) = map_of t ++ map_of (rev es)"
proof (induction es rule: rev_induct)
  case Nil
  then show ?case by simp
next
  case (snoc e es)
  obtain k v where e: "e = (k, v)" by (cases e)
  have "map_of (fold (\<lambda>(k, v). setProp k v) (es @ [e]) t) = (map_of t ++ map_of (rev es))(k \<mapsto> v)"
    by (simp add: e map_of_setProp snoc.IH)
  also have "\<dots> = map_of t ++ map_of (rev (es @ [e]))"
    by (simp add: e)
  finally show ?case .
qed

lemma distinct_fold_setProp:
  "distinct (map fst t) \<Longrightarrow> distinct (map fst (fold (\<lambda>(k, v). setProp k v) es t))"
  by (induction es rule: rev_induct) (auto simp: distinct_setProp split: prod.splits)

lemma map_of_spread: "map_of (spread t src) = map_of t ++ map_of (rev (ownProps src))"
  by (simp add: spread_def map_of_fold_setProp)

lemma distinct_spread: "distinct (map fst t) \<Longrightarrow> distinct (map fst (spread t src))"
  by (simp add: spread_def distinct_fold_setProp)

lemma map_of_rev_distinct: "distinct (map fst es) \<Longrightarrow> map_of (rev es) = map_of es"
proof
  fix k
  assume d: "distinct (map fst es)"
  show "map_of (rev es) k = map_of es k"
  proof (cases "map_of es k")
    case None
    then show ?thesis by (metis map_of_eq_None_iff set_rev)
  next
    case (Some v)
    then have "(k, v) \<in> set (rev es)" by (auto dest: map_of_SomeD)
    moreover from d have "distinct (map fst (rev es))" by (simp add: rev_map [symmetric])
    ultimately have "map_of (rev es) k = Some v" by (rule map_of_is_SomeI [rotated])
    with Some show ?thesis by simp
  qed
qed

lemma str_includes_iff: "str_includes s p \<longleftrightarrow> (\<exists>a b. s = a @ p @ b)"
proof (induction s)
  case Nil
  then show ?case by auto
next
  case (Cons c cs)
  show ?case
  proof
    assume "str_includes (c # cs) p"
    then consider "take (length p) (c # cs) = p" | "str_includes cs p" by auto
    then show "\<exists>a b. c # cs = a @ p @ b"
    proof cases
      case 1
      then have "c # cs = [] @ p @ drop (length p) (c # cs)"
        by (metis append_Nil append_take_drop_id)
      then show ?thesis by blast
    next
      case 2
      with Cons.IH obtain a b where "cs = a @ p @ b" by blast
      then have "c # cs = (c # a) @ p @ b" by simp
      then show ?thesis by blast
    qed
  next
    assume "\<exists>a b. c # cs = a @ p @ b"
    then obtain a b where ab: "c # cs = a @ p @ b" by blast
    show "str_includes (c # cs) p"
    proof (cases a)
      case Nil
      with ab have "take (length p) (c # cs) = p" by simp
      then show ?thesis by simp
    next
      case (Cons x a')
      with ab have "cs = a' @ p @ b" by simp
      with Cons.IH show ?thesis by auto
    qed
  qed
qed

lemma redactionMarker_looks_masked: "str_includes s redactionMarker \<Longrightarrow> str_includes s maskedLook"
proof -
  assume "str_includes s redactionMarker"
  then obtain a b where "s = a @ redactionMarker @ b" by (auto simp: str_includes_iff)
  moreover have "redactionMarker = maskedLook @ drop 4 redactionMarker"
    by (simp add: redactionMarker_def maskedLook_def)
  ultimately have "s = a @ maskedLook @ (drop 4 redactionMarker @ b)" by simp
  then show ?thesis unfolding str_includes_iff by blast
qed

lemma masked_eq_looks_masked:
  assumes "take 4 s @ redactionMarker = s"
  shows "str_includes s maskedLook"
proof -
  have "str_includes (take 4 s @ redactionMarker @ []) redactionMarker"
    unfolding str_includes_iff by blast
  with assms have "str_includes s redactionMarker" by simp
  then show ?thesis by (rule redactionMarker_looks_masked)
qed


subsection \<open>Written and read values\<close>

lemma stringified_finite: "finiteNumbers v \<Longrightarrow> stringified v = v"
proof (induction v)
  case (JArr xs)
  then show ?case by (simp add: list_all_iff map_idI)
next
  case (JObj kvs)
  then have "\<And>k v. (k, v) \<in> set kvs \<Longrightarrow> stringified v = v"
    by (fastforce simp: list_all_iff)
  then have "map (\<lambda>(k, v). (k, stringified v)) kvs = kvs"
    by (intro map_idI) auto
  then show ?case by simp
qed (auto split: number.splits)

lemma finite_stringified: "finiteNumbers (stringified v)"
proof (induction v)
  case (JObj kvs)
  then show ?case by (fastforce simp: list_all_iff)
qed (auto simp: list_all_iff split: number.splits)

lemma stringified_idem: "stringified (stringified v) = stringified v"
  by (rule stringified_finite) (rule finite_stringified)

lemma getProp_stringified:
  "getProp (Some (stringified v)) k = map_option stringified (getProp (Some v) k)"
proof (cases v)
  case (JObj kvs)
  have "map_of (rev (map (\<lambda>(k, v). (k, stringified v)) kvs)) k
          = map_of (map (\<lambda>(k, v). (k, stringified v)) (rev kvs)) k"
    by (simp add: rev_map)
  also have "\<dots> = map_option stringified (map_of (rev kvs) k)"
    by (simp add: map_of_map)
  finally show ?thesis by (simp add: JObj)
qed (auto split: number.splits)

lemma floor_rat_numeral: "\<lfloor>(numeral a :: rat) / numeral b\<rfloor> = numeral a div numeral b"
  using floor_divide_of_int_eq [of "numeral a" "numeral b", where ?'a = rat] by simp

lemma halvings_unique: "2 ^ k \<le> a \<Longrightarrow> a < 2 ^ (k + 1) \<Longrightarrow> halvings a = int k"
proof (induction k arbitrary: a)
  case 0
  then show ?case by (subst halvings.simps) simp
next
  case (Suc k)
  from Suc.prems(1) have "2 * 2 ^ k \<le> a" by simp
  moreover have "(1::rat) \<le> 2 ^ k" by simp
  ultimately have "2 \<le> a" by linarith
  moreover from Suc.prems have "2 ^ k \<le> a / 2" "a / 2 < 2 ^ (k + 1)" by simp_all
  then have "halvings (a / 2) = int k" by (rule Suc.IH)
  ultimately show ?case by (subst halvings.simps) simp
qed

lemma doublings_unique: "1 \<le> a * 2 ^ k \<Longrightarrow> a * 2 ^ k < 2 \<Longrightarrow> doublings a = int k"
proof (induction k arbitrary: a)
  case 0
  then show ?case by (subst doublings.simps) simp
next
  case (Suc k)
  have p: "(0::rat) < 2 ^ Suc k" by simp
  from Suc.prems(1) have "0 < a * 2 ^ Suc k" by linarith
  with p have pos: "0 < a" by (simp add: zero_less_mult_iff)
  have "(1::rat) \<le> 2 ^ k" by simp
  with pos have "a * 1 \<le> a * 2 ^ k" by (intro mult_left_mono) simp_all
  with Suc.prems(2) have "a < 1" by simp
  moreover from Suc.prems have "1 \<le> (a * 2) * 2 ^ k" "(a * 2) * 2 ^ k < 2" by (simp_all add: mult.assoc)
  then have "doublings (a * 2) = int k" by (rule Suc.IH)
  ultimately show ?case using pos by (subst doublings.simps) simp
qed

text \<open>\<open>binade a\<close> is the \<open>k\<close> with \<open>2\<^sup>k \<le> a < 2\<^sup>k\<^sup>+\<^sup>1\<close>.\<close>

lemma binade_unique:
  assumes "power_int 2 k \<le> a" and "a < power_int 2 (k + 1)"
  shows "binade a = k"
proof (cases "0 \<le> k")
  case True
  then obtain n where k: "k = int n" by (metis nonneg_int_cases)
  from assms have 1: "2 ^ n \<le> a" and 2: "a < 2 ^ (n + 1)"
    by (simp_all add: k power_int_def nat_add_distrib)
  from 1 2 have "halvings a = int n" by (rule halvings_unique)
  moreover have "(1::rat) \<le> 2 ^ n" by simp
  with 1 have "1 \<le> a" by linarith
  ultimately show ?thesis by (simp add: binade_def k)
next
  case False
  then have "0 < - k" by simp
  then obtain n where "- k = int (Suc n)"
    by (metis Suc_pred' nat_0_less_mult_iff zero_less_imp_eq_int)
  then have k: "k = - int (Suc n)" by simp
  have q: "(0::rat) < 2 ^ Suc n" by simp
  have "k + 1 = - int n" by (simp add: k)
  with assms(2) have u: "a < inverse (2 ^ n)"
    by (simp add: power_int_minus)
  from assms(1) have l: "inverse (2 ^ Suc n) \<le> a"
    by (simp add: k power_int_minus del: power_Suc of_nat_Suc)
  from l q have 1: "1 \<le> a * 2 ^ Suc n"
    by (simp add: field_simps del: power_Suc)
  from u have "a < 1 / 2 ^ n"
    by (simp add: inverse_eq_divide)
  then have 2: "a * 2 ^ Suc n < 2"
    by (simp add: field_simps)
  have "doublings a = int (Suc n)"
    by (rule doublings_unique [OF 1 2])
  moreover have "(1::rat) \<le> 2 ^ n" by simp
  with \<open>a < 1 / 2 ^ n\<close> have "a < 1"
    by (smt (verit) divide_le_eq_1_pos less_le_trans zero_less_numeral zero_less_power)
  ultimately show ?thesis by (simp add: binade_def k)
qed

text \<open>
  Some numerals and their doubles: one that is a double, one half way between two doubles,
  one that no double is equal to, and one beyond the doubles.
\<close>

lemma toDouble_one: "toDouble 1 = Finite 1"
proof -
  have "binade 1 = 0" by (rule binade_unique) simp_all
  then show ?thesis
    by (simp add: toDouble_def roundHalfEven_def power_int_minus)
qed

lemma toDouble_1200: "toDouble 1200 = Finite 1200"
proof -
  have "binade 1200 = 10" by (rule binade_unique) simp_all
  then show ?thesis
    by (simp add: toDouble_def roundHalfEven_def floor_rat_numeral power_int_minus)
qed

lemma toDouble_tie: "toDouble 9007199254740993 = Finite 9007199254740992"
proof -
  have "binade 9007199254740993 = 53" by (rule binade_unique) simp_all
  then show ?thesis
    by (simp add: toDouble_def roundHalfEven_def floor_rat_numeral power_int_minus)
qed

lemma toDouble_tenth: "toDouble (1 / 10) = Finite (3602879701896397 / 36028797018963968)"
proof -
  have "binade (1 / 10) = - 4" by (rule binade_unique) (simp_all add: power_int_minus)
  then show ?thesis
    by (simp add: toDouble_def roundHalfEven_def floor_rat_numeral power_int_minus)
qed

lemma toDouble_overflow: "toDouble (10 ^ 400) = PosInfinity"
proof -
  have "binade (10 ^ 400) = 1328" by (rule binade_unique) simp_all
  then show ?thesis
    by (simp add: toDouble_def roundHalfEven_def floor_rat_numeral power_int_minus)
qed

text \<open>\<open>JSON.parse('{"b":1,"1":1200,"b":1200}')\<close> is \<open>{"1":1200,"b":1200}\<close>.\<close>

lemma JSON_parse_members:
  "JSON_parse (JObj [(js ''b'', JNum (Finite 1)), (js ''1'', JNum (Finite 1200)), (js ''b'', JNum (Finite 1200))])
     = JObj [(js ''1'', JNum (Finite 1200)), (js ''b'', JNum (Finite 1200))]"
  by (simp add: toDouble_one toDouble_1200 enumerated_def isArrayIndex_def decimal_def js_def)

lemma express_json_accepted:
  assumes "express_json n w = Inr body"
  shows "body = JSON_parse w" and "finiteNumbers w"
  using assms by (auto simp: express_json_def split: if_splits)

lemma receive_accepted:
  "express_json n w = Inr body \<Longrightarrow> receive fs uid r n w d = serve fs uid (call_of r body) d"
  by (simp add: receive_def)

lemma reachable_serve:
  assumes "reachable d" and "express_json n body = Inr body"
  shows "reachable (snd (serve fs uid (call_of r body) d))"
  using reachable.step [OF assms(1), of fs uid r n body] assms(2)
  by (simp add: receive_def)


subsection \<open>Statements, batches and transactions\<close>

lemma run_no_fault: "True \<notin> set (take 1 fs) \<Longrightarrow> run w d fs = (Inr (), w d, tl fs)"
  by (cases "(w, d, fs)" rule: run.cases) auto

lemma run_fault: "True \<in> set (take 1 fs) \<Longrightarrow> run w d fs = (Inl SqliteError, d, tl fs)"
  by (cases "(w, d, fs)" rule: run.cases) auto

lemma run_result: "run w d fs = (r, d', fs') \<Longrightarrow> d' = (case r of Inl e \<Rightarrow> d | Inr u \<Rightarrow> w d)"
  by (cases "(w, d, fs)" rule: run.cases) auto

lemma forEntries_no_fault:
  "True \<notin> set (take (length es) fs) \<Longrightarrow>
   forEntries (\<lambda>k c. run (w k c)) es d fs
     = (Inr (), fold (\<lambda>(k, v). w k (JSON_stringify v)) es d, drop (length es) fs)"
proof (induction es arbitrary: d fs)
  case Nil
  then show ?case by simp
next
  case (Cons e es)
  obtain k v where e: "e = (k, v)" by (cases e)
  show ?case
  proof (cases fs)
    case Nil
    with Cons.IH [of "[]"] e show ?thesis by simp
  next
    case (Cons f fs')
    with Cons.prems have "f = False" "True \<notin> set (take (length es) fs')" by auto
    with Cons.IH [of fs'] e Cons show ?thesis by simp
  qed
qed

lemma forEntries_fault:
  "True \<in> set (take (length es) fs) \<Longrightarrow>
   \<exists>d' fs'. forEntries (\<lambda>k c. run (w k c)) es d fs = (Inl SqliteError, d', fs')"
proof (induction es arbitrary: d fs)
  case Nil
  then show ?case by simp
next
  case (Cons e es)
  obtain k v where e: "e = (k, v)" by (cases e)
  from Cons.prems obtain f fs' where fs: "fs = f # fs'" by (cases fs) auto
  show ?case
  proof (cases f)
    case True
    with e fs show ?thesis by simp
  next
    case False
    with Cons.prems fs have "True \<in> set (take (length es) fs')" by auto
    from Cons.IH [OF this] e fs False show ?thesis by simp
  qed
qed

lemma user_state_fold:
  "user_state (fold (\<lambda>(k, v) d. d\<lparr>user_state := (user_state d)((uid, k) \<mapsto> JSON_stringify v)\<rparr>) es d) (u, k')
     = (if u = uid \<and> map_of (rev es) k' \<noteq> None
        then map_option JSON_stringify (map_of (rev es) k')
        else user_state d (u, k'))"
  by (induction es rule: rev_induct) (auto split: prod.splits)

lemma user_state_fold_frame:
  "email_config (fold (\<lambda>(k, v) d. d\<lparr>user_state := (user_state d)((uid, k) \<mapsto> JSON_stringify v)\<rparr>) es d) = email_config d
   \<and> monthly_data (fold (\<lambda>(k, v) d. d\<lparr>user_state := (user_state d)((uid, k) \<mapsto> JSON_stringify v)\<rparr>) es d) = monthly_data d"
  by (induction es rule: rev_induct) (auto split: prod.splits)

lemma monthly_data_fold:
  "monthly_data (fold (\<lambda>(k, v) d. d\<lparr>monthly_data := (monthly_data d)((uid, k) \<mapsto> JSON_stringify v)\<rparr>) es d) (u, k')
     = (if u = uid \<and> map_of (rev es) k' \<noteq> None
        then map_option JSON_stringify (map_of (rev es) k')
        else monthly_data d (u, k'))"
  by (induction es rule: rev_induct) (auto split: prod.splits)

lemma monthly_data_fold_frame:
  "email_config (fold (\<lambda>(k, v) d. d\<lparr>monthly_data := (monthly_data d)((uid, k) \<mapsto> JSON_stringify v)\<rparr>) es d) = email_config d
   \<and> user_state (fold (\<lambda>(k, v) d. d\<lparr>monthly_data := (monthly_data d)((uid, k) \<mapsto> JSON_stringify v)\<rparr>) es d) = user_state d"
  by (induction es rule: rev_induct) (auto split: prod.splits)

lemma importAll_no_fault:
  "True \<notin> set (take (length S + length M) fs) \<Longrightarrow>
   \<exists>fs'. importAll uid (Some (JObj S)) (Some (JObj M)) d fs
     = (Inr (), fold (\<lambda>(k, v) d. d\<lparr>monthly_data := (monthly_data d)((uid, k) \<mapsto> JSON_stringify v)\<rparr>) M
          (fold (\<lambda>(k, v) d. d\<lparr>user_state := (user_state d)((uid, k) \<mapsto> JSON_stringify v)\<rparr>) S d), fs')"
proof -
  assume nf: "True \<notin> set (take (length S + length M) fs)"
  have "set (take (length S) fs) \<subseteq> set (take (length S + length M) fs)"
    by (rule set_take_subset_set_take) simp
  with nf have a: "True \<notin> set (take (length S) fs)" by blast
  have "take (length M) (drop (length S) fs) = drop (length S) (take (length S + length M) fs)"
    by (simp add: drop_take)
  then have "set (take (length M) (drop (length S) fs)) \<subseteq> set (take (length S + length M) fs)"
    by (metis set_drop_subset)
  with nf have b: "True \<notin> set (take (length M) (drop (length S) fs))" by blast
  show ?thesis
    unfolding importAll_def setState_run_def setMonth_run_def
    using forEntries_no_fault [OF a, of "\<lambda>k c d. d\<lparr>user_state := (user_state d)((uid, k) \<mapsto> c)\<rparr>" d]
          forEntries_no_fault [OF b, of "\<lambda>k c d. d\<lparr>monthly_data := (monthly_data d)((uid, k) \<mapsto> c)\<rparr>"]
    by simp
qed

lemma importAll_fault:
  assumes "True \<in> set (take (length S + length M) fs)"
  shows "\<exists>d' fs'. importAll uid (Some (JObj S)) (Some (JObj M)) d fs = (Inl SqliteError, d', fs')"
proof (cases "True \<in> set (take (length S) fs)")
  case True
  from forEntries_fault [OF this, of "\<lambda>k c d. d\<lparr>user_state := (user_state d)((uid, k) \<mapsto> c)\<rparr>" d]
  show ?thesis
    unfolding importAll_def setState_run_def by auto
next
  case False
  have "take (length S + length M) fs = take (length S) fs @ take (length M) (drop (length S) fs)"
    by (simp add: take_add)
  with assms False have b: "True \<in> set (take (length M) (drop (length S) fs))" by auto
  show ?thesis
    unfolding importAll_def setState_run_def setMonth_run_def
    using forEntries_no_fault [OF False, of "\<lambda>k c d. d\<lparr>user_state := (user_state d)((uid, k) \<mapsto> c)\<rparr>" d]
          forEntries_fault [OF b, of "\<lambda>k c d. d\<lparr>monthly_data := (monthly_data d)((uid, k) \<mapsto> c)\<rparr>"]
    by auto
qed

text \<open>
  The body of \<open>importAll\<close>, run outside \<open>db.transaction\<close>, keeps what it wrote before the
  failing statement: the rollback is what undoes it.
\<close>

lemma importAll_body_keeps_partial_writes:
  "importAll (js ''local'') (Some (JObj sampleState)) (Some (JObj sampleMonthly)) emptyDb [False, True]
     = (Inl SqliteError,
        emptyDb\<lparr>user_state := (user_state emptyDb)((js ''local'', js ''people'') \<mapsto> Json (JArr []))\<rparr>,
        [])"
  by (simp add: importAll_def setState_run_def setMonth_run_def sampleState_def sampleMonthly_def
        JSON_stringify_def)

text \<open>
  C3. A batch write is all or nothing. The import of a document \<open>{state, monthly}\<close>, and
  likewise the save of a whole state, either runs every statement, and then each entry of
  the batch is stored and nothing else has changed, or one of its statements fails, and
  then the store is exactly as it was before the call.
\<close>

theorem batch_write_all_or_nothing:
  "(True \<notin> set (take (length S + length M) fs) \<longrightarrow>
      (\<exists>d'. post_import fs uid (JObj [(js ''state'', JObj S), (js ''monthly'', JObj M)]) d = (ok, d')
         \<and> (\<forall>k v. getProp (Some (JObj S)) k = Some v \<longrightarrow> user_state d' (uid, k) = Some (JSON_stringify v))
         \<and> (\<forall>k v. getProp (Some (JObj M)) k = Some v \<longrightarrow> monthly_data d' (uid, k) = Some (JSON_stringify v))
         \<and> (\<forall>u k. u \<noteq> uid \<or> getProp (Some (JObj S)) k = None \<longrightarrow> user_state d' (u, k) = user_state d (u, k))
         \<and> (\<forall>u k. u \<noteq> uid \<or> getProp (Some (JObj M)) k = None \<longrightarrow> monthly_data d' (u, k) = monthly_data d (u, k))
         \<and> email_config d' = email_config d))
   \<and> (True \<in> set (take (length S + length M) fs) \<longrightarrow>
        post_import fs uid (JObj [(js ''state'', JObj S), (js ''monthly'', JObj M)]) d = (Uncaught SqliteError, d))
   \<and> (True \<notin> set (take (length S) fs) \<longrightarrow>
        (\<exists>d'. put_state fs uid (JObj S) d = (ok, d')
           \<and> (\<forall>k v. getProp (Some (JObj S)) k = Some v \<longrightarrow> user_state d' (uid, k) = Some (JSON_stringify v))
           \<and> (\<forall>u k. u \<noteq> uid \<or> getProp (Some (JObj S)) k = None \<longrightarrow> user_state d' (u, k) = user_state d (u, k))
           \<and> monthly_data d' = monthly_data d
           \<and> email_config d' = email_config d))
   \<and> (True \<in> set (take (length S) fs) \<longrightarrow>
        put_state fs uid (JObj S) d = (Uncaught SqliteError, d))"
proof (intro conjI impI)
  assume nf: "True \<notin> set (take (length S + length M) fs)"
  let ?d1 = "fold (\<lambda>(k, v) d. d\<lparr>user_state := (user_state d)((uid, k) \<mapsto> JSON_stringify v)\<rparr>) S d"
  let ?d2 = "fold (\<lambda>(k, v) d. d\<lparr>monthly_data := (monthly_data d)((uid, k) \<mapsto> JSON_stringify v)\<rparr>) M ?d1"
  from importAll_no_fault [OF nf, of uid d]
  have r: "post_import fs uid (JObj [(js ''state'', JObj S), (js ''monthly'', JObj M)]) d = (ok, ?d2)"
    by (auto simp: post_import_def transaction_def js_def)
  have us: "user_state ?d2 = user_state ?d1"
    using monthly_data_fold_frame [of uid M ?d1] by simp
  have 1: "\<forall>k v. getProp (Some (JObj S)) k = Some v \<longrightarrow> user_state ?d2 (uid, k) = Some (JSON_stringify v)"
    by (simp add: us user_state_fold)
  have 2: "\<forall>k v. getProp (Some (JObj M)) k = Some v \<longrightarrow> monthly_data ?d2 (uid, k) = Some (JSON_stringify v)"
    by (simp add: monthly_data_fold)
  have 3: "\<forall>u k. u \<noteq> uid \<or> getProp (Some (JObj S)) k = None \<longrightarrow> user_state ?d2 (u, k) = user_state d (u, k)"
    by (auto simp: us user_state_fold)
  have 4: "\<forall>u k. u \<noteq> uid \<or> getProp (Some (JObj M)) k = None \<longrightarrow> monthly_data ?d2 (u, k) = monthly_data d (u, k)"
    using user_state_fold_frame [of uid S d]
    by (auto simp: monthly_data_fold)
  have 5: "email_config ?d2 = email_config d"
    using user_state_fold_frame [of uid S d] monthly_data_fold_frame [of uid M ?d1] by simp
  from r 1 2 3 4 5
  show "\<exists>d'. post_import fs uid (JObj [(js ''state'', JObj S), (js ''monthly'', JObj M)]) d = (ok, d')
         \<and> (\<forall>k v. getProp (Some (JObj S)) k = Some v \<longrightarrow> user_state d' (uid, k) = Some (JSON_stringify v))
         \<and> (\<forall>k v. getProp (Some (JObj M)) k = Some v \<longrightarrow> monthly_data d' (uid, k) = Some (JSON_stringify v))
         \<and> (\<forall>u k. u \<noteq> uid \<or> getProp (Some (JObj S)) k = None \<longrightarrow> user_state d' (u, k) = user_state d (u, k))
         \<and> (\<forall>u k. u \<noteq> uid \<or> getProp (Some (JObj M)) k = None \<longrightarrow> monthly_data d' (u, k) = monthly_data d (u, k))
         \<and> email_config d' = email_config d"
    by blast
next
  assume f: "True \<in> set (take (length S + length M) fs)"
  from importAll_fault [OF f, of uid d]
  show "post_import fs uid (JObj [(js ''state'', JObj S), (js ''monthly'', JObj M)]) d = (Uncaught SqliteError, d)"
    by (auto simp: post_import_def transaction_def js_def)
next
  assume nf: "True \<notin> set (take (length S) fs)"
  let ?d1 = "fold (\<lambda>(k, v) d. d\<lparr>user_state := (user_state d)((uid, k) \<mapsto> JSON_stringify v)\<rparr>) S d"
  from forEntries_no_fault [OF nf, of "\<lambda>k c d. d\<lparr>user_state := (user_state d)((uid, k) \<mapsto> c)\<rparr>" d]
  have r: "put_state fs uid (JObj S) d = (ok, ?d1)"
    unfolding put_state_def transaction_def saveMany_def setState_run_def
    by simp
  have 1: "\<forall>k v. getProp (Some (JObj S)) k = Some v \<longrightarrow> user_state ?d1 (uid, k) = Some (JSON_stringify v)"
    by (simp add: user_state_fold)
  have 3: "\<forall>u k. u \<noteq> uid \<or> getProp (Some (JObj S)) k = None \<longrightarrow> user_state ?d1 (u, k) = user_state d (u, k)"
    by (auto simp: user_state_fold)
  from r 1 3 user_state_fold_frame [of uid S d]
  show "\<exists>d'. put_state fs uid (JObj S) d = (ok, d')
           \<and> (\<forall>k v. getProp (Some (JObj S)) k = Some v \<longrightarrow> user_state d' (uid, k) = Some (JSON_stringify v))
           \<and> (\<forall>u k. u \<noteq> uid \<or> getProp (Some (JObj S)) k = None \<longrightarrow> user_state d' (u, k) = user_state d (u, k))
           \<and> monthly_data d' = monthly_data d
           \<and> email_config d' = email_config d"
    by blast
next
  assume f: "True \<in> set (take (length S) fs)"
  from forEntries_fault [OF f, of "\<lambda>k c d. d\<lparr>user_state := (user_state d)((uid, k) \<mapsto> c)\<rparr>" d]
  show "put_state fs uid (JObj S) d = (Uncaught SqliteError, d)"
    unfolding put_state_def transaction_def saveMany_def setState_run_def
    by auto
qed

theorem batch_write_all_or_nothing_witness:
  "True \<in> set (take (length sampleState + length sampleMonthly) [False, True])
   \<and> post_import [False, True] (js ''local'') sampleBackup emptyDb = (Uncaught SqliteError, emptyDb)
   \<and> True \<notin> set (take (length sampleState + length sampleMonthly) [])
   \<and> getProp (Some (JObj sampleState)) (js ''people'') = Some (JArr [])
   \<and> getProp (Some (JObj sampleMonthly)) (js ''2024-01'') = Some (JObj [])
   \<and> (\<exists>d'. post_import [] (js ''local'') sampleBackup emptyDb = (ok, d')
         \<and> user_state d' (js ''local'', js ''people'') = Some (Json (JArr []))
         \<and> monthly_data d' (js ''local'', js ''2024-01'') = Some (Json (JObj [])))
   \<and> True \<in> set (take (length sampleState) [True])
   \<and> put_state [True] (js ''local'') (JObj sampleState) emptyDb = (Uncaught SqliteError, emptyDb)
   \<and> True \<notin> set (take (length sampleState) [])
   \<and> (\<exists>d'. put_state [] (js ''local'') (JObj sampleState) emptyDb = (ok, d')
         \<and> user_state d' (js ''local'', js ''people'') = Some (Json (JArr [])))"
proof -
  have f: "True \<in> set (take (length sampleState + length sampleMonthly) [False, True])"
    and nf: "True \<notin> set (take (length sampleState + length sampleMonthly) [])"
    and f': "True \<in> set (take (length sampleState) [True])"
    and nf': "True \<notin> set (take (length sampleState) [])"
    by (simp_all add: sampleState_def sampleMonthly_def)
  have gS: "getProp (Some (JObj sampleState)) (js ''people'') = Some (JArr [])"
    and gM: "getProp (Some (JObj sampleMonthly)) (js ''2024-01'') = Some (JObj [])"
    by (simp_all add: sampleState_def sampleMonthly_def)
  note all = batch_write_all_or_nothing [of sampleState sampleMonthly _ "js ''local''" emptyDb,
      folded sampleBackup_def]
  from all [of "[False, True]"] f
  have r1: "post_import [False, True] (js ''local'') sampleBackup emptyDb = (Uncaught SqliteError, emptyDb)"
    by (elim conjE) (erule (1) impE)
  from all [of "[]"] nf
  have "\<exists>d'. post_import [] (js ''local'') sampleBackup emptyDb = (ok, d')
         \<and> (\<forall>k v. getProp (Some (JObj sampleState)) k = Some v \<longrightarrow>
               user_state d' (js ''local'', k) = Some (JSON_stringify v))
         \<and> (\<forall>k v. getProp (Some (JObj sampleMonthly)) k = Some v \<longrightarrow>
               monthly_data d' (js ''local'', k) = Some (JSON_stringify v))
         \<and> (\<forall>u k. u \<noteq> js ''local'' \<or> getProp (Some (JObj sampleState)) k = None \<longrightarrow>
               user_state d' (u, k) = user_state emptyDb (u, k))
         \<and> (\<forall>u k. u \<noteq> js ''local'' \<or> getProp (Some (JObj sampleMonthly)) k = None \<longrightarrow>
               monthly_data d' (u, k) = monthly_data emptyDb (u, k))
         \<and> email_config d' = email_config emptyDb"
    by (elim conjE) (erule (1) impE)
  then obtain d' where
    p: "post_import [] (js ''local'') sampleBackup emptyDb = (ok, d')"
    and s: "\<forall>k v. getProp (Some (JObj sampleState)) k = Some v \<longrightarrow>
              user_state d' (js ''local'', k) = Some (JSON_stringify v)"
    and m: "\<forall>k v. getProp (Some (JObj sampleMonthly)) k = Some v \<longrightarrow>
              monthly_data d' (js ''local'', k) = Some (JSON_stringify v)"
    by (elim exE conjE)
  from s gS have "user_state d' (js ''local'', js ''people'') = Some (JSON_stringify (JArr []))"
    by blast
  then have s': "user_state d' (js ''local'', js ''people'') = Some (Json (JArr []))"
    by (simp add: JSON_stringify_def)
  from m gM have "monthly_data d' (js ''local'', js ''2024-01'') = Some (JSON_stringify (JObj []))"
    by blast
  then have m': "monthly_data d' (js ''local'', js ''2024-01'') = Some (Json (JObj []))"
    by (simp add: JSON_stringify_def)
  from p s' m' have r2: "\<exists>d'. post_import [] (js ''local'') sampleBackup emptyDb = (ok, d')
       \<and> user_state d' (js ''local'', js ''people'') = Some (Json (JArr []))
       \<and> monthly_data d' (js ''local'', js ''2024-01'') = Some (Json (JObj []))"
    by (intro exI conjI)
  from all [of "[True]"] f'
  have r3: "put_state [True] (js ''local'') (JObj sampleState) emptyDb = (Uncaught SqliteError, emptyDb)"
    by (elim conjE) (erule (1) impE)
  from all [of "[]"] nf'
  have "\<exists>d'. put_state [] (js ''local'') (JObj sampleState) emptyDb = (ok, d')
         \<and> (\<forall>k v. getProp (Some (JObj sampleState)) k = Some v \<longrightarrow>
               user_state d' (js ''local'', k) = Some (JSON_stringify v))
         \<and> (\<forall>u k. u \<noteq> js ''local'' \<or> getProp (Some (JObj sampleState)) k = None \<longrightarrow>
               user_state d' (u, k) = user_state emptyDb (u, k))
         \<and> monthly_data d' = monthly_data emptyDb
         \<and> email_config d' = email_config emptyDb"
    by (elim conjE) (erule (1) impE)
  then obtain d'' where
    p': "put_state [] (js ''local'') (JObj sampleState) emptyDb = (ok, d'')"
    and s'': "\<forall>k v. getProp (Some (JObj sampleState)) k = Some v \<longrightarrow>
              user_state d'' (js ''local'', k) = Some (JSON_stringify v)"
    by (elim exE conjE)
  from s'' gS have "user_state d'' (js ''local'', js ''people'') = Some (JSON_stringify (JArr []))"
    by blast
  then have "user_state d'' (js ''local'', js ''people'') = Some (Json (JArr []))"
    by (simp add: JSON_stringify_def)
  with p' have r4: "\<exists>d'. put_state [] (js ''local'') (JObj sampleState) emptyDb = (ok, d')
       \<and> user_state d' (js ''local'', js ''people'') = Some (Json (JArr []))"
    by (intro exI conjI)
  from f r1 nf gS gM r2 f' r3 nf' r4 show ?thesis
    by (intro conjI)
qed


subsection \<open>Monthly records\<close>

lemma put_month_valid:
  assumes "validMonthKey key"
  shows "put_month fs uid key body d =
           (if True \<in> set (take 1 fs) then (Uncaught SqliteError, d)
            else (ok, d\<lparr>monthly_data := (monthly_data d)((uid, key) \<mapsto> Json (stringified body))\<rparr>))"
  using assms
  by (simp add: put_month_def setMonth_run_def run_fault run_no_fault JSON_stringify_def)

lemma get_month_written:
  "get_month (d\<lparr>monthly_data := (monthly_data d)((uid, key) \<mapsto> Json (stringified body))\<rparr>) uid key
     = stringified body"
  by (simp add: get_month_def res_json_def stringified_idem)

text \<open>
  C4, as stated, fails. A numeral beyond the range of the doubles is read back as \<open>null\<close>;
  a numeral that is no double is read back as the double nearest to it; and a body that
  is neither an object nor an array is refused by the middleware, so that nothing is
  written. (The bodies are \<open>{"x":1e400}\<close>, \<open>{"x":9007199254740993}\<close> and \<open>5\<close>.)
\<close>

theorem month_read_differs_from_write:
  "validMonthKey (js ''2026-03'')
   \<and> fst (receive [] (js ''local'') (PUT_month (js ''2026-03'')) 11
            (JObj [(js ''x'', JNum (Finite (10 ^ 400)))]) emptyDb) = ok
   \<and> get_month (snd (receive [] (js ''local'') (PUT_month (js ''2026-03'')) 11
            (JObj [(js ''x'', JNum (Finite (10 ^ 400)))]) emptyDb)) (js ''local'') (js ''2026-03'')
        = JObj [(js ''x'', JNull)]
   \<and> fst (receive [] (js ''local'') (PUT_month (js ''2026-03'')) 22
            (JObj [(js ''x'', JNum (Finite 9007199254740993))]) emptyDb) = ok
   \<and> get_month (snd (receive [] (js ''local'') (PUT_month (js ''2026-03'')) 22
            (JObj [(js ''x'', JNum (Finite 9007199254740993))]) emptyDb)) (js ''local'') (js ''2026-03'')
        = JObj [(js ''x'', JNum (Finite 9007199254740992))]
   \<and> receive [] (js ''local'') (PUT_month (js ''2026-03'')) 1 (JNum (Finite 5)) emptyDb
        = (Uncaught SyntaxError, emptyDb)
   \<and> get_month emptyDb (js ''local'') (js ''2026-03'') = JObj []"
proof -
  have k: "validMonthKey (js ''2026-03'')"
    by (simp add: js_def isDigit_def)
  have 1: "express_json 11 (JObj [(js ''x'', JNum (Finite (10 ^ 400)))]) = Inr (JObj [(js ''x'', JNum PosInfinity)])"
    by (simp add: express_json_def toDouble_overflow enumerated_def isArrayIndex_def js_def del: power_numeral)
  have 2: "express_json 22 (JObj [(js ''x'', JNum (Finite 9007199254740993))])
             = Inr (JObj [(js ''x'', JNum (Finite 9007199254740992))])"
    by (simp add: express_json_def toDouble_tie enumerated_def isArrayIndex_def js_def)
  have 3: "express_json 1 (JNum (Finite 5)) = Inl SyntaxError"
    by (simp add: express_json_def)
  have 4: "get_month emptyDb (js ''local'') (js ''2026-03'') = JObj []"
    by (simp add: get_month_def emptyDb_def res_json_def)
  from 3 have 5: "receive [] (js ''local'') (PUT_month (js ''2026-03'')) 1 (JNum (Finite 5)) emptyDb
        = (Uncaught SyntaxError, emptyDb)"
    by (simp add: receive_def)
  show ?thesis
    unfolding receive_accepted [OF 1] receive_accepted [OF 2] 5
    using k 4 by (simp add: put_month_valid get_month_def res_json_def)
qed

text \<open>
  C4, amended. Let the month key be of the form \<open>YYYY-MM\<close> and let the middleware accept
  the body of the request. The write succeeds unless its statement fails in the engine,
  and after a successful write the read of the same key returns what \<open>JSON.stringify\<close>
  writes of the parsed body. That is the parsed body itself when every number in it is
  finite, and it is exactly the body written when that body is its own parse.
\<close>

theorem month_round_trip:
  assumes "validMonthKey key" and "express_json n w = Inr body"
  shows "(True \<notin> set (take 1 fs) \<longrightarrow> fst (receive fs uid (PUT_month key) n w d) = ok)
       \<and> (fst (receive fs uid (PUT_month key) n w d) = ok \<longrightarrow>
            get_month (snd (receive fs uid (PUT_month key) n w d)) uid key = stringified body
          \<and> (finiteNumbers body \<longrightarrow>
               get_month (snd (receive fs uid (PUT_month key) n w d)) uid key = body)
          \<and> (body = w \<longrightarrow>
               get_month (snd (receive fs uid (PUT_month key) n w d)) uid key = w))"
proof -
  have r: "receive fs uid (PUT_month key) n w d = put_month fs uid key body d"
    by (simp add: receive_accepted [OF assms(2)])
  show ?thesis
  proof (cases "True \<in> set (take 1 fs)")
    case True
    with assms(1) show ?thesis
      by (simp add: r put_month_valid ok_def)
  next
    case False
    with assms(1) have g: "get_month (snd (receive fs uid (PUT_month key) n w d)) uid key = stringified body"
      and o: "fst (receive fs uid (PUT_month key) n w d) = ok"
      by (simp_all add: r put_month_valid get_month_written)
    have "body = w \<Longrightarrow> stringified body = w"
      using express_json_accepted(2) [OF assms(2)] by (simp add: stringified_finite)
    with g o show ?thesis
      by (simp add: stringified_finite)
  qed
qed

theorem month_round_trip_witness:
  "validMonthKey (js ''2026-03'')
   \<and> express_json 13 (JObj [(js ''rent'', JNum (Finite 1200))]) = Inr (JObj [(js ''rent'', JNum (Finite 1200))])
   \<and> True \<notin> set (take 1 [])
   \<and> finiteNumbers (JObj [(js ''rent'', JNum (Finite 1200))])
   \<and> fst (receive [] (js ''local'') (PUT_month (js ''2026-03'')) 13
            (JObj [(js ''rent'', JNum (Finite 1200))]) emptyDb) = ok
   \<and> get_month (snd (receive [] (js ''local'') (PUT_month (js ''2026-03'')) 13
            (JObj [(js ''rent'', JNum (Finite 1200))]) emptyDb)) (js ''local'') (js ''2026-03'')
        = JObj [(js ''rent'', JNum (Finite 1200))]"
proof -
  have 1: "validMonthKey (js ''2026-03'')"
    by (simp add: js_def isDigit_def)
  have 2: "express_json 13 (JObj [(js ''rent'', JNum (Finite 1200))]) = Inr (JObj [(js ''rent'', JNum (Finite 1200))])"
    by (simp add: express_json_def toDouble_1200 enumerated_def isArrayIndex_def js_def)
  have 3: "True \<notin> set (take 1 [])"
    by simp
  have 4: "finiteNumbers (JObj [(js ''rent'', JNum (Finite 1200))])"
    by simp
  note rt = month_round_trip [OF 1 2, of "[]" "js ''local''" emptyDb]
  from rt 3 have 5: "fst (receive [] (js ''local'') (PUT_month (js ''2026-03'')) 13
            (JObj [(js ''rent'', JNum (Finite 1200))]) emptyDb) = ok"
    by blast
  with rt 4 have 6: "get_month (snd (receive [] (js ''local'') (PUT_month (js ''2026-03'')) 13
            (JObj [(js ''rent'', JNum (Finite 1200))]) emptyDb)) (js ''local'') (js ''2026-03'')
        = JObj [(js ''rent'', JNum (Finite 1200))]"
    by blast
  from 1 2 3 4 5 6 show ?thesis
    by (intro conjI)
qed

text \<open>
  C5. The import writes the keys of \<open>monthly\<close> as they come: a store reached from the
  empty one by a single import holds a monthly record whose key is not of the form
  \<open>YYYY-MM\<close>, a key that the single-month write refuses.
\<close>

theorem import_stores_unchecked_month_key:
  "reachable (snd (serve [] (js ''local'') (Import (JObj [(js ''monthly'', JObj [(js ''foo'', JObj [])])])) emptyDb))
   \<and> monthly_data (snd (serve [] (js ''local'') (Import (JObj [(js ''monthly'', JObj [(js ''foo'', JObj [])])])) emptyDb))
        (js ''local'', js ''foo'') = Some (Json (JObj []))
   \<and> \<not> validMonthKey (js ''foo'')
   \<and> put_month [] (js ''local'') (js ''foo'') (JObj []) emptyDb
        = (badRequest ''Invalid month key (expected YYYY-MM)'', emptyDb)"
proof -
  have "express_json 22 (JObj [(js ''monthly'', JObj [(js ''foo'', JObj [])])])
          = Inr (JObj [(js ''monthly'', JObj [(js ''foo'', JObj [])])])"
    by (simp add: express_json_def enumerated_def isArrayIndex_def js_def)
  from reachable_serve [OF reachable.start this, of "[]" "js ''local''" POST_import]
  have "reachable (snd (serve [] (js ''local'') (Import (JObj [(js ''monthly'', JObj [(js ''foo'', JObj [])])])) emptyDb))"
    by simp
  moreover have "\<not> validMonthKey (js ''foo'')"
    by (simp add: js_def)
  moreover have "monthly_data (snd (serve [] (js ''local'') (Import (JObj [(js ''monthly'', JObj [(js ''foo'', JObj [])])])) emptyDb))
        (js ''local'', js ''foo'') = Some (Json (JObj []))"
    by (simp add: post_import_def transaction_def importAll_def setMonth_run_def JSON_stringify_def js_def)
  ultimately show ?thesis
    by (simp add: put_month_def)
qed


subsection \<open>Reading what does not parse\<close>

text \<open>
  C6, as stated, fails for the settings read: a row that does not parse is answered with
  its raw text.
\<close>

theorem corrupt_setting_surfaces_raw_text:
  "get_state (emptyDb\<lparr>user_state := (user_state emptyDb)((js ''local'', js ''theme'') \<mapsto> Raw (js ''dark''))\<rparr>) (js ''local'') (js ''theme'')
     = Some (JStr (js ''dark''))"
  by (simp add: get_state_def res_json_def js_def)

text \<open>
  C6, amended. No read fails on a payload that does not parse. The months read leaves the
  entry out, the read of one month answers the empty object, and the settings read
  answers the stored text itself, as a string, under the key of the row; only under the
  key \<open>__proto__\<close>, which the answer of the settings read never has, there is no entry.
\<close>

theorem lenient_reads:
  "(user_state d (uid, key) = Some (Raw s) \<longrightarrow>
      get_state d uid key = (if key = js ''__proto__'' then None else Some (JStr s)))
   \<and> (monthly_data d (uid, key) = Some (Raw s) \<longrightarrow>
        get_months d uid key = None \<and> get_month d uid key = JObj [])"
  by (simp add: get_state_def get_months_def get_month_def res_json_def)

theorem lenient_reads_witness:
  "user_state (emptyDb\<lparr>user_state := (user_state emptyDb)((js ''local'', js ''theme'') \<mapsto> Raw (js ''dark'')),
                       monthly_data := (monthly_data emptyDb)((js ''local'', js ''2026-03'') \<mapsto> Raw (js ''{oops''))\<rparr>)
      (js ''local'', js ''theme'') = Some (Raw (js ''dark''))
   \<and> get_state (emptyDb\<lparr>user_state := (user_state emptyDb)((js ''local'', js ''theme'') \<mapsto> Raw (js ''dark'')),
                       monthly_data := (monthly_data emptyDb)((js ''local'', js ''2026-03'') \<mapsto> Raw (js ''{oops''))\<rparr>)
      (js ''local'') (js ''theme'') = Some (JStr (js ''dark''))
   \<and> monthly_data (emptyDb\<lparr>user_state := (user_state emptyDb)((js ''local'', js ''theme'') \<mapsto> Raw (js ''dark'')),
                       monthly_data := (monthly_data emptyDb)((js ''local'', js ''2026-03'') \<mapsto> Raw (js ''{oops''))\<rparr>)
      (js ''local'', js ''2026-03'') = Some (Raw (js ''{oops''))
   \<and> get_months (emptyDb\<lparr>user_state := (user_state emptyDb)((js ''local'', js ''theme'') \<mapsto> Raw (js ''dark'')),
                       monthly_data := (monthly_data emptyDb)((js ''local'', js ''2026-03'') \<mapsto> Raw (js ''{oops''))\<rparr>)
      (js ''local'') (js ''2026-03'') = None
   \<and> get_month (emptyDb\<lparr>user_state := (user_state emptyDb)((js ''local'', js ''theme'') \<mapsto> Raw (js ''dark'')),
                       monthly_data := (monthly_data emptyDb)((js ''local'', js ''2026-03'') \<mapsto> Raw (js ''{oops''))\<rparr>)
      (js ''local'') (js ''2026-03'') = JObj []
   \<and> user_state (emptyDb\<lparr>user_state := (user_state emptyDb)((js ''local'', js ''__proto__'') \<mapsto> Raw (js ''dark''))\<rparr>)
      (js ''local'', js ''__proto__'') = Some (Raw (js ''dark''))
   \<and> get_state (emptyDb\<lparr>user_state := (user_state emptyDb)((js ''local'', js ''__proto__'') \<mapsto> Raw (js ''dark''))\<rparr>)
      (js ''local'') (js ''__proto__'') = None"
  using lenient_reads [of "emptyDb\<lparr>user_state := (user_state emptyDb)((js ''local'', js ''theme'') \<mapsto> Raw (js ''dark'')),
                       monthly_data := (monthly_data emptyDb)((js ''local'', js ''2026-03'') \<mapsto> Raw (js ''{oops''))\<rparr>"
          "js ''local''" "js ''theme''" "js ''dark''"]
        lenient_reads [of "emptyDb\<lparr>user_state := (user_state emptyDb)((js ''local'', js ''theme'') \<mapsto> Raw (js ''dark'')),
                       monthly_data := (monthly_data emptyDb)((js ''local'', js ''2026-03'') \<mapsto> Raw (js ''{oops''))\<rparr>"
          "js ''local''" "js ''2026-03''" "js ''{oops''"]
        lenient_reads [of "emptyDb\<lparr>user_state := (user_state emptyDb)((js ''local'', js ''__proto__'') \<mapsto> Raw (js ''dark''))\<rparr>"
          "js ''local''" "js ''__proto__''" "js ''dark''"]
  by (simp add: js_def)


subsection \<open>Masking\<close>

lemma maskField_other: "maskField nts g m = Inr m' \<Longrightarrow> k \<noteq> g \<Longrightarrow> map_of m' k = map_of m k"
  by (auto simp: maskField_def map_of_setProp split: if_splits sum.splits)

lemma maskField_falsy: "\<not> truthyU (map_of m g) \<Longrightarrow> maskField nts g m = Inr m"
  by (simp add: maskField_def)

lemma maskField_string:
  "map_of m g = Some (JStr s) \<Longrightarrow> s \<noteq> [] \<Longrightarrow>
   maskField nts g m = Inr (setProp g (JStr (take 4 s @ redactionMarker)) m)"
  by (simp add: maskField_def)

lemma maskField_distinct:
  "maskField nts g m = Inr m' \<Longrightarrow> distinct (map fst m) \<Longrightarrow> distinct (map fst m')"
  by (auto simp: maskField_def distinct_setProp split: if_splits sum.splits)

lemma forEachE_mask_other:
  "forEachE (maskField nts) fs m = Inr m' \<Longrightarrow> k \<notin> set fs \<Longrightarrow> map_of m' k = map_of m k"
proof (induction fs arbitrary: m)
  case Nil
  then show ?case by simp
next
  case (Cons g fs)
  then obtain m1 where 1: "maskField nts g m = Inr m1" and 2: "forEachE (maskField nts) fs m1 = Inr m'"
    by (auto split: sum.splits)
  from Cons.IH [OF 2] Cons.prems(2) have "map_of m' k = map_of m1 k" by simp
  with maskField_other [OF 1, of k] Cons.prems(2) show ?case by simp
qed

lemma forEachE_mask_falsy:
  "forEachE (maskField nts) fs m = Inr m' \<Longrightarrow> \<not> truthyU (map_of m k) \<Longrightarrow> map_of m' k = map_of m k"
proof (induction fs arbitrary: m)
  case Nil
  then show ?case by simp
next
  case (Cons g fs)
  then obtain m1 where 1: "maskField nts g m = Inr m1" and 2: "forEachE (maskField nts) fs m1 = Inr m'"
    by (auto split: sum.splits)
  have eq: "map_of m1 k = map_of m k"
  proof (cases "k = g")
    case True
    with Cons.prems(2) 1 show ?thesis by (simp add: maskField_falsy)
  next
    case False
    with maskField_other [OF 1] show ?thesis by simp
  qed
  with Cons.prems(2) Cons.IH [OF 2] show ?case by simp
qed

lemma forEachE_mask_string:
  "forEachE (maskField nts) fs m = Inr m' \<Longrightarrow> distinct fs \<Longrightarrow> f \<in> set fs \<Longrightarrow>
   map_of m f = Some (JStr s) \<Longrightarrow> s \<noteq> [] \<Longrightarrow>
   map_of m' f = Some (JStr (take 4 s @ redactionMarker))"
proof (induction fs arbitrary: m)
  case Nil
  then show ?case by simp
next
  case (Cons g fs)
  then obtain m1 where 1: "maskField nts g m = Inr m1" and 2: "forEachE (maskField nts) fs m1 = Inr m'"
    by (auto split: sum.splits)
  show ?case
  proof (cases "f = g")
    case True
    with Cons.prems 1 have "m1 = setProp f (JStr (take 4 s @ redactionMarker)) m"
      by (simp add: maskField_string)
    then have "map_of m1 f = Some (JStr (take 4 s @ redactionMarker))"
      by (simp add: map_of_setProp)
    moreover from True Cons.prems(2) have "f \<notin> set fs" by simp
    ultimately show ?thesis using forEachE_mask_other [OF 2] by simp
  next
    case False
    with maskField_other [OF 1] Cons.prems have "map_of m1 f = Some (JStr s)" by simp
    with False Cons.prems Cons.IH [OF 2] show ?thesis by simp
  qed
qed

lemma forEachE_mask_distinct:
  "forEachE (maskField nts) fs m = Inr m' \<Longrightarrow> distinct (map fst m) \<Longrightarrow> distinct (map fst m')"
proof (induction fs arbitrary: m)
  case Nil
  then show ?case by simp
next
  case (Cons g fs)
  then obtain m1 where 1: "maskField nts g m = Inr m1" and 2: "forEachE (maskField nts) fs m1 = Inr m'"
    by (auto split: sum.splits)
  from maskField_distinct [OF 1 Cons.prems(2)] Cons.IH [OF 2] show ?case by blast
qed

lemma forEachE_mask_total:
  "\<forall>f \<in> set fs. case map_of m f of None \<Rightarrow> True | Some v \<Rightarrow> \<not> truthy v \<or> isString v \<Longrightarrow>
   \<exists>m'. forEachE (maskField nts) fs m = Inr m'"
proof (induction fs arbitrary: m)
  case Nil
  then show ?case by simp
next
  case (Cons g fs)
  show ?case
  proof (cases "truthyU (map_of m g)")
    case False
    then have "maskField nts g m = Inr m" by (rule maskField_falsy)
    moreover from Cons.prems have "\<forall>f \<in> set fs. case map_of m f of None \<Rightarrow> True | Some v \<Rightarrow> \<not> truthy v \<or> isString v"
      by simp
    from Cons.IH [OF this] obtain m' where "forEachE (maskField nts) fs m = Inr m'" by blast
    ultimately show ?thesis by simp
  next
    case True
    with Cons.prems obtain s where s: "map_of m g = Some (JStr s)" "s \<noteq> []"
      by (cases "map_of m g"; cases "the (map_of m g)") auto
    let ?m1 = "setProp g (JStr (take 4 s @ redactionMarker)) m"
    from s have 1: "maskField nts g m = Inr ?m1" by (rule maskField_string)
    from Cons.prems have "\<forall>f \<in> set fs. case map_of ?m1 f of None \<Rightarrow> True | Some v \<Rightarrow> \<not> truthy v \<or> isString v"
      by (simp add: map_of_setProp)
    from Cons.IH [OF this] obtain m' where "forEachE (maskField nts) fs ?m1 = Inr m'" by blast
    with 1 show ?thesis by simp
  qed
qed

lemma distinct_secretFields: "distinct secretFields"
  by (simp add: secretFields_def js_def)

lemma maskConfig_obj:
  "maskConfig nts (JObj kvs) =
     (case forEachE (maskField nts) secretFields (spread [] (JObj kvs)) of
        Inl e \<Rightarrow> Inl e | Inr masked \<Rightarrow> Inr (JObj masked))"
  by (simp add: maskConfig_def)

lemma spread_obj_lookup: "map_of (spread [] (JObj kvs)) = map_of (rev kvs)"
  by (simp add: map_of_spread)

lemma spread_obj_distinct: "distinct (map fst (spread [] (JObj kvs)))"
  by (simp add: distinct_spread)

lemma maskConfig_secret:
  assumes "secretsAreStrings (JObj kvs)" and "f \<in> set secretFields"
    and "getProp (Some (JObj kvs)) f = Some (JStr s)" and "s \<noteq> []"
  shows "\<exists>m. maskConfig nts (JObj kvs) = Inr (JObj m)
           \<and> getProp (Some (JObj m)) f = Some (JStr (take 4 s @ redactionMarker))"
proof -
  from assms(1) have "\<forall>f \<in> set secretFields.
      case map_of (spread [] (JObj kvs)) f of None \<Rightarrow> True | Some v \<Rightarrow> \<not> truthy v \<or> isString v"
    by (simp add: secretsAreStrings_def list_all_iff spread_obj_lookup)
  from forEachE_mask_total [OF this, of nts]
  obtain m where m: "forEachE (maskField nts) secretFields (spread [] (JObj kvs)) = Inr m"
    by blast
  from assms(3) have "map_of (spread [] (JObj kvs)) f = Some (JStr s)"
    by (simp add: spread_obj_lookup)
  from forEachE_mask_string [OF m distinct_secretFields assms(2) this assms(4)]
  have "map_of m f = Some (JStr (take 4 s @ redactionMarker))" .
  with forEachE_mask_distinct [OF m spread_obj_distinct]
  have "getProp (Some (JObj m)) f = Some (JStr (take 4 s @ redactionMarker))"
    by (simp add: map_of_rev_distinct)
  moreover from m have "maskConfig nts (JObj kvs) = Inr (JObj m)"
    by (simp add: maskConfig_obj)
  ultimately show ?thesis by blast
qed

lemma sampleStore_eval:
  "put_email_config [] (js ''local'') sampleConfig emptyDb = (ok, emptyDb\<lparr>email_config := [js ''local'' \<mapsto> Json sampleConfig]\<rparr>)"
  by (simp add: put_email_config_def existingOf_def sampleConfig_def emptyDb_def secretFields_def spread_def keepSecret_def
        setEmailCfg_run_def JSON_stringify_def maskedLook_def js_def)

lemma sampleStore_is: "sampleStore = emptyDb\<lparr>email_config := [js ''local'' \<mapsto> Json sampleConfig]\<rparr>"
  by (simp add: sampleStore_def sampleStore_eval)

lemma sampleStore_existing: "existingOf sampleStore (js ''local'') = sampleConfig"
  by (simp add: sampleStore_is existingOf_def)

text \<open>
  C10. \<open>maskConfig\<close> answers \<open>null\<close> for \<open>null\<close> (and for any falsy value). On an object
  it changes nothing but the four secret fields: whenever it returns, every other field
  of the result is the field of the input, and a secret field that is absent or empty
  in the input is the same in the result. It does return on every configuration whose
  secret fields, where set, are strings.
\<close>

theorem maskConfig_frame:
  "(\<not> truthy cfg \<longrightarrow> maskConfig nts cfg = Inr JNull)
   \<and> (maskConfig nts (JObj kvs) = Inr r \<longrightarrow>
        (\<forall>k. k \<notin> set secretFields \<longrightarrow> getProp (Some r) k = getProp (Some (JObj kvs)) k)
      \<and> (\<forall>f. \<not> truthyU (getProp (Some (JObj kvs)) f) \<longrightarrow> getProp (Some r) f = getProp (Some (JObj kvs)) f))
   \<and> (secretsAreStrings (JObj kvs) \<longrightarrow> (\<exists>m. maskConfig nts (JObj kvs) = Inr (JObj m)))"
proof (intro conjI impI)
  assume "\<not> truthy cfg"
  then show "maskConfig nts cfg = Inr JNull" by (simp add: maskConfig_def)
next
  assume r: "maskConfig nts (JObj kvs) = Inr r"
  then obtain m where m: "forEachE (maskField nts) secretFields (spread [] (JObj kvs)) = Inr m"
    and rm: "r = JObj m"
    by (auto simp: maskConfig_obj split: sum.splits)
  from forEachE_mask_distinct [OF m spread_obj_distinct]
  have look: "getProp (Some r) = map_of m"
    by (simp add: rm map_of_rev_distinct fun_eq_iff)
  show "\<forall>k. k \<notin> set secretFields \<longrightarrow> getProp (Some r) k = getProp (Some (JObj kvs)) k"
    using forEachE_mask_other [OF m] by (simp add: look spread_obj_lookup)
  show "\<forall>f. \<not> truthyU (getProp (Some (JObj kvs)) f) \<longrightarrow> getProp (Some r) f = getProp (Some (JObj kvs)) f"
    using forEachE_mask_falsy [OF m] by (simp add: look spread_obj_lookup)
next
  assume "secretsAreStrings (JObj kvs)"
  then have "\<forall>f \<in> set secretFields.
      case map_of (spread [] (JObj kvs)) f of None \<Rightarrow> True | Some v \<Rightarrow> \<not> truthy v \<or> isString v"
    by (simp add: secretsAreStrings_def list_all_iff spread_obj_lookup)
  from forEachE_mask_total [OF this, of nts]
  obtain m where "forEachE (maskField nts) secretFields (spread [] (JObj kvs)) = Inr m"
    by blast
  then have "maskConfig nts (JObj kvs) = Inr (JObj m)"
    by (simp add: maskConfig_obj)
  then show "\<exists>m. maskConfig nts (JObj kvs) = Inr (JObj m)" ..
qed

theorem maskConfig_frame_witness:
  "\<not> truthy JNull \<and> maskConfig sampleNumberToString JNull = Inr JNull
   \<and> secretsAreStrings sampleConfig
   \<and> js ''provider'' \<notin> set secretFields
   \<and> \<not> truthyU (getProp (Some sampleConfig) (js ''resendApiKey''))
   \<and> (\<exists>m. maskConfig sampleNumberToString sampleConfig = Inr (JObj m)
         \<and> getProp (Some (JObj m)) (js ''provider'') = Some (JStr (js ''smtp''))
         \<and> getProp (Some (JObj m)) (js ''resendApiKey'') = None)"
proof -
  let ?kvs = "[(js ''provider'', JStr (js ''smtp'')), (js ''fromEmail'', JStr (js ''me@example.org'')),
               (js ''smtpPass'', JStr (js ''hunter22''))]"
  have 1: "\<not> truthy JNull" by simp
  have 2: "secretsAreStrings (JObj ?kvs)"
    by (simp add: secretsAreStrings_def secretFields_def js_def)
  have 3: "js ''provider'' \<notin> set secretFields"
    by (simp add: secretFields_def js_def)
  have 4: "\<not> truthyU (getProp (Some (JObj ?kvs)) (js ''resendApiKey''))"
    by (simp add: js_def)
  have p: "getProp (Some (JObj ?kvs)) (js ''provider'') = Some (JStr (js ''smtp''))"
    and q: "getProp (Some (JObj ?kvs)) (js ''resendApiKey'') = None"
    by (simp_all add: js_def)
  from maskConfig_frame [of JNull sampleNumberToString ?kvs] 1 2
  have n: "maskConfig sampleNumberToString JNull = Inr JNull"
    and "\<exists>m. maskConfig sampleNumberToString (JObj ?kvs) = Inr (JObj m)"
    by blast+
  then obtain m where m: "maskConfig sampleNumberToString (JObj ?kvs) = Inr (JObj m)" by blast
  from maskConfig_frame [of JNull sampleNumberToString ?kvs "JObj m"] m 3 4
  have "getProp (Some (JObj m)) (js ''provider'') = getProp (Some (JObj ?kvs)) (js ''provider'')"
    and "getProp (Some (JObj m)) (js ''resendApiKey'') = getProp (Some (JObj ?kvs)) (js ''resendApiKey'')"
    by blast+
  with p q m have "\<exists>m. maskConfig sampleNumberToString (JObj ?kvs) = Inr (JObj m)
         \<and> getProp (Some (JObj m)) (js ''provider'') = Some (JStr (js ''smtp''))
         \<and> getProp (Some (JObj m)) (js ''resendApiKey'') = None"
    by auto
  with 1 n 2 3 4 show ?thesis
    unfolding sampleConfig_def by (intro conjI)
qed


subsection \<open>Saving a configuration\<close>

lemma Get_getProp: "Get v k = Inr x \<Longrightarrow> x = getProp v k"
  by (cases "(v, k)" rule: Get.cases) auto

lemma keepSecret_other:
  "keepSecret E B g m = Inr m' \<Longrightarrow> k \<noteq> g \<Longrightarrow> map_of m' k = map_of m k"
  by (auto simp: keepSecret_def map_of_setProp map_of_delProp
           split: if_splits sum.splits bool.splits option.splits)

lemma keepSecret_distinct:
  "keepSecret E B g m = Inr m' \<Longrightarrow> distinct (map fst m) \<Longrightarrow> distinct (map fst m')"
  by (auto simp: keepSecret_def distinct_setProp distinct_delProp
           split: if_splits sum.splits bool.splits option.splits)

lemma keepSecret_at:
  assumes "keepSecret E B g m = Inr m'"
  shows "(truthyU (getProp (Some B) g) \<longrightarrow> (\<exists>b. looksMasked (the (getProp (Some B) g)) = Inr b))
       \<and> map_of m' g =
           (if truthyU (getProp (Some B) g) \<and> looksMasked (the (getProp (Some B) g)) = Inr True
            then getProp (Some E) g else map_of m g)"
  using assms
  by (auto simp: keepSecret_def map_of_setProp map_of_delProp
           split: if_splits sum.splits bool.splits option.splits dest: Get_getProp)

lemma forEachE_keep_other:
  "forEachE (keepSecret E B) fs m = Inr m' \<Longrightarrow> k \<notin> set fs \<Longrightarrow> map_of m' k = map_of m k"
proof (induction fs arbitrary: m)
  case Nil
  then show ?case by simp
next
  case (Cons g fs)
  then obtain m1 where 1: "keepSecret E B g m = Inr m1" and 2: "forEachE (keepSecret E B) fs m1 = Inr m'"
    by (auto split: sum.splits)
  from Cons.IH [OF 2] Cons.prems(2) have "map_of m' k = map_of m1 k" by simp
  with keepSecret_other [OF 1, of k] Cons.prems(2) show ?case by simp
qed

lemma forEachE_keep_distinct:
  "forEachE (keepSecret E B) fs m = Inr m' \<Longrightarrow> distinct (map fst m) \<Longrightarrow> distinct (map fst m')"
proof (induction fs arbitrary: m)
  case Nil
  then show ?case by simp
next
  case (Cons g fs)
  then obtain m1 where 1: "keepSecret E B g m = Inr m1" and 2: "forEachE (keepSecret E B) fs m1 = Inr m'"
    by (auto split: sum.splits)
  from keepSecret_distinct [OF 1 Cons.prems(2)] Cons.IH [OF 2] show ?case by blast
qed

lemma forEachE_keep_at:
  "forEachE (keepSecret E B) fs m = Inr m' \<Longrightarrow> distinct fs \<Longrightarrow> f \<in> set fs \<Longrightarrow>
   (truthyU (getProp (Some B) f) \<longrightarrow> (\<exists>b. looksMasked (the (getProp (Some B) f)) = Inr b))
   \<and> map_of m' f =
       (if truthyU (getProp (Some B) f) \<and> looksMasked (the (getProp (Some B) f)) = Inr True
        then getProp (Some E) f else map_of m f)"
proof (induction fs arbitrary: m)
  case Nil
  then show ?case by simp
next
  case (Cons g fs)
  then obtain m1 where 1: "keepSecret E B g m = Inr m1" and 2: "forEachE (keepSecret E B) fs m1 = Inr m'"
    by (auto split: sum.splits)
  show ?case
  proof (cases "f = g")
    case True
    with Cons.prems(2) have "f \<notin> set fs" by simp
    from forEachE_keep_other [OF 2 this] have "map_of m' f = map_of m1 f" .
    with keepSecret_at [OF 1] True show ?thesis by simp
  next
    case False
    with keepSecret_other [OF 1] have "map_of m1 f = map_of m f" by simp
    with False Cons.prems Cons.IH [OF 2] show ?thesis by simp
  qed
qed

lemma forEachE_keep_total:
  assumes "\<forall>f \<in> set fs. case getProp (Some B) f of None \<Rightarrow> True | Some v \<Rightarrow> \<not> truthy v \<or> isString v"
    and "E \<noteq> JNull"
  shows "\<exists>m'. forEachE (keepSecret E B) fs m = Inr m'"
  using assms(1)
proof (induction fs arbitrary: m)
  case Nil
  then show ?case by simp
next
  case (Cons g fs)
  have "\<exists>m1. keepSecret E B g m = Inr m1"
  proof (cases "truthyU (getProp (Some B) g)")
    case False
    then show ?thesis by (simp add: keepSecret_def)
  next
    case True
    with Cons.prems obtain s where s: "getProp (Some B) g = Some (JStr s)"
      by (cases "getProp (Some B) g"; cases "the (getProp (Some B) g)") auto
    from assms(2) obtain x where "Get (Some E) g = Inr x"
      by (cases E) auto
    with s True show ?thesis
      by (cases x; cases "str_includes s maskedLook") (auto simp: keepSecret_def)
  qed
  then obtain m1 where 1: "keepSecret E B g m = Inr m1" by blast
  from Cons.prems have "\<forall>f \<in> set fs. case getProp (Some B) f of None \<Rightarrow> True | Some v \<Rightarrow> \<not> truthy v \<or> isString v"
    by simp
  from Cons.IH [OF this, of m1] 1 show ?case by auto
qed

lemma ok_neq: "badRequest msg \<noteq> ok" "Uncaught e \<noteq> ok"
  by (simp_all add: badRequest_def ok_def)

lemma put_email_config_cases:
  obtains (saved) merged where
      "put_email_config fs uid body d
         = (ok, d\<lparr>email_config := (email_config d)(uid \<mapsto> Json (stringified (JObj merged)))\<rparr>)"
      "forEachE (keepSecret (existingOf d uid) body) secretFields
         (spread (spread [] (existingOf d uid)) body) = Inr merged"
      "truthyU (getProp (Some body) (js ''provider''))"
      "True \<notin> set (take 1 fs)"
    | (refused) r where "put_email_config fs uid body d = (r, d)" "r \<noteq> ok"
proof (cases "\<not> truthy body \<or> \<not> truthyU (getProp (Some body) (js ''provider''))")
  case True
  then have "put_email_config fs uid body d = (badRequest ''provider required'', d)"
    by (simp add: put_email_config_def)
  from this ok_neq(1) show ?thesis by (rule refused)
next
  case valid: False
  show ?thesis
  proof (cases "forEachE (keepSecret (existingOf d uid) body) secretFields
                  (spread (spread [] (existingOf d uid)) body)")
    case (Inl e)
    with valid have "put_email_config fs uid body d = (Uncaught e, d)"
      by (simp add: put_email_config_def existingOf_def)
    from this ok_neq(2) show ?thesis by (rule refused)
  next
    case (Inr merged)
    show ?thesis
    proof (cases "True \<in> set (take 1 fs)")
      case True
      with valid Inr have "put_email_config fs uid body d = (Uncaught SqliteError, d)"
        by (simp add: put_email_config_def existingOf_def setEmailCfg_run_def run_fault)
      from this ok_neq(2) show ?thesis by (rule refused)
    next
      case False
      with valid Inr
      have "put_email_config fs uid body d
              = (ok, d\<lparr>email_config := (email_config d)(uid \<mapsto> Json (stringified (JObj merged)))\<rparr>)"
        by (simp add: put_email_config_def existingOf_def setEmailCfg_run_def run_no_fault JSON_stringify_def
                 del: stringified.simps)
      with Inr valid False show ?thesis by (intro saved) auto
    qed
  qed
qed

lemma forEntries_email_config:
  assumes "\<And>k c x. email_config (w k c x) = email_config x"
  shows "forEntries (\<lambda>k c. run (w k c)) es d fs = (r, d', fs') \<Longrightarrow> email_config d' = email_config d"
proof (induction es arbitrary: d fs)
  case Nil
  then show ?case by simp
next
  case (Cons e es)
  obtain k v where e: "e = (k, v)" by (cases e)
  obtain r1 d1 fs1 where 1: "run (w k (JSON_stringify v)) d fs = (r1, d1, fs1)"
    by (cases "run (w k (JSON_stringify v)) d fs") auto
  from run_result [OF 1] assms have d1: "email_config d1 = email_config d"
    by (cases r1) simp_all
  show ?case
  proof (cases r1)
    case (Inl x)
    with Cons.prems e 1 have "d' = d1" by simp
    with d1 show ?thesis by simp
  next
    case (Inr u)
    with Cons.prems e 1 have "forEntries (\<lambda>k c. run (w k c)) es d1 fs1 = (r, d', fs')" by simp
    from Cons.IH [OF this] d1 show ?thesis by simp
  qed
qed

lemma email_config_put_state: "email_config (snd (put_state fs uid body d)) = email_config d"
proof -
  obtain r d' fs' where 1: "forEntries (setState_run uid) (ownProps body) d fs = (r, d', fs')"
    by (cases "forEntries (setState_run uid) (ownProps body) d fs") auto
  then have "forEntries (\<lambda>k c. run (\<lambda>d. d\<lparr>user_state := (user_state d)((uid, k) \<mapsto> c)\<rparr>))
               (ownProps body) d fs = (r, d', fs')"
    unfolding setState_run_def by simp
  then have "email_config d' = email_config d"
    by (rule forEntries_email_config [rotated]) simp
  with 1 show ?thesis
    by (cases r) (simp_all add: put_state_def transaction_def saveMany_def)
qed

lemma email_config_importAll:
  assumes a: "importAll uid s m d fs = (r, d', fs')"
  shows "email_config d' = email_config d"
proof -
  define r1 where "r1 = (if truthyU s then forEntries (setState_run uid) (ownProps (the s)) d fs else (Inr (), d, fs))"
  obtain x1 d1 fs1 where 1: "r1 = (x1, d1, fs1)" by (cases r1) auto
  have e1: "email_config d1 = email_config d"
  proof (cases "truthyU s")
    case True
    with 1 have "forEntries (\<lambda>k c. run (\<lambda>d. d\<lparr>user_state := (user_state d)((uid, k) \<mapsto> c)\<rparr>))
                      (ownProps (the s)) d fs = (x1, d1, fs1)"
      unfolding r1_def setState_run_def by simp
    then show ?thesis by (rule forEntries_email_config [rotated]) simp
  next
    case False
    with 1 show ?thesis by (simp add: r1_def)
  qed
  show ?thesis
  proof (cases x1)
    case (Inl e)
    with a 1 have "d' = d1" unfolding importAll_def r1_def [symmetric] by simp
    with e1 show ?thesis by simp
  next
    case (Inr u)
    with a 1 have 2: "(if truthyU m then forEntries (setMonth_run uid) (ownProps (the m)) d1 fs1
                       else (Inr (), d1, fs1)) = (r, d', fs')"
      unfolding importAll_def r1_def [symmetric] by simp
    have "email_config d' = email_config d1"
    proof (cases "truthyU m")
      case True
      with 2 have "forEntries (\<lambda>k c. run (\<lambda>d. d\<lparr>monthly_data := (monthly_data d)((uid, k) \<mapsto> c)\<rparr>))
                        (ownProps (the m)) d1 fs1 = (r, d', fs')"
        unfolding setMonth_run_def by simp
      then show ?thesis by (rule forEntries_email_config [rotated]) simp
    next
      case False
      with 2 show ?thesis by simp
    qed
    with e1 show ?thesis by simp
  qed
qed

lemma email_config_post_import: "email_config (snd (post_import fs uid body d)) = email_config d"
proof -
  obtain r d' fs' where 1:
    "importAll uid (getProp (Some body) (js ''state'')) (getProp (Some body) (js ''monthly'')) d fs = (r, d', fs')"
    by (cases "importAll uid (getProp (Some body) (js ''state'')) (getProp (Some body) (js ''monthly'')) d fs")
       auto
  from email_config_importAll [OF 1] have "email_config d' = email_config d" .
  with 1 show ?thesis
    by (cases r) (simp_all add: post_import_def transaction_def)
qed

lemma email_config_single:
  "email_config (snd (patch_state fs uid key body d)) = email_config d"
  "email_config (snd (put_month fs uid key body d)) = email_config d"
  "email_config (snd (delete_month fs uid key d)) = email_config d"
  by (auto simp: patch_state_def put_month_def delete_month_def setState_run_def setMonth_run_def
        deleteMonth_run_def split: prod.splits sum.splits dest!: run_result)

lemma cleanSecret_incoming:
  assumes "truthyU (Some v) \<longrightarrow> looksMasked v = Inr False"
  shows "cleanSecret (Some v)"
proof (cases v)
  case (JStr s)
  with assms show ?thesis
    by (cases "s = []") (auto simp: cleanSecret_def maskedLook_def)
qed (simp_all add: cleanSecret_def)

lemma cleanSecret_stringified: "cleanSecret (map_option stringified v) = cleanSecret v"
proof (cases v)
  case None
  then show ?thesis by simp
next
  case (Some x)
  then show ?thesis
    by (cases x) (auto simp: cleanSecret_def split: number.splits)
qed

lemma saved_row_clean:
  assumes E: "distinct (map fst ekvs)" "\<forall>f \<in> set secretFields. cleanSecret (map_of ekvs f)"
    and m: "forEachE (keepSecret (JObj ekvs) body) secretFields (spread (spread [] (JObj ekvs)) body) = Inr merged"
    and p: "truthyU (getProp (Some body) (js ''provider''))"
  shows "cleanRow (Json (stringified (JObj merged)))"
proof -
  from p obtain bkvs where body: "body = JObj bkvs"
    by (cases body) auto
  have d: "distinct (map fst merged)"
    by (rule forEachE_keep_distinct [OF m]) (simp add: distinct_spread)
  have "cleanSecret (map_of merged f)" if f: "f \<in> set secretFields" for f
  proof -
    let ?b = "getProp (Some body) f"
    note at = forEachE_keep_at [OF m distinct_secretFields f]
    show ?thesis
    proof (cases "truthyU ?b \<and> looksMasked (the ?b) = Inr True")
      case True
      with at have "map_of merged f = map_of (rev ekvs) f" by simp
      with E f show ?thesis by (simp add: map_of_rev_distinct)
    next
      case False
      with at have eq: "map_of merged f = map_of (spread (spread [] (JObj ekvs)) body) f" by simp
      show ?thesis
      proof (cases "map_of (rev (ownProps body)) f")
        case None
        with eq have "map_of merged f = map_of (rev ekvs) f"
          by (simp add: map_of_spread map_add_def)
        with E f show ?thesis by (simp add: map_of_rev_distinct)
      next
        case (Some v)
        with eq have mv: "map_of merged f = Some v"
          by (simp add: map_of_spread map_add_def)
        from Some have bv: "?b = Some v"
          by (simp add: body)
        with at False have "truthyU (Some v) \<longrightarrow> looksMasked v = Inr False"
          by auto
        then show ?thesis unfolding mv by (rule cleanSecret_incoming)
      qed
    qed
  qed
  then have cs: "\<forall>f \<in> set secretFields. cleanSecret (map_of (map (\<lambda>(k, v). (k, stringified v)) merged) f)"
    by (simp add: map_of_map cleanSecret_stringified)
  have keys: "map fst (map (\<lambda>(k, v). (k, stringified v)) merged) = map fst merged"
    by (induction merged) auto
  have dk: "distinct (map fst (map (\<lambda>(k, v). (k, stringified v)) merged))"
    unfolding keys by (rule d)
  have fin: "finiteNumbers (JObj (map (\<lambda>(k, v). (k, stringified v)) merged))"
    using finite_stringified [of "JObj merged"] by simp
  have "cleanRow (Json (JObj (map (\<lambda>(k, v). (k, stringified v)) merged)))"
    unfolding cleanRow_def list_all_iff cell.case json.case
    using dk cs fin by (intro conjI)
  then show ?thesis by simp
qed

lemma cleanConfigs_existing:
  assumes "cleanConfigs d"
  obtains ekvs where "existingOf d uid = JObj ekvs" "distinct (map fst ekvs)"
    "\<forall>f \<in> set secretFields. cleanSecret (map_of ekvs f)"
proof (cases "email_config d uid")
  case None
  then have "existingOf d uid = JObj []" by (simp add: existingOf_def)
  then show ?thesis by (rule that) (simp_all add: cleanSecret_def)
next
  case (Some row)
  with assms have "cleanRow row" by (simp add: cleanConfigs_def)
  then obtain ekvs where "row = Json (JObj ekvs)" "distinct (map fst ekvs)"
    "\<forall>f \<in> set secretFields. cleanSecret (map_of ekvs f)"
    by (auto simp: cleanRow_def list_all_iff split: cell.splits json.splits)
  with Some show ?thesis by (intro that [of ekvs]) (simp_all add: existingOf_def)
qed

lemma cleanConfigs_put_email_config:
  assumes "cleanConfigs d"
  shows "cleanConfigs (snd (put_email_config fs uid body d))"
proof (cases rule: put_email_config_cases [of fs uid body d])
  case (refused r)
  with assms show ?thesis by simp
next
  case (saved merged)
  from assms obtain ekvs where E: "existingOf d uid = JObj ekvs" "distinct (map fst ekvs)"
    "\<forall>f \<in> set secretFields. cleanSecret (map_of ekvs f)"
    by (rule cleanConfigs_existing)
  from saved(2) have "forEachE (keepSecret (JObj ekvs) body) secretFields
      (spread (spread [] (JObj ekvs)) body) = Inr merged"
    by (simp add: E(1))
  from E(2,3) this saved(3) have "cleanRow (Json (stringified (JObj merged)))"
    by (rule saved_row_clean)
  with assms saved(1) show ?thesis
    by (simp add: cleanConfigs_def)
qed

lemma reachable_clean: "reachable d \<Longrightarrow> cleanConfigs d"
proof (induction rule: reachable.induct)
  case start
  show ?case by (simp add: cleanConfigs_def emptyDb_def)
next
  case (step d fs uid r n w)
  show ?case
  proof (cases "express_json n w")
    case (Inl e)
    with step.IH show ?thesis by (simp add: receive_def)
  next
    case (Inr body)
    show ?thesis
    proof (cases r)
      case PUT_email_config
      with step.IH Inr show ?thesis by (simp add: receive_def cleanConfigs_put_email_config)
    qed (use step.IH Inr in \<open>simp_all add: receive_def cleanConfigs_def email_config_put_state
          email_config_post_import email_config_single\<close>)
  qed
qed

lemma storedField_existing: "storedField d uid f = getProp (Some (existingOf d uid)) f"
  by (cases "email_config d uid"; cases "the (email_config d uid)")
     (simp_all add: storedField_def existingOf_def)

lemma looks_masked_nonempty: "str_includes s maskedLook \<Longrightarrow> s \<noteq> []"
  by (auto simp: maskedLook_def)

lemma saved_lookup:
  assumes "forEachE (keepSecret E body) secretFields (spread (spread [] E) body) = Inr merged"
    and "f \<in> set secretFields"
  shows "getProp (Some (JObj merged)) f =
           (if truthyU (getProp (Some body) f) \<and> looksMasked (the (getProp (Some body) f)) = Inr True
            then getProp (Some E) f
            else map_of (spread (spread [] E) body) f)"
proof -
  have "distinct (map fst merged)"
    by (rule forEachE_keep_distinct [OF assms(1)]) (simp add: distinct_spread)
  then have "getProp (Some (JObj merged)) f = map_of merged f"
    by (simp add: map_of_rev_distinct)
  with forEachE_keep_at [OF assms(1) distinct_secretFields assms(2)] show ?thesis
    by simp
qed

lemma finite_setProp:
  "list_all (\<lambda>(k, v). finiteNumbers v) kvs \<Longrightarrow> finiteNumbers v \<Longrightarrow>
   list_all (\<lambda>(k, v). finiteNumbers v) (setProp k v kvs)"
  by (induction kvs) auto

lemma finite_fold_setProp:
  "list_all (\<lambda>(k, v). finiteNumbers v) t \<Longrightarrow> list_all (\<lambda>(k, v). finiteNumbers v) es \<Longrightarrow>
   list_all (\<lambda>(k, v). finiteNumbers v) (fold (\<lambda>(k, v). setProp k v) es t)"
  by (induction es arbitrary: t) (auto simp: finite_setProp)

lemma finite_maskField:
  "maskField nts g m = Inr m' \<Longrightarrow> list_all (\<lambda>(k, v). finiteNumbers v) m \<Longrightarrow>
   list_all (\<lambda>(k, v). finiteNumbers v) m'"
  by (auto simp: maskField_def finite_setProp split: if_splits sum.splits)

lemma finite_forEachE_mask:
  "forEachE (maskField nts) fs m = Inr m' \<Longrightarrow> list_all (\<lambda>(k, v). finiteNumbers v) m \<Longrightarrow>
   list_all (\<lambda>(k, v). finiteNumbers v) m'"
proof (induction fs arbitrary: m)
  case Nil
  then show ?case by simp
next
  case (Cons g fs)
  then obtain m1 where 1: "maskField nts g m = Inr m1" and 2: "forEachE (maskField nts) fs m1 = Inr m'"
    by (auto split: sum.splits)
  from finite_maskField [OF 1 Cons.prems(2)] Cons.IH [OF 2] show ?case by blast
qed

lemma maskConfig_finite:
  assumes "maskConfig nts (JObj kvs) = Inr (JObj m)" and "finiteNumbers (JObj kvs)"
  shows "finiteNumbers (JObj m)"
proof -
  from assms(1) have m: "forEachE (maskField nts) secretFields (spread [] (JObj kvs)) = Inr m"
    by (auto simp: maskConfig_obj split: sum.splits)
  from assms(2) have "list_all (\<lambda>(k, v). finiteNumbers v) (spread [] (JObj kvs))"
    by (simp add: spread_def finite_fold_setProp)
  from finite_forEachE_mask [OF m this] show ?thesis by simp
qed

lemma oddStore_eval:
  "oddStore = emptyDb\<lparr>email_config := (email_config emptyDb)(js ''local'' \<mapsto> Json oddConfig)\<rparr>"
proof -
  have "express_json 79 oddConfig = Inr oddConfig"
    by (simp add: express_json_def oddConfig_def toDouble_one enumerated_def isArrayIndex_def js_def)
  then have "oddStore = snd (put_email_config [] (js ''local'') oddConfig emptyDb)"
    by (simp add: oddStore_def receive_def)
  also have "\<dots> = emptyDb\<lparr>email_config := (email_config emptyDb)(js ''local'' \<mapsto> Json oddConfig)\<rparr>"
    by (simp add: put_email_config_def existingOf_def oddConfig_def emptyDb_def secretFields_def spread_def
          keepSecret_def setEmailCfg_run_def JSON_stringify_def maskedLook_def js_def)
  finally show ?thesis .
qed

text \<open>
  C1, as stated, fails. Beside a secret that is a string of ten characters, another
  secret field holds an array that the save stores but \<open>maskConfig\<close> cannot convert to a
  string: \<open>maskConfig\<close> throws, the read answers \<open>null\<close>, and the string secret is not shown
  as its first four characters and the marker.
\<close>

theorem odd_secret_blanks_masked_config:
  "reachable oddStore
   \<and> email_config oddStore (js ''local'') = Some (Json oddConfig)
   \<and> js ''mailgunApiKey'' \<in> set secretFields
   \<and> getProp (Some oddConfig) (js ''mailgunApiKey'') = Some (JStr (js ''key-abcdef''))
   \<and> 4 \<le> length (js ''key-abcdef'')
   \<and> maskConfig sampleNumberToString oddConfig = Inl TypeError
   \<and> get_email_config sampleNumberToString oddStore (js ''local'') = JNull"
proof -
  have 1: "reachable oddStore"
    unfolding oddStore_def by (rule reachable.step [OF reachable.start])
  have 2: "email_config oddStore (js ''local'') = Some (Json oddConfig)"
    by (simp add: oddStore_eval)
  have 3: "js ''mailgunApiKey'' \<in> set secretFields"
    by (simp add: secretFields_def)
  have 4: "getProp (Some oddConfig) (js ''mailgunApiKey'') = Some (JStr (js ''key-abcdef''))"
    by (simp add: oddConfig_def js_def)
  have 5: "4 \<le> length (js ''key-abcdef'')"
    by (simp add: js_def)
  have 6: "maskConfig sampleNumberToString oddConfig = Inl TypeError"
    by (simp add: maskConfig_def maskField_def oddConfig_def secretFields_def spread_def js_def)
  from 2 6 have 7: "get_email_config sampleNumberToString oddStore (js ''local'') = JNull"
    by (simp add: get_email_config_def res_json_def)
  from 1 2 3 4 5 6 7 show ?thesis
    by (intro conjI)
qed

text \<open>
  C1, amended. Take a configuration stored by the program, of the shape that \<open>email.js\<close>
  documents (a secret field that is set is a string), in which a secret field is a string
  of at least four characters. The read of the configuration is \<open>maskConfig\<close> of it, and
  shows that field as its first four characters followed by the redaction marker, which
  is never the secret itself (the save never stores a string that looks masked).
\<close>

theorem masked_secret_shown:
  assumes "reachable d" and "email_config d uid = Some (Json cfg)" and "secretsAreStrings cfg"
    and "f \<in> set secretFields" and "getProp (Some cfg) f = Some (JStr s)" and "4 \<le> length s"
  shows "maskConfig nts cfg = Inr (get_email_config nts d uid)
       \<and> getProp (Some (get_email_config nts d uid)) f = Some (JStr (take 4 s @ redactionMarker))
       \<and> take 4 s @ redactionMarker \<noteq> s"
proof -
  from reachable_clean [OF assms(1)] assms(2) have "cleanRow (Json cfg)"
    by (simp add: cleanConfigs_def)
  then obtain kvs where cfg: "cfg = JObj kvs" and d: "distinct (map fst kvs)"
    and c: "\<forall>f \<in> set secretFields. cleanSecret (map_of kvs f)"
    and fin: "finiteNumbers (JObj kvs)"
    by (auto simp: cleanRow_def list_all_iff split: json.splits)
  from assms(6) have ne: "s \<noteq> []" by auto
  from maskConfig_secret [OF assms(3) [unfolded cfg] assms(4) assms(5) [unfolded cfg] ne, of nts]
  obtain m where m: "maskConfig nts (JObj kvs) = Inr (JObj m)"
    and g: "getProp (Some (JObj m)) f = Some (JStr (take 4 s @ redactionMarker))"
    by blast
  from maskConfig_finite [OF m fin] have "stringified (JObj m) = JObj m"
    by (rule stringified_finite)
  with m assms(2) have r: "get_email_config nts d uid = JObj m"
    by (simp add: get_email_config_def cfg res_json_def del: stringified.simps)
  from assms(5) d have "map_of kvs f = Some (JStr s)"
    by (simp add: cfg map_of_rev_distinct)
  with c assms(4) have "\<not> str_includes s maskedLook"
    by (auto simp: cleanSecret_def)
  with masked_eq_looks_masked have "take 4 s @ redactionMarker \<noteq> s"
    by blast
  with m g r show ?thesis by (simp add: cfg)
qed

theorem masked_secret_shown_witness:
  "reachable sampleStore
   \<and> email_config sampleStore (js ''local'') = Some (Json sampleConfig)
   \<and> secretsAreStrings sampleConfig
   \<and> js ''smtpPass'' \<in> set secretFields
   \<and> getProp (Some sampleConfig) (js ''smtpPass'') = Some (JStr (js ''hunter22''))
   \<and> 4 \<le> length (js ''hunter22'')
   \<and> getProp (Some (get_email_config sampleNumberToString sampleStore (js ''local''))) (js ''smtpPass'')
        = Some (JStr (js ''hunt'' @ redactionMarker))"
proof -
  have "express_json 70 sampleConfig = Inr sampleConfig"
    by (simp add: express_json_def sampleConfig_def enumerated_def isArrayIndex_def js_def)
  from reachable_serve [OF reachable.start this, of "[]" "js ''local''" PUT_email_config]
  have 1: "reachable sampleStore"
    by (simp add: sampleStore_def)
  have 2: "email_config sampleStore (js ''local'') = Some (Json sampleConfig)"
    by (simp add: sampleStore_def sampleStore_eval)
  have 3: "secretsAreStrings sampleConfig"
    by (simp add: secretsAreStrings_def sampleConfig_def secretFields_def js_def)
  have 4: "js ''smtpPass'' \<in> set secretFields"
    by (simp add: secretFields_def)
  have 5: "getProp (Some sampleConfig) (js ''smtpPass'') = Some (JStr (js ''hunter22''))"
    by (simp add: sampleConfig_def js_def)
  have 6: "4 \<le> length (js ''hunter22'')"
    by (simp add: js_def)
  from masked_secret_shown [OF 1 2 3 4 5 6, of sampleNumberToString]
  have "getProp (Some (get_email_config sampleNumberToString sampleStore (js ''local''))) (js ''smtpPass'')
        = Some (JStr (js ''hunt'' @ redactionMarker))"
    by (simp add: js_def)
  with 1 2 3 4 5 6 show ?thesis by (intro conjI)
qed

text \<open>
  C2, as stated, fails: the save tests for four bullets, not for the redaction marker
  of twelve. An incoming secret with four bullets in it does not contain the marker, and
  yet the save succeeds and leaves the stored secret in place.
\<close>

theorem masked_look_blocks_new_secret:
  "\<not> str_includes (js ''ab'' @ maskedLook @ js ''cd'') redactionMarker
   \<and> storedField sampleStore (js ''local'') (js ''smtpPass'') = Some (JStr (js ''hunter22''))
   \<and> fst (put_email_config [] (js ''local'')
        (JObj [(js ''provider'', JStr (js ''smtp'')), (js ''smtpPass'', JStr (js ''ab'' @ maskedLook @ js ''cd''))])
        sampleStore) = ok
   \<and> storedField (snd (put_email_config [] (js ''local'')
        (JObj [(js ''provider'', JStr (js ''smtp'')), (js ''smtpPass'', JStr (js ''ab'' @ maskedLook @ js ''cd''))])
        sampleStore)) (js ''local'') (js ''smtpPass'') = Some (JStr (js ''hunter22''))"
proof -
  have 1: "\<not> str_includes (js ''ab'' @ maskedLook @ js ''cd'') redactionMarker"
    by (simp add: maskedLook_def redactionMarker_def js_def)
  have 2: "storedField sampleStore (js ''local'') (js ''smtpPass'') = Some (JStr (js ''hunter22''))"
    by (simp add: sampleStore_is storedField_def sampleConfig_def js_def)
  have 3: "put_email_config [] (js ''local'')
        (JObj [(js ''provider'', JStr (js ''smtp'')), (js ''smtpPass'', JStr (js ''ab'' @ maskedLook @ js ''cd''))])
        sampleStore = (ok, sampleStore\<lparr>email_config := (email_config sampleStore)(js ''local'' \<mapsto> Json sampleConfig)\<rparr>)"
    unfolding put_email_config_def sampleStore_existing
    by (simp add: secretFields_def spread_def keepSecret_def
          setEmailCfg_run_def JSON_stringify_def maskedLook_def sampleConfig_def js_def)
  from 1 2 show ?thesis
    unfolding 3 by (simp add: storedField_def sampleConfig_def js_def)
qed

text \<open>
  C2, amended. Let the incoming value of a secret field be a string. If it contains four
  consecutive bullets (as every string that contains the redaction marker does), the
  stored value of that field is after the call what it was before; this is said of a
  stored value in which every number is finite, as it is in every value that a save has
  written (the save writes the configuration anew, and would write any other number as
  \<open>null\<close>). If it does not and the save succeeds, the stored value is the incoming one.
  The save succeeds when the tenant has a stored configuration, the body names a
  provider, its secret fields are strings where set, and the write statement does not
  fail.
\<close>

theorem save_keeps_or_replaces_secret:
  assumes "f \<in> set secretFields" and "getProp (Some body) f = Some (JStr s)"
  shows "((str_includes s maskedLook \<or> str_includes s redactionMarker)
            \<and> (\<forall>v. storedField d uid f = Some v \<longrightarrow> finiteNumbers v) \<longrightarrow>
            storedField (snd (put_email_config fs uid body d)) uid f = storedField d uid f)
       \<and> (\<not> str_includes s maskedLook \<and> fst (put_email_config fs uid body d) = ok \<longrightarrow>
            storedField (snd (put_email_config fs uid body d)) uid f = Some (JStr s))
       \<and> ((\<exists>ekvs. email_config d uid = Some (Json (JObj ekvs)))
            \<and> truthyU (getProp (Some body) (js ''provider'')) \<and> secretsAreStrings body
            \<and> True \<notin> set (take 1 fs) \<longrightarrow>
            fst (put_email_config fs uid body d) = ok)"
proof (intro conjI impI)
  assume a: "(str_includes s maskedLook \<or> str_includes s redactionMarker)
            \<and> (\<forall>v. storedField d uid f = Some v \<longrightarrow> finiteNumbers v)"
  then have masked: "str_includes s maskedLook"
    by (auto dest: redactionMarker_looks_masked)
  from a have fin: "map_option stringified (storedField d uid f) = storedField d uid f"
    by (cases "storedField d uid f") (simp_all add: stringified_finite)
  show "storedField (snd (put_email_config fs uid body d)) uid f = storedField d uid f"
  proof (cases rule: put_email_config_cases [of fs uid body d])
    case (refused r)
    then show ?thesis by simp
  next
    case (saved merged)
    from masked assms(2) looks_masked_nonempty [OF masked]
    have "truthyU (getProp (Some body) f) \<and> looksMasked (the (getProp (Some body) f)) = Inr True"
      by simp
    with saved_lookup [OF saved(2) assms(1)]
    have "getProp (Some (JObj merged)) f = getProp (Some (existingOf d uid)) f"
      by simp
    moreover have "storedField (d\<lparr>email_config := (email_config d)(uid \<mapsto> Json (stringified (JObj merged)))\<rparr>) uid f
            = map_option stringified (getProp (Some (JObj merged)) f)"
      by (simp add: storedField_def getProp_stringified del: getProp.simps stringified.simps)
    ultimately show ?thesis
      using saved(1) fin by (simp add: storedField_existing [of d] del: getProp.simps stringified.simps)
  qed
next
  assume a: "\<not> str_includes s maskedLook \<and> fst (put_email_config fs uid body d) = ok"
  show "storedField (snd (put_email_config fs uid body d)) uid f = Some (JStr s)"
  proof (cases rule: put_email_config_cases [of fs uid body d])
    case (refused r)
    with a show ?thesis by simp
  next
    case (saved merged)
    from assms(2) obtain bkvs where body: "body = JObj bkvs"
      by (cases body) auto
    from a assms(2)
    have "\<not> (truthyU (getProp (Some body) f) \<and> looksMasked (the (getProp (Some body) f)) = Inr True)"
      by simp
    with saved_lookup [OF saved(2) assms(1)]
    have "getProp (Some (JObj merged)) f = map_of (spread (spread [] (existingOf d uid)) body) f"
      by simp
    also from assms(2) have "\<dots> = Some (JStr s)"
      by (simp add: map_of_spread body)
    finally have "map_option stringified (getProp (Some (JObj merged)) f) = Some (JStr s)"
      by simp
    then show ?thesis using saved(1)
      by (simp add: storedField_def getProp_stringified del: getProp.simps stringified.simps)
  qed
next
  assume a: "(\<exists>ekvs. email_config d uid = Some (Json (JObj ekvs)))
            \<and> truthyU (getProp (Some body) (js ''provider'')) \<and> secretsAreStrings body
            \<and> True \<notin> set (take 1 fs)"
  then obtain ekvs where E: "existingOf d uid = JObj ekvs"
    by (auto simp: existingOf_def)
  from a have "\<forall>f \<in> set secretFields. case getProp (Some body) f of None \<Rightarrow> True | Some v \<Rightarrow> \<not> truthy v \<or> isString v"
    by (simp add: secretsAreStrings_def list_all_iff)
  from forEachE_keep_total [OF this, of "existingOf d uid" "spread (spread [] (existingOf d uid)) body"] E
  obtain merged where m: "forEachE (keepSecret (existingOf d uid) body) secretFields
      (spread (spread [] (existingOf d uid)) body) = Inr merged"
    by auto
  from a obtain bkvs where body: "body = JObj bkvs"
    by (cases body) auto
  from a m show "fst (put_email_config fs uid body d) = ok"
    by (simp add: put_email_config_def existingOf_def [symmetric] setEmailCfg_run_def run_no_fault body
             del: getProp.simps)
qed

theorem save_keeps_or_replaces_secret_witness:
  "js ''smtpPass'' \<in> set secretFields
   \<and> getProp (Some (JObj [(js ''provider'', JStr (js ''smtp'')), (js ''smtpPass'', JStr (js ''hunt'' @ redactionMarker))]))
        (js ''smtpPass'') = Some (JStr (js ''hunt'' @ redactionMarker))
   \<and> str_includes (js ''hunt'' @ redactionMarker) redactionMarker
   \<and> storedField sampleStore (js ''local'') (js ''smtpPass'') = Some (JStr (js ''hunter22''))
   \<and> finiteNumbers (JStr (js ''hunter22''))
   \<and> storedField (snd (put_email_config [] (js ''local'')
        (JObj [(js ''provider'', JStr (js ''smtp'')), (js ''smtpPass'', JStr (js ''hunt'' @ redactionMarker))])
        sampleStore)) (js ''local'') (js ''smtpPass'') = Some (JStr (js ''hunter22''))
   \<and> getProp (Some (JObj [(js ''provider'', JStr (js ''smtp'')), (js ''smtpPass'', JStr (js ''s3cret''))]))
        (js ''smtpPass'') = Some (JStr (js ''s3cret''))
   \<and> \<not> str_includes (js ''s3cret'') maskedLook
   \<and> email_config sampleStore (js ''local'') = Some (Json sampleConfig)
   \<and> truthyU (getProp (Some (JObj [(js ''provider'', JStr (js ''smtp'')), (js ''smtpPass'', JStr (js ''s3cret''))]))
        (js ''provider''))
   \<and> secretsAreStrings (JObj [(js ''provider'', JStr (js ''smtp'')), (js ''smtpPass'', JStr (js ''s3cret''))])
   \<and> True \<notin> set (take 1 [])
   \<and> fst (put_email_config [] (js ''local'')
        (JObj [(js ''provider'', JStr (js ''smtp'')), (js ''smtpPass'', JStr (js ''s3cret''))]) sampleStore) = ok
   \<and> storedField (snd (put_email_config [] (js ''local'')
        (JObj [(js ''provider'', JStr (js ''smtp'')), (js ''smtpPass'', JStr (js ''s3cret''))])
        sampleStore)) (js ''local'') (js ''smtpPass'') = Some (JStr (js ''s3cret''))"
proof -
  let ?masked = "JObj [(js ''provider'', JStr (js ''smtp'')), (js ''smtpPass'', JStr (js ''hunt'' @ redactionMarker))]"
  let ?fresh = "JObj [(js ''provider'', JStr (js ''smtp'')), (js ''smtpPass'', JStr (js ''s3cret''))]"
  have f: "js ''smtpPass'' \<in> set secretFields"
    by (simp add: secretFields_def)
  have g1: "getProp (Some ?masked) (js ''smtpPass'') = Some (JStr (js ''hunt'' @ redactionMarker))"
    by (simp add: js_def)
  have i1: "str_includes (js ''hunt'' @ redactionMarker) redactionMarker"
    by (simp add: redactionMarker_def js_def)
  have old: "storedField sampleStore (js ''local'') (js ''smtpPass'') = Some (JStr (js ''hunter22''))"
    by (simp add: sampleStore_is storedField_def sampleConfig_def js_def)
  have g2: "getProp (Some ?fresh) (js ''smtpPass'') = Some (JStr (js ''s3cret''))"
    by (simp add: js_def)
  have i2: "\<not> str_includes (js ''s3cret'') maskedLook"
    by (simp add: maskedLook_def js_def)
  have e: "email_config sampleStore (js ''local'') = Some (Json sampleConfig)"
    by (simp add: sampleStore_is)
  then have e': "\<exists>ekvs. email_config sampleStore (js ''local'') = Some (Json (JObj ekvs))"
    by (simp add: sampleConfig_def)
  have p: "truthyU (getProp (Some ?fresh) (js ''provider''))"
    by (simp add: js_def)
  have t: "secretsAreStrings ?fresh"
    by (simp add: secretsAreStrings_def secretFields_def js_def)
  have n: "True \<notin> set (take 1 [])"
    by simp
  from old have fin: "\<forall>v. storedField sampleStore (js ''local'') (js ''smtpPass'') = Some v \<longrightarrow> finiteNumbers v"
    by simp
  from save_keeps_or_replaces_secret [OF f g1, where fs = "[]" and uid = "js ''local''" and d = sampleStore] i1 fin old
  have r1: "storedField (snd (put_email_config [] (js ''local'') ?masked sampleStore)) (js ''local'') (js ''smtpPass'')
        = Some (JStr (js ''hunter22''))"
    by simp
  note fresh = save_keeps_or_replaces_secret [OF f g2, where fs = "[]" and uid = "js ''local''" and d = sampleStore]
  from fresh e' p t n have r2: "fst (put_email_config [] (js ''local'') ?fresh sampleStore) = ok"
    by blast
  with fresh i2
  have r3: "storedField (snd (put_email_config [] (js ''local'') ?fresh sampleStore)) (js ''local'') (js ''smtpPass'')
        = Some (JStr (js ''s3cret''))"
    by blast
  have fin': "finiteNumbers (JStr (js ''hunter22''))"
    by simp
  from f g1 i1 old fin' r1 g2 i2 e p t n r2 r3 show ?thesis
    by (intro conjI)
qed


subsection \<open>Fixed notation\<close>

lemma digits_small: "n < 10 \<Longrightarrow> digits n = [0x30 + of_nat n]"
  by (subst digits.simps) simp

lemma digits_large: "10 \<le> n \<Longrightarrow> digits n = digits (n div 10) @ [0x30 + of_nat (n mod 10)]"
  by (subst digits.simps) simp

lemma digits_hundreds:
  assumes "100 \<le> n"
  shows "digits n = digits (n div 100) @ [0x30 + of_nat (n div 10 mod 10), 0x30 + of_nat (n mod 10)]"
proof -
  from assms have "10 \<le> n" and "10 \<le> n div 10" by simp_all
  then have "digits n = (digits (n div 10 div 10) @ [0x30 + of_nat (n div 10 mod 10)]) @ [0x30 + of_nat (n mod 10)]"
    by (simp add: digits_large)
  then show ?thesis by (simp add: div_mult2_eq [symmetric])
qed

lemma digits_nonempty: "digits n \<noteq> []"
  by (subst digits.simps) simp

lemma toFixed_two_decimals:
  assumes "\<bar>r\<bar> < 10 ^ 21"
  shows "toFixed nts 2 (Finite r) = twoDecimals r"
proof -
  define n where "n = nat \<lfloor>\<bar>r\<bar> * 100 + 1 / 2\<rfloor>"
  define m where "m = (if length (digits n) \<le> 2 then replicate (3 - length (digits n)) 0x30 @ digits n else digits n)"
  have split: "take (length m - 2) m @ js ''.'' @ drop (length m - 2) m
        = digits (n div 100) @ js ''.'' @ [0x30 + of_nat (n div 10 mod 10), 0x30 + of_nat (n mod 10)]"
  proof -
    consider "n < 10" | "10 \<le> n" "n < 100" | "100 \<le> n" by linarith
    then show ?thesis
    proof cases
      case 1
      then show ?thesis by (simp add: m_def digits_small numeral_3_eq_3)
    next
      case 2
      then have "n div 10 < 10" by simp
      with 2 show ?thesis by (simp add: m_def digits_large digits_small)
    next
      case 3
      have "2 < length (digits n)"
        using digits_nonempty [of "n div 100"]
        by (cases "digits (n div 100)") (simp_all add: digits_hundreds [OF 3])
      then show ?thesis by (simp add: m_def digits_hundreds [OF 3])
    qed
  qed
  from assms have "\<not> 10 ^ 21 \<le> \<bar>r\<bar>" by simp
  then have "toFixed nts 2 (Finite r)
      = (if r < 0 then js ''-'' else []) @ take (length m - 2) m @ js ''.'' @ drop (length m - 2) m"
    by (simp add: toFixed_def Let_def n_def m_def numeral_3_eq_3)
  with split show ?thesis by (simp add: twoDecimals_def Let_def n_def)
qed

lemma toFixed_144_99: "toFixed nts 2 (Finite num_144_99) = js ''144.99''"
proof -
  have "\<bar>num_144_99\<bar> < 10 ^ 21" by (simp add: num_144_99_def)
  moreover have "\<lfloor>\<bar>num_144_99\<bar> * 100 + 1 / 2\<rfloor> = 14499"
    by (rule floor_unique) (simp_all add: num_144_99_def)
  then have "nat \<lfloor>\<bar>num_144_99\<bar> * 100 + 1 / 2\<rfloor> = 14499"
    by simp
  moreover have "\<not> num_144_99 < 0"
    by (simp add: num_144_99_def)
  ultimately show ?thesis
    by (simp add: toFixed_two_decimals twoDecimals_def Let_def digits.simps js_def)
qed


subsection \<open>Encoding\<close>

lemma below_surrogates: "c < 0xD800 \<Longrightarrow> \<not> isLowSurrogate c \<and> \<not> isHighSurrogate c"
  by (auto simp: isLowSurrogate_def isHighSurrogate_def word_le_nat_alt word_less_nat_alt)

lemma high_not_low: "isHighSurrogate c \<Longrightarrow> \<not> isLowSurrogate c"
  by (auto simp: isLowSurrogate_def isHighSurrogate_def word_le_nat_alt)

lemma prepend_prepend: "prepend a (prepend b x) = prepend (a @ b) x"
  by (cases x) simp_all

lemma prepend_Nil: "prepend [] x = x"
  by (cases x) simp_all

lemma ascii_plain: "c < 0x80 \<Longrightarrow> \<not> isLowSurrogate c \<and> \<not> isHighSurrogate c"
  by (rule below_surrogates) (simp add: word_less_nat_alt)

lemma unescaped_below: "uriUnescaped c \<Longrightarrow> c < 0x80"
  unfolding uriUnescaped_def js_def
  by (elim disjE conjE) (simp_all add: word_le_nat_alt word_less_nat_alt, auto)

lemma unescaped_not_surrogate: "uriUnescaped c \<Longrightarrow> \<not> isLowSurrogate c \<and> \<not> isHighSurrogate c"
  by (rule ascii_plain) (rule unescaped_below)

lemma encodes_Nil: "encodes []"
  unfolding encodes_def by (rule exI [of _ "[]"]) (simp add: prepend_Nil)

lemma encodes_append: "encodes xs \<Longrightarrow> encodes ys \<Longrightarrow> encodes (xs @ ys)"
proof -
  assume "encodes xs" and "encodes ys"
  then obtain r s where r: "\<And>t. encodeURIComponent (xs @ t) = prepend r (encodeURIComponent t)"
    and s: "\<And>t. encodeURIComponent (ys @ t) = prepend s (encodeURIComponent t)"
    unfolding encodes_def by blast
  have "\<forall>t. encodeURIComponent ((xs @ ys) @ t) = prepend (r @ s) (encodeURIComponent t)"
    by (simp add: r s prepend_prepend)
  then show ?thesis unfolding encodes_def by blast
qed

lemma encodes_plain: "\<not> isLowSurrogate c \<Longrightarrow> \<not> isHighSurrogate c \<Longrightarrow> encodes [c]"
  unfolding encodes_def
  by (rule exI [of _ "if uriUnescaped c then [c] else percent (utf8 (unat c))"]) simp

lemma encodes_pair: "isHighSurrogate c \<Longrightarrow> isLowSurrogate d \<Longrightarrow> encodes [c, d]"
  unfolding encodes_def
  by (rule exI [of _ "percent (utf8 (codePoint c d))"])
     (auto dest: unescaped_not_surrogate high_not_low)

lemma encodes_all_plain:
  "\<forall>c \<in> set xs. \<not> isLowSurrogate c \<and> \<not> isHighSurrogate c \<Longrightarrow> encodes xs"
proof (induction xs)
  case Nil
  show ?case by (rule encodes_Nil)
next
  case (Cons c xs)
  then have "encodes [c]" and "encodes xs" by (simp_all add: encodes_plain)
  then have "encodes ([c] @ xs)" by (rule encodes_append)
  then show ?case by simp
qed

lemma hexLower_below: "hexLower n < 0x80"
proof -
  have "hexLower n \<in> set (js ''0123456789abcdef'')"
    unfolding hexLower_def by (rule nth_mem) (simp add: js_def)
  also have "\<dots> \<subseteq> {c. c < 0x80}"
    by (simp add: js_def)
  finally show ?thesis by simp
qed

lemma encodes_unicodeEscape: "encodes (unicodeEscape c)"
  unfolding unicodeEscape_def
  by (rule encodes_all_plain) (simp add: hexLower_below ascii_plain)

lemma encodes_Cons: "\<not> isLowSurrogate c \<Longrightarrow> \<not> isHighSurrogate c \<Longrightarrow> encodes xs \<Longrightarrow> encodes (c # xs)"
  using encodes_append [OF encodes_plain, of c xs] by simp

lemma encodes_escape: "x < 0x80 \<Longrightarrow> encodes rest \<Longrightarrow> encodes ([0x5C, x] @ rest)"
proof -
  assume "x < 0x80" and rest: "encodes rest"
  then have "encodes [0x5C, x]"
    by (intro encodes_all_plain) (simp add: ascii_plain)
  from this rest show ?thesis by (rule encodes_append)
qed

lemma encodes_quoteChars: "encodes (quoteChars s)"
proof (induction s rule: length_induct)
  case (1 s)
  show ?case
  proof (cases s)
    case Nil
    then show ?thesis by (simp add: encodes_Nil)
  next
    case (Cons c cs)
    with 1 have ih: "encodes (quoteChars cs)" by simp
    show ?thesis
    proof (cases "c \<in> {0x08, 0x09, 0x0A, 0x0C, 0x0D, 0x22, 0x5C}")
      case True
      then consider "c = 0x08" | "c = 0x09" | "c = 0x0A" | "c = 0x0C" | "c = 0x0D" | "c = 0x22" | "c = 0x5C"
        by auto
      then show ?thesis
      proof cases
        case 1 then show ?thesis using encodes_escape [OF _ ih, of "0x62"] by (simp add: Cons)
      next
        case 2 then show ?thesis using encodes_escape [OF _ ih, of "0x74"] by (simp add: Cons)
      next
        case 3 then show ?thesis using encodes_escape [OF _ ih, of "0x6E"] by (simp add: Cons)
      next
        case 4 then show ?thesis using encodes_escape [OF _ ih, of "0x66"] by (simp add: Cons)
      next
        case 5 then show ?thesis using encodes_escape [OF _ ih, of "0x72"] by (simp add: Cons)
      next
        case 6 then show ?thesis using encodes_escape [OF _ ih, of "0x22"] by (simp add: Cons)
      next
        case 7 then show ?thesis using encodes_escape [OF _ ih, of "0x5C"] by (simp add: Cons)
      qed
    next
      case False
      then have ne: "c \<noteq> 0x08" "c \<noteq> 0x09" "c \<noteq> 0x0A" "c \<noteq> 0x0C" "c \<noteq> 0x0D" "c \<noteq> 0x22" "c \<noteq> 0x5C"
        by auto
      show ?thesis
      proof (cases "c < 0x20")
        case True
        with ne ih show ?thesis
          by (simp add: Cons encodes_append encodes_unicodeEscape)
      next
        case nc: False
        show ?thesis
        proof (cases "isLowSurrogate c")
          case True
          with ne nc ih show ?thesis
            by (simp add: Cons encodes_append encodes_unicodeEscape)
        next
          case nl: False
          show ?thesis
          proof (cases "isHighSurrogate c")
            case False
            with ne nc nl ih show ?thesis
              by (simp add: Cons encodes_Cons)
          next
            case True
            show ?thesis
            proof (cases cs)
              case Nil
              with ne nc nl True show ?thesis by (simp add: Cons encodes_unicodeEscape)
            next
              case ds: (Cons d ds)
              show ?thesis
              proof (cases "isLowSurrogate d")
                case low: True
                from 1 Cons ds have "encodes (quoteChars ds)" by simp
                with encodes_pair [OF True low] have "encodes ([c, d] @ quoteChars ds)"
                  by (rule encodes_append)
                with ne nc nl True low show ?thesis by (simp add: Cons ds)
              next
                case nolow: False
                from encodes_unicodeEscape [of c] ih have "encodes (unicodeEscape c @ quoteChars cs)"
                  by (rule encodes_append)
                moreover from ne nc nl True nolow
                have "quoteChars (c # d # ds) = unicodeEscape c @ quoteChars (d # ds)"
                  by (subst quoteChars.simps(2)) simp
                ultimately show ?thesis by (simp only: Cons ds)
              qed
            qed
          qed
        qed
      qed
    qed
  qed
qed

lemma encodes_JSON_quote: "encodes (JSON_quote s)"
  unfolding JSON_quote_def
  by (intro encodes_append encodes_quoteChars encodes_all_plain) (simp_all add: ascii_plain)

lemma encodes_result:
  assumes "encodes xs" and "encodeURIComponent ys = Inr q"
  shows "\<exists>r. encodeURIComponent (xs @ ys) = Inr (r @ q)"
  using assms unfolding encodes_def by auto


subsection \<open>The template builder\<close>

lemma str_includes_mid: "str_includes (a @ x @ b) x"
  unfolding str_includes_iff by blast

lemma str_includes_trans: "str_includes s t \<Longrightarrow> str_includes t u \<Longrightarrow> str_includes s u"
proof -
  assume "str_includes s t" and "str_includes t u"
  then obtain a b c d where "s = a @ t @ b" and "t = c @ u @ d"
    unfolding str_includes_iff by blast
  then have "s = (a @ c) @ u @ (d @ b)" by simp
  then show ?thesis unfolding str_includes_iff by blast
qed

lemma str_includes_concat: "x \<in> set xs \<Longrightarrow> str_includes (concat xs) x"
proof -
  assume "x \<in> set xs"
  then obtain as bs where "xs = as @ x # bs" by (auto simp: in_set_conv_decomp)
  then have "concat xs = concat as @ x @ concat bs" by simp
  then show ?thesis by (simp add: str_includes_mid)
qed

lemma htmlDocument_button:
  "str_includes (htmlDocument month accent hello billRowsHtml amt payButtonHtml sender) payButtonHtml"
  unfolding htmlDocument_def by (rule str_includes_concat) simp

lemma zelleButton_url: "str_includes (zelleButton zelleUrl accent amt payee) zelleUrl"
  unfolding zelleButton_def by (rule str_includes_concat) simp

lemma venmoButton_url: "str_includes (venmoButton venmoUrl accent amt h) venmoUrl"
  unfolding venmoButton_def by (rule str_includes_concat) simp

lemma join_append:
  "xs \<noteq> [] \<Longrightarrow> ys \<noteq> [] \<Longrightarrow> join sep (xs @ ys) = join sep xs @ sep @ join sep ys"
proof (induction sep xs rule: join.induct)
  case (1 sep)
  then show ?case by simp
next
  case (2 sep x)
  then show ?case by (cases ys) simp_all
next
  case (3 sep x y zs)
  then show ?case by simp
qed

lemma join_line:
  "as \<noteq> [] \<Longrightarrow> bs \<noteq> [] \<Longrightarrow> str_includes (join sep (as @ [l] @ bs)) (sep @ l @ sep)"
proof -
  assume as: "as \<noteq> []" and bs: "bs \<noteq> []"
  from bs have "join sep ([l] @ bs) = l @ sep @ join sep bs"
    by (cases bs) simp_all
  with join_append [OF as, of "[l] @ bs" sep]
  have "join sep (as @ [l] @ bs) = join sep as @ (sep @ l @ sep) @ join sep bs"
    by simp
  then show ?thesis by (simp only: str_includes_mid)
qed

lemma textLines_payLine:
  "str_includes (join sep (textLines nts opts hello amt sender))
     (sep @ (if payMethod opts = Some (js ''zelle'') \<and> truthyS (payId opts) then
               js ''Please pay via Zelle to '' @ the (payId opts) @ js ''.''
             else if payMethod opts = Some (js ''venmo'') \<and> truthyS (payId opts) then
               js ''Please pay via Venmo @'' @ venmoHandle (the (payId opts)) @ js ''.''
             else js ''Please send your share when you get a chance.'') @ sep)"
proof -
  let ?l = "if payMethod opts = Some (js ''zelle'') \<and> truthyS (payId opts) then
               js ''Please pay via Zelle to '' @ the (payId opts) @ js ''.''
             else if payMethod opts = Some (js ''venmo'') \<and> truthyS (payId opts) then
               js ''Please pay via Venmo @'' @ venmoHandle (the (payId opts)) @ js ''.''
             else js ''Please send your share when you get a chance.''"
  have "\<exists>as bs. as \<noteq> [] \<and> bs \<noteq> [] \<and> textLines nts opts hello amt sender = as @ [?l] @ bs"
    unfolding textLines_def
    by (rule exI [of _ "[hello, [], concat [js ''Here'', [0x0027], js ''s your share of the bills for '',
                ToStr (monthLabel opts), js '':''], []] @ map (billLine nts) (bills opts)
              @ [[], js ''  '' @ replicate 30 0x2500, concat [js ''  Total you owe:         $'', amt], []]"],
        rule exI [of _ "[[], concat [js ''Thanks, '', sender]]"]) simp
  then obtain as bs where as: "as \<noteq> []" and bs: "bs \<noteq> []"
    and eq: "textLines nts opts hello amt sender = as @ [?l] @ bs"
    by blast
  from join_line [OF as bs, of sep ?l] show ?thesis
    by (simp only: eq)
qed

lemma buildEmailHtml_result:
  assumes "payButton nts opts (case accentColor opts of None \<Rightarrow> js ''#a8e063'' | Some c \<Rightarrow> c)
             (toFixed nts 2 (total opts)) = Inr button"
  shows "\<exists>html text. buildEmailHtml nts opts = Inr (html, text)
           \<and> str_includes html button
           \<and> str_includes text
               (js ''\<newline>'' @
                (if payMethod opts = Some (js ''zelle'') \<and> truthyS (payId opts) then
                   js ''Please pay via Zelle to '' @ the (payId opts) @ js ''.''
                 else if payMethod opts = Some (js ''venmo'') \<and> truthyS (payId opts) then
                   js ''Please pay via Venmo @'' @ venmoHandle (the (payId opts)) @ js ''.''
                 else js ''Please send your share when you get a chance.'') @ js ''\<newline>'')"
  using assms
  by (simp add: buildEmailHtml_def Let_def htmlDocument_button textLines_payLine)

lemma js_append: "js (a @ b) = js a @ js b"
  by (simp add: js_def)

lemma zelle_result:
  assumes "payMethod opts = Some (js ''zelle'')" and "payId opts = Some p" and "p \<noteq> []"
    and "encodeURIComponent
           (stringifyStrings [(js ''name'', personName opts), (js ''token'', Some p),
                              (js ''amount'', Some (toFixed nts 2 (total opts)))]) = Inr zelleData"
  shows "\<exists>html text. buildEmailHtml nts opts = Inr (html, text)
           \<and> str_includes html (js ''https://enroll.zellepay.com/qr-codes?data='' @ zelleData)
           \<and> str_includes text (js ''\<newline>'' @ js ''Please pay via Zelle to '' @ p @ js ''.'' @ js ''\<newline>'')"
proof -
  let ?accent = "case accentColor opts of None \<Rightarrow> js ''#a8e063'' | Some c \<Rightarrow> c"
  let ?amt = "toFixed nts 2 (total opts)"
  let ?url = "js ''https://enroll.zellepay.com/qr-codes?data='' @ zelleData"
  from assms have "payButton nts opts ?accent ?amt = Inr (zelleButton ?url ?accent ?amt p)"
    by (simp add: payButton_def zelleUrlOf_def)
  from buildEmailHtml_result [OF this] assms(1-3)
  obtain html plain where r: "buildEmailHtml nts opts = Inr (html, plain)"
    and h: "str_includes html (zelleButton ?url ?accent ?amt p)"
    and t: "str_includes plain (js ''\<newline>'' @ js ''Please pay via Zelle to '' @ p @ js ''.'' @ js ''\<newline>'')"
    by auto
  from h zelleButton_url have "str_includes html ?url" by (rule str_includes_trans)
  with r t show ?thesis by blast
qed

lemma venmo_result:
  assumes "payMethod opts = Some (js ''venmo'')" and "payId opts = Some p" and "p \<noteq> []"
    and "encodeURIComponent (js ''Bills '' @ ToStr (monthLabel opts)) = Inr note"
  shows "\<exists>html text. buildEmailHtml nts opts = Inr (html, text)
           \<and> str_includes html
                (js ''https://venmo.com/'' @ venmoHandle p @ js ''?txn=charge&amount=''
                 @ toFixed nts 2 (total opts) @ js ''&note='' @ note)
           \<and> str_includes text
                (js ''\<newline>'' @ js ''Please pay via Venmo @'' @ venmoHandle p @ js ''.'' @ js ''\<newline>'')"
proof -
  let ?accent = "case accentColor opts of None \<Rightarrow> js ''#a8e063'' | Some c \<Rightarrow> c"
  let ?amt = "toFixed nts 2 (total opts)"
  let ?url = "js ''https://venmo.com/'' @ venmoHandle p @ js ''?txn=charge&amount='' @ ?amt @ js ''&note='' @ note"
  have ne: "js ''venmo'' \<noteq> js ''zelle''" by (simp add: js_def)
  from assms ne have "payButton nts opts ?accent ?amt = Inr (venmoButton ?url ?accent ?amt (venmoHandle p))"
    by (simp add: payButton_def venmoUrlOf_def)
  from buildEmailHtml_result [OF this] assms(1-3) ne
  obtain html plain where r: "buildEmailHtml nts opts = Inr (html, plain)"
    and h: "str_includes html (venmoButton ?url ?accent ?amt (venmoHandle p))"
    and t: "str_includes plain (js ''\<newline>'' @ js ''Please pay via Venmo @'' @ venmoHandle p @ js ''.'' @ js ''\<newline>'')"
    by auto
  from h venmoButton_url have "str_includes html ?url" by (rule str_includes_trans)
  with r t show ?thesis by blast
qed

lemma venmo_throws:
  assumes "payMethod opts = Some (js ''venmo'')" and "payId opts = Some p" and "p \<noteq> []"
    and "encodeURIComponent (js ''Bills '' @ ToStr (monthLabel opts)) = Inl e"
  shows "buildEmailHtml nts opts = Inl e"
proof -
  have "js ''venmo'' \<noteq> js ''zelle''" by (simp add: js_def)
  with assms show ?thesis
    by (simp add: buildEmailHtml_def Let_def payButton_def)
qed

lemma quote_token: \<open>JSON_quote (js ''token'') @ js '':'' @ JSON_quote (js ''555-1234'') @ js '','' @
    JSON_quote (js ''amount'') @ js '':'' @ JSON_quote (js ''144.99'') @ js ''}''
    = js ''"token":"555-1234","amount":"144.99"}''\<close>
  by (simp add: JSON_quote_def js_def isLowSurrogate_def isHighSurrogate_def)

lemma encode_token:
  \<open>encodeURIComponent (js ''"token":"555-1234","amount":"144.99"}'')
     = Inr (js ''%22token%22%3A%22555-1234%22%2C%22amount%22%3A%22144.99%22%7D'')\<close>
  by (simp add: js_def uriUnescaped_def isLowSurrogate_def isHighSurrogate_def percent_def utf8_def hexUpper_def)

lemma encodes_ascii: "\<forall>c \<in> set s. c < 0x80 \<Longrightarrow> encodes s"
  by (rule encodes_all_plain) (simp add: ascii_plain)

lemma stringify_zelle:
  \<open>\<exists>front. encodes front
     \<and> stringifyStrings [(js ''name'', who), (js ''token'', Some (js ''555-1234'')),
                          (js ''amount'', Some (js ''144.99''))]
        = front @ js ''"token":"555-1234","amount":"144.99"}''\<close>
proof (cases who)
  case None
  have "encodes (js ''{'')"
    by (rule encodes_ascii) (simp add: js_def)
  moreover have \<open>stringifyStrings [(js ''name'', None), (js ''token'', Some (js ''555-1234'')),
                          (js ''amount'', Some (js ''144.99''))]
        = js ''{'' @ js ''"token":"555-1234","amount":"144.99"}''\<close>
    unfolding quote_token [symmetric] by (simp add: stringifyStrings_def)
  ultimately show ?thesis unfolding None by blast
next
  case (Some n)
  let ?front = "js ''{'' @ JSON_quote (js ''name'') @ js '':'' @ JSON_quote n @ js '',''"
  have "encodes (js ''{'')" "encodes (js '':'')" "encodes (js '','')"
    by (rule encodes_ascii, simp add: js_def)+
  then have "encodes ?front"
    by (intro encodes_append encodes_JSON_quote)
  moreover have \<open>stringifyStrings [(js ''name'', Some n), (js ''token'', Some (js ''555-1234'')),
                          (js ''amount'', Some (js ''144.99''))]
        = ?front @ js ''"token":"555-1234","amount":"144.99"}''\<close>
    unfolding quote_token [symmetric] by (simp add: stringifyStrings_def)
  ultimately show ?thesis unfolding Some by blast
qed

text \<open>
  C8. With payment method \<open>zelle\<close>, payment identifier \<open>555-1234\<close> and total \<open>144.99\<close>,
  whatever the other options are, the builder returns an HTML payload that contains the
  Zelle URL, in whose data the total stands as \<open>144.99\<close>, and a text payload with the
  line \<open>Please pay via Zelle to 555-1234.\<close>
\<close>

theorem zelle_example:
  \<open>\<exists>html text zelleData.
     buildEmailHtml nts
       (opts\<lparr>payMethod := Some (js ''zelle''), payId := Some (js ''555-1234''), total := Finite num_144_99\<rparr>)
       = Inr (html, text)
     \<and> str_includes html (js ''https://enroll.zellepay.com/qr-codes?data='' @ zelleData)
     \<and> str_includes zelleData (js ''%22token%22%3A%22555-1234%22%2C%22amount%22%3A%22144.99%22%7D'')
     \<and> str_includes text (js ''\<newline>Please pay via Zelle to 555-1234.\<newline>'')\<close>
proof -
  let ?o = "opts\<lparr>payMethod := Some (js ''zelle''), payId := Some (js ''555-1234''), total := Finite num_144_99\<rparr>"
  let ?q = "js ''%22token%22%3A%22555-1234%22%2C%22amount%22%3A%22144.99%22%7D''"
  from stringify_zelle [of "personName opts"] obtain front where f: "encodes front"
    and s: \<open>stringifyStrings [(js ''name'', personName opts), (js ''token'', Some (js ''555-1234'')),
                          (js ''amount'', Some (js ''144.99''))]
        = front @ js ''"token":"555-1234","amount":"144.99"}''\<close>
    by blast
  from encodes_result [OF f encode_token] obtain r where
    e: \<open>encodeURIComponent (front @ js ''"token":"555-1234","amount":"144.99"}'') = Inr (r @ ?q)\<close>
    by blast
  have "encodeURIComponent
           (stringifyStrings [(js ''name'', personName ?o), (js ''token'', Some (js ''555-1234'')),
                              (js ''amount'', Some (toFixed nts 2 (total ?o)))]) = Inr (r @ ?q)"
    by (simp add: toFixed_144_99 s e)
  from zelle_result [OF _ _ _ this]
  obtain html plain where b: "buildEmailHtml nts ?o = Inr (html, plain)"
    and h: "str_includes html (js ''https://enroll.zellepay.com/qr-codes?data='' @ (r @ ?q))"
    and t: "str_includes plain (js ''\<newline>'' @ js ''Please pay via Zelle to '' @ js ''555-1234'' @ js ''.'' @ js ''\<newline>'')"
    by (auto simp: js_def)
  have "str_includes (r @ ?q) ?q"
    using str_includes_mid [of r ?q "[]"] by simp
  moreover from t have "str_includes plain (js ''\<newline>Please pay via Zelle to 555-1234.\<newline>'')"
    by (simp add: js_def)
  ultimately show ?thesis using b h by blast
qed

lemma venmoHandle_leading:
  "hd p = 0x40 \<or> 0x40 \<notin> set p \<Longrightarrow> venmoHandle p = stripLeadingAt p"
  by (cases p) (auto simp: venmoHandle_def remove1_idem)

lemma encode_note: "encodeURIComponent (js ''Bills March'') = Inr (js ''Bills%20March'')"
  by (simp add: js_def uriUnescaped_def isLowSurrogate_def isHighSurrogate_def percent_def utf8_def hexUpper_def)

lemma twoDecimals_10: "twoDecimals 10 = js ''10.00''"
proof -
  have "\<lfloor>\<bar>10 :: rat\<bar> * 100 + 1 / 2\<rfloor> = 1000"
    by (rule floor_unique) simp_all
  then show ?thesis
    by (simp add: twoDecimals_def Let_def digits_large digits_small js_def)
qed

lemma sampleOpts_fields:
  "payMethod sampleOpts = Some (js ''venmo'')" "payId sampleOpts = Some (js ''pay@me'')"
  "total sampleOpts = Finite 10" "monthLabel sampleOpts = Some (js ''March'')"
  by (simp_all add: sampleOpts_def)

text \<open>
  C9, as stated, fails. The handle is the identifier without its first \<open>@\<close>, wherever
  that stands: for \<open>pay@me\<close>, which has no leading \<open>@\<close>, the link goes to \<open>payme\<close>. The
  amount of a total that is not finite is not in fixed notation, and a month label with
  an unpaired surrogate makes the builder throw.
\<close>

theorem venmo_handle_not_leading:
  "htmlContains (buildEmailHtml sampleNumberToString sampleOpts)
     (js ''https://venmo.com/payme?txn=charge&amount=10.00&note=Bills%20March'')
   \<and> stripLeadingAt (js ''pay@me'') = js ''pay@me''
   \<and> htmlContains (buildEmailHtml sampleNumberToString (sampleOpts\<lparr>total := PosInfinity\<rparr>))
     (js ''https://venmo.com/payme?txn=charge&amount=Infinity&note=Bills%20March'')
   \<and> buildEmailHtml sampleNumberToString (sampleOpts\<lparr>monthLabel := Some [0xD800]\<rparr>) = Inl URIError"
proof -
  have h: "venmoHandle (js ''pay@me'') = js ''payme''"
    by (simp add: venmoHandle_def js_def)
  have n: "encodeURIComponent (js ''Bills '' @ ToStr (Some (js ''March''))) = Inr (js ''Bills%20March'')"
    using encode_note by (simp add: js_def)
  have ne: "js ''pay@me'' \<noteq> []"
    by (simp add: js_def)
  have 1: "htmlContains (buildEmailHtml sampleNumberToString sampleOpts)
     (js ''https://venmo.com/payme?txn=charge&amount=10.00&note=Bills%20March'')"
    using venmo_result [of sampleOpts "js ''pay@me''" "js ''Bills%20March''" sampleNumberToString] n ne
    by (auto simp: sampleOpts_fields h toFixed_two_decimals twoDecimals_10 htmlContains_def js_append [symmetric])
  have 2: "stripLeadingAt (js ''pay@me'') = js ''pay@me''"
    by (simp add: js_def)
  have 3: "htmlContains (buildEmailHtml sampleNumberToString (sampleOpts\<lparr>total := PosInfinity\<rparr>))
     (js ''https://venmo.com/payme?txn=charge&amount=Infinity&note=Bills%20March'')"
    using venmo_result [of "sampleOpts\<lparr>total := PosInfinity\<rparr>" "js ''pay@me''" "js ''Bills%20March''" sampleNumberToString] n ne
    by (auto simp: sampleOpts_fields h toFixed_def htmlContains_def js_append [symmetric])
  have "encodeURIComponent (js ''Bills '' @ ToStr (Some [0xD800])) = Inl URIError"
    by (simp add: js_def uriUnescaped_def isLowSurrogate_def isHighSurrogate_def percent_def utf8_def hexUpper_def)
  then have 4: "buildEmailHtml sampleNumberToString (sampleOpts\<lparr>monthLabel := Some [0xD800]\<rparr>) = Inl URIError"
    using venmo_throws [of "sampleOpts\<lparr>monthLabel := Some [0xD800]\<rparr>" "js ''pay@me''" URIError sampleNumberToString] ne
    by (simp add: sampleOpts_fields)
  from 1 2 3 4 show ?thesis by (intro conjI)
qed

text \<open>
  C9, amended. With payment method \<open>venmo\<close>, a payment identifier that is not empty, a
  finite total below \<open>10\<^sup>2\<^sup>1\<close> in magnitude and a month label that \<open>encodeURIComponent\<close>
  accepts, the builder returns an HTML payload with the Venmo charge link whose handle is
  the identifier without its first \<open>@\<close> (the identifier with a leading \<open>@\<close> stripped when
  it starts with \<open>@\<close> or has none), whose amount is the total in two-decimal fixed
  notation and whose note is the encoded \<open>Bills\<close> and month label; the text payload names
  the same handle.
\<close>

theorem venmo_link:
  assumes "payMethod opts = Some (js ''venmo'')" and "payId opts = Some p" and "p \<noteq> []"
    and "total opts = Finite r" and "\<bar>r\<bar> < 10 ^ 21"
    and "encodeURIComponent (js ''Bills '' @ ToStr (monthLabel opts)) = Inr note"
  shows "htmlContains (buildEmailHtml nts opts)
           (js ''https://venmo.com/'' @ venmoHandle p @ js ''?txn=charge&amount='' @ twoDecimals r
            @ js ''&note='' @ note)
       \<and> textContains (buildEmailHtml nts opts)
           (js ''\<newline>Please pay via Venmo @'' @ venmoHandle p @ js ''.\<newline>'')
       \<and> venmoHandle p = remove1 0x40 p
       \<and> (hd p = 0x40 \<or> 0x40 \<notin> set p \<longrightarrow> venmoHandle p = stripLeadingAt p)"
proof -
  from venmo_result [OF assms(1-3) assms(6), of nts] assms(4,5)
  have "htmlContains (buildEmailHtml nts opts)
           (js ''https://venmo.com/'' @ venmoHandle p @ js ''?txn=charge&amount='' @ twoDecimals r
            @ js ''&note='' @ note)"
    and "textContains (buildEmailHtml nts opts)
           (js ''\<newline>Please pay via Venmo @'' @ venmoHandle p @ js ''.\<newline>'')"
    by (auto simp: htmlContains_def textContains_def toFixed_two_decimals js_def)
  then show ?thesis
    by (simp add: venmoHandle_leading) (simp add: venmoHandle_def)
qed

theorem venmo_link_witness:
  "payMethod sampleOpts = Some (js ''venmo'') \<and> payId sampleOpts = Some (js ''pay@me'') \<and> js ''pay@me'' \<noteq> []
   \<and> total sampleOpts = Finite 10 \<and> \<bar>10 :: rat\<bar> < 10 ^ 21
   \<and> encodeURIComponent (js ''Bills '' @ ToStr (monthLabel sampleOpts)) = Inr (js ''Bills%20March'')
   \<and> htmlContains (buildEmailHtml sampleNumberToString sampleOpts)
        (js ''https://venmo.com/'' @ venmoHandle (js ''pay@me'') @ js ''?txn=charge&amount='' @ twoDecimals 10
         @ js ''&note='' @ js ''Bills%20March'')
   \<and> textContains (buildEmailHtml sampleNumberToString sampleOpts)
        (js ''\<newline>Please pay via Venmo @'' @ venmoHandle (js ''pay@me'') @ js ''.\<newline>'')"
proof -
  have 3: "js ''pay@me'' \<noteq> []"
    by (simp add: js_def)
  have 5: "\<bar>10 :: rat\<bar> < 10 ^ 21"
    by simp
  have 6: "encodeURIComponent (js ''Bills '' @ ToStr (monthLabel sampleOpts)) = Inr (js ''Bills%20March'')"
    using encode_note by (simp add: sampleOpts_fields js_def)
  from venmo_link [OF sampleOpts_fields(1,2) 3 sampleOpts_fields(3) 5 6, of sampleNumberToString]
  have "htmlContains (buildEmailHtml sampleNumberToString sampleOpts)
        (js ''https://venmo.com/'' @ venmoHandle (js ''pay@me'') @ js ''?txn=charge&amount='' @ twoDecimals 10
         @ js ''&note='' @ js ''Bills%20March'')"
    and "textContains (buildEmailHtml sampleNumberToString sampleOpts)
        (js ''\<newline>Please pay via Venmo @'' @ venmoHandle (js ''pay@me'') @ js ''.\<newline>'')"
    by blast+
  with sampleOpts_fields(1,2,3) 3 5 6 show ?thesis by (intro conjI)
qed

end
